(* ===== verification/Babel_Prelude.thy ===== *)
theory Babel_Prelude
  imports
    Main
    "HOL-Library.Word"
    "HOL-Library.AList"
    "HOL-Library.Multiset"
    "HOL-Library.Char_ord"
    "HOL-Library.List_Lexorder"
    "HOL-Library.Product_Lexorder"
    "HOL-Library.Option_ord"
    "HOL-Library.Code_Target_Nat"
begin

text \<open>
  The vocabulary every other theory of the development shares.

  \<^item> Machine integers: Rust's \<open>u8\<close>, \<open>u16\<close>, \<open>u32\<close> and \<open>u64\<close> are words of their width,
    \<open>wrapping_add\<close> and \<open>wrapping_sub\<close> are word addition and subtraction, and the
    saturating operations are \<open>sat_add\<close>, \<open>sat_sub\<close> and \<open>sat_mul\<close>. A \<open>usize\<close> that counts
    elements of a collection held in memory is a \<open>nat\<close>.
  \<^item> Big-endian byte strings of words (\<open>to_be_bytes\<close>, \<open>from_be_bytes\<close>).
  \<^item> \<open>HashMap\<close> and \<open>BTreeMap\<close> as association lists with distinct keys. A \<open>HashMap\<close> is
    iterated in the order of a hash function that is a parameter (\<open>hash_iter\<close>), so a
    result that holds for every hash function holds for every iteration order; a
    \<open>BTreeMap\<close> is kept sorted by key.
  \<^item> Fallible code returns \<open>'e + 'a\<close>, with \<open>Inl\<close> the error.
\<close>

unbundle bit_operations_syntax

named_theorems word_model \<open>unat characterisations of the saturating word operations\<close>
named_theorems table \<open>lookup and key laws of the association-list tables\<close>

section \<open>Machine integers\<close>

type_synonym u8 = "8 word"
type_synonym u16 = "16 word"
type_synonym u32 = "32 word"
type_synonym u64 = "64 word"

definition sat_add :: "'a::len word \<Rightarrow> 'a word \<Rightarrow> 'a word" where
  "sat_add a b = (if unat a + unat b < 2 ^ LENGTH('a) then a + b else - 1)"

definition sat_sub :: "'a::len word \<Rightarrow> 'a word \<Rightarrow> 'a word" where
  "sat_sub a b = (if b \<le> a then a - b else 0)"

definition sat_mul :: "'a::len word \<Rightarrow> 'a word \<Rightarrow> 'a word" where
  "sat_mul a b = (if unat a * unat b < 2 ^ LENGTH('a) then a * b else - 1)"

text \<open>\<open>div_ceil\<close> on unsigned integers; the divisor is never zero where it is used.\<close>

definition div_ceil :: "'a::len word \<Rightarrow> 'a word \<Rightarrow> 'a word" where
  "div_ceil a b = (if a mod b = 0 then a div b else a div b + 1)"

definition abs_diff :: "'a::len word \<Rightarrow> 'a word \<Rightarrow> 'a word" where
  "abs_diff a b = (if a < b then b - a else a - b)"

lemma unat_minus_one_word [simp]: "unat (- 1 :: 'a::len word) = 2 ^ LENGTH('a) - 1"
  by (simp add: unsigned_minus_1_eq_mask mask_eq_exp_minus_1)

lemma unat_less_exp: "unat a < 2 ^ LENGTH('a)" for a :: "'a::len word"
  by (rule unsigned_less)

lemma unat_le_max: "unat a \<le> 2 ^ LENGTH('a) - 1" for a :: "'a::len word"
  using unat_less_exp [of a] by linarith

lemma unat_sat_add [word_model]:
  "unat (sat_add a b) = min (unat a + unat b) (2 ^ LENGTH('a) - 1)" for a b :: "'a::len word"
  by (auto simp: sat_add_def unat_word_ariths min_def)

lemma unat_sat_sub [word_model]: "unat (sat_sub a b) = unat a - unat b" for a b :: "'a::len word"
  by (auto simp: sat_sub_def unat_sub word_le_nat_alt)

lemma unat_sat_mul [word_model]:
  "unat (sat_mul a b) = min (unat a * unat b) (2 ^ LENGTH('a) - 1)" for a b :: "'a::len word"
proof (cases "unat a * unat b < 2 ^ LENGTH('a)")
  case True
  then show ?thesis by (auto simp: sat_mul_def unat_word_ariths)
next
  case False
  then have "2 ^ LENGTH('a) - 1 \<le> unat a * unat b" by linarith
  with False show ?thesis by (simp add: sat_mul_def min_absorb2)
qed

lemma sat_add_ge [simp]: "a \<le> sat_add a b" for a b :: "'a::len word"
  using unat_le_max [of a] by (simp add: word_le_nat_alt unat_sat_add)

lemma sat_add_mono: "b \<le> c \<Longrightarrow> sat_add a b \<le> sat_add a c" for a b c :: "'a::len word"
  by (simp add: word_le_nat_alt unat_sat_add)

lemma sat_sub_le [simp]: "sat_sub a b \<le> a" for a b :: "'a::len word"
  by (simp add: word_le_nat_alt unat_sat_sub)

lemma sat_sub_self [simp]: "sat_sub a a = 0"
  by (simp add: sat_sub_def)

lemma sat_sub_eq_0_iff: "sat_sub a b = 0 \<longleftrightarrow> a \<le> b" for a b :: "'a::len word"
  by (auto simp: sat_sub_def)

lemma u32_succ:
  assumes "(w :: u32) \<noteq> 0xffffffff"
  shows "unat (w + 1) = Suc (unat w)"
proof -
  have "1 + w \<noteq> 0"
  proof
    assume "1 + w = 0"
    then have "w = - 1" by (simp add: eq_neg_iff_add_eq_0 add.commute)
    then show False using assms by simp
  qed
  then show ?thesis using unatSuc [of w] by (simp add: add.commute)
qed

lemma sat_add_0 [simp]: "sat_add a 0 = a" "sat_add 0 a = a" for a :: "'a::len word"
  by (simp_all add: sat_add_def)

lemma unat_div_ceil [word_model]:
  fixes a b :: "'a::len word"
  shows "unat (div_ceil a b) = unat a div unat b + (if unat a mod unat b = 0 then 0 else 1)"
proof -
  have z: "a mod b = 0 \<longleftrightarrow> unat a mod unat b = 0"
    by (metis unat_0 unat_eq_zero unat_mod)
  have "Suc (unat a div unat b) < 2 ^ LENGTH('a)" if "unat a mod unat b \<noteq> 0"
  proof (cases "unat b = 0")
    case True
    then show ?thesis using one_less_power [of "2::nat" "LENGTH('a)"] by simp
  next
    case False
    moreover have "unat b \<noteq> 1" using that by auto
    ultimately have "unat a div unat b < unat a" using that
      by (intro div_less_dividend) (auto intro: gr0I)
    then show ?thesis using unat_less_exp [of a] by linarith
  qed
  moreover have "unat a div unat b < 2 ^ LENGTH('a)"
    using unat_less_exp [of a] div_le_dividend [of "unat a" "unat b"] by linarith
  ultimately show ?thesis by (simp add: div_ceil_def z unat_word_ariths unat_div)
qed


lemma unat_min: "unat (min a b) = min (unat a) (unat b)" for a b :: "'a::len word"
  by (simp add: min_def word_le_nat_alt)

lemma unat_max: "unat (max a b) = max (unat a) (unat b)" for a b :: "'a::len word"
  by (simp add: max_def word_le_nat_alt)

lemma unat_ucast_small:
  "unat x < 2 ^ LENGTH('b) \<Longrightarrow> unat (ucast x :: 'b::len word) = unat x" for x :: "'a::len word"
  by (simp add: unsigned_ucast_eq take_bit_nat_eq_self)

section \<open>Big-endian bytes\<close>

definition to_be_bytes :: "'a::len word \<Rightarrow> u8 list" where
  "to_be_bytes w = map (\<lambda>i. ucast (drop_bit (8 * i) w)) (rev [0..<LENGTH('a) div 8])"

definition from_be_bytes :: "u8 list \<Rightarrow> 'a::len word" where
  "from_be_bytes bs = foldl (\<lambda>acc b. push_bit 8 acc OR ucast b) 0 bs"

lemma length_to_be_bytes [simp]: "length (to_be_bytes w) = LENGTH('a) div 8"
  for w :: "'a::len word"
  by (simp add: to_be_bytes_def)

lemma nth_to_be_bytes:
  "i < LENGTH('a) div 8 \<Longrightarrow>
     to_be_bytes w ! i = ucast (drop_bit (8 * (LENGTH('a) div 8 - Suc i)) w)"
  for w :: "'a::len word"
  by (simp add: to_be_bytes_def rev_map [symmetric] rev_nth)

lemma from_be_bytes_snoc:
  "from_be_bytes (bs @ [b]) = (push_bit 8 (from_be_bytes bs) OR ucast b)"
  by (simp add: from_be_bytes_def)

lemma bit_from_be_bytes:
  "bit (from_be_bytes bs :: 'a::len word) k \<longleftrightarrow>
     k < LENGTH('a) \<and> k div 8 < length bs \<and> bit (bs ! (length bs - Suc (k div 8))) (k mod 8)"
proof (induction bs arbitrary: k rule: rev_induct)
  case Nil
  then show ?case by (simp add: from_be_bytes_def)
next
  case (snoc b bs)
  show ?case
  proof (cases "k < 8")
    case True
    then show ?thesis by (auto simp: from_be_bytes_snoc bit_simps)
  next
    case False
    then have d: "k div 8 = Suc ((k - 8) div 8)" and m: "k mod 8 = (k - 8) mod 8"
      by (simp_all add: le_div_geq le_mod_geq)
    have nb: "\<not> bit b k" using False by (auto dest: bit_imp_le_length)
    have "length (bs @ [b]) - Suc (k div 8) = length bs - Suc ((k - 8) div 8)" using d by simp
    moreover have "(bs @ [b]) ! (length bs - Suc ((k - 8) div 8)) = bs ! (length bs - Suc ((k - 8) div 8))"
      if "(k - 8) div 8 < length bs"
    proof -
      have "length bs - Suc ((k - 8) div 8) < length bs" using that by linarith
      then show ?thesis by (simp add: nth_append)
    qed
    ultimately show ?thesis
      using False d m nb snoc.IH [of "k - 8"]
      by (auto simp: from_be_bytes_snoc bit_simps)
  qed
qed

lemma from_to_be_bytes [simp]:
  assumes "8 dvd LENGTH('a)"
  shows "from_be_bytes (to_be_bytes w) = (w :: 'a::len word)"
proof (rule bit_word_eqI)
  fix k assume k: "k < LENGTH('a)"
  then have d: "k div 8 < LENGTH('a) div 8" using assms by auto
  let ?i = "LENGTH('a) div 8 - Suc (k div 8)"
  have i: "?i < LENGTH('a) div 8" and j: "LENGTH('a) div 8 - Suc ?i = k div 8" using d by auto
  show "bit (from_be_bytes (to_be_bytes w) :: 'a word) k = bit w k"
    using k d by (simp add: bit_from_be_bytes nth_to_be_bytes [OF i] j bit_simps)
qed

lemma to_from_be_bytes [simp]:
  assumes "8 * length bs = LENGTH('a)"
  shows "to_be_bytes (from_be_bytes bs :: 'a::len word) = bs"
proof (rule nth_equalityI)
  have l: "LENGTH('a) div 8 = length bs" using assms by simp
  then show "length (to_be_bytes (from_be_bytes bs :: 'a word)) = length bs" by simp
  fix i assume "i < length (to_be_bytes (from_be_bytes bs :: 'a word))"
  then have i: "i < length bs" using l by simp
  show "to_be_bytes (from_be_bytes bs :: 'a word) ! i = bs ! i"
  proof (rule bit_word_eqI)
    fix k assume "k < LENGTH(8)"
    then have k: "k < 8" by simp
    let ?n = "8 * (length bs - Suc i) + k"
    have d: "?n div 8 = length bs - Suc i" "?n mod 8 = k" using k by simp_all
    have "?n < LENGTH('a)" using assms i k by simp
    moreover have "length bs - Suc (length bs - Suc i) = i" "length bs - Suc i < length bs"
      using i by linarith+
    ultimately show "bit (to_be_bytes (from_be_bytes bs :: 'a word) ! i) k = bit (bs ! i) k"
      using i k l d by (simp add: nth_to_be_bytes bit_simps bit_from_be_bytes)
  qed
qed

lemma bit_to_be_bytes:
  fixes a :: "'a::len word"
  assumes "i < LENGTH('a) div 8" "j < 8"
  shows "bit (to_be_bytes a ! i) j = bit a (8 * (LENGTH('a) div 8 - Suc i) + j)"
  using assms by (simp add: nth_to_be_bytes bit_simps add.commute)

section \<open>Tables\<close>

text \<open>
  A \<open>HashMap\<close> is an association list with distinct keys; \<open>insert\<close> is \<^const>\<open>AList.update\<close>,
  \<open>remove\<close> is \<^const>\<open>AList.delete\<close>, \<open>get\<close> is \<^const>\<open>map_of\<close> and \<open>retain\<close> is
  \<^const>\<open>filter\<close>. A \<open>BTreeMap\<close> uses the same operations with \<open>bt_insert\<close> as its insertion.
\<close>

type_synonym ('k, 'v) table = "('k \<times> 'v) list"

abbreviation table_keys :: "('k, 'v) table \<Rightarrow> 'k list" where
  "table_keys m \<equiv> map fst m"

abbreviation table_values :: "('k, 'v) table \<Rightarrow> 'v list" where
  "table_values m \<equiv> map snd m"

abbreviation contains_key :: "('k, 'v) table \<Rightarrow> 'k \<Rightarrow> bool" where
  "contains_key m k \<equiv> map_of m k \<noteq> None"

text \<open>\<open>get_mut\<close> followed by an assignment: the entry is rewritten if it is there.\<close>

definition modify :: "'k \<Rightarrow> ('v \<Rightarrow> 'v) \<Rightarrow> ('k, 'v) table \<Rightarrow> ('k, 'v) table" where
  "modify k f m = map (\<lambda>(k', v). (k', if k' = k then f v else v)) m"

text \<open>\<open>for (key, value) in \<dots>.iter_mut()\<close> that rewrites every value.\<close>

definition map_values :: "('k \<Rightarrow> 'v \<Rightarrow> 'w) \<Rightarrow> ('k, 'v) table \<Rightarrow> ('k, 'w) table" where
  "map_values f m = map (\<lambda>(k, v). (k, f k v)) m"

text \<open>The iteration order of a \<open>HashMap\<close> under the hash function \<open>h\<close>.\<close>

definition hash_iter :: "('k \<Rightarrow> nat) \<Rightarrow> ('k, 'v) table \<Rightarrow> ('k, 'v) table" where
  "hash_iter h m = sort_key (\<lambda>e. h (fst e)) m"

fun bt_insert :: "'k::linorder \<Rightarrow> 'v \<Rightarrow> ('k, 'v) table \<Rightarrow> ('k, 'v) table" where
  "bt_insert k v [] = [(k, v)]"
| "bt_insert k v ((k', v') # m) =
     (if k < k' then (k, v) # (k', v') # m
      else if k = k' then (k, v) # m
      else (k', v') # bt_insert k v m)"

lemma map_of_modify [table]:
  "map_of (modify k f m) k' = (if k' = k then map_option f (map_of m k) else map_of m k')"
  by (induction m) (auto simp: modify_def)

lemma keys_modify [simp, table]: "map fst (modify k f m) = map fst m"
  by (induction m) (auto simp: modify_def)

lemma length_modify [simp]: "length (modify k f m) = length m"
  by (simp add: modify_def)

lemma modify_absent: "map_of m k = None \<Longrightarrow> modify k f m = m"
  by (induction m) (auto simp: modify_def split: if_splits)

lemma map_of_map_values [table]: "map_of (map_values f m) k = map_option (f k) (map_of m k)"
  by (induction m) (auto simp: map_values_def)

lemma keys_map_values [simp, table]: "map fst (map_values f m) = map fst m"
  by (induction m) (auto simp: map_values_def)

lemma length_map_values [simp]: "length (map_values f m) = length m"
  by (simp add: map_values_def)

lemma set_map_values: "(k, w) \<in> set (map_values f m) \<longleftrightarrow> (\<exists>v. (k, v) \<in> set m \<and> w = f k v)"
  by (auto simp: map_values_def)

lemma set_modify:
  "(k', w) \<in> set (modify k f m) \<longleftrightarrow> (\<exists>v. (k', v) \<in> set m \<and> w = (if k' = k then f v else v))"
  by (force simp: modify_def)

lemma mset_hash_iter [simp]: "mset (hash_iter h m) = mset m"
  by (simp add: hash_iter_def)

lemma set_hash_iter [simp]: "set (hash_iter h m) = set m"
  by (simp add: hash_iter_def)

lemma length_hash_iter [simp]: "length (hash_iter h m) = length m"
  by (simp add: hash_iter_def)

lemma distinct_hash_iter [simp]: "distinct (map fst (hash_iter h m)) \<longleftrightarrow> distinct (map fst m)"
proof -
  have "mset (map fst (hash_iter h m)) = mset (map fst m)" by simp
  then show ?thesis by (metis mset_eq_imp_distinct_iff)
qed

lemma map_of_filter_keys [table]:
  "map_of (filter (\<lambda>e. P (fst e)) m) k = (if P k then map_of m k else None)"
  by (induction m) auto

lemma map_of_filter:
  "distinct (map fst m) \<Longrightarrow>
     map_of (filter P m) k = (case map_of m k of None \<Rightarrow> None | Some v \<Rightarrow> if P (k, v) then Some v else None)"
proof (induction m)
  case Nil
  then show ?case by simp
next
  case (Cons e m)
  then show ?case by (cases e) (auto simp: map_of_eq_None_iff split: option.splits dest: map_of_SomeD)
qed

lemma distinct_keys_filter [simp]: "distinct (map fst m) \<Longrightarrow> distinct (map fst (filter P m))"
  by (induction m) auto

lemma map_of_delete_table [table]: "map_of (AList.delete k m) k' = (if k' = k then None else map_of m k')"
  by (simp add: AList.delete_conv)

lemma set_delete_table: "set (AList.delete k m) = {e \<in> set m. fst e \<noteq> k}"
  by (auto simp: AList.delete_eq)

lemma set_map_of: "distinct (map fst m) \<Longrightarrow> (k, v) \<in> set m \<longleftrightarrow> map_of m k = Some v"
  by (auto dest: map_of_SomeD map_of_is_SomeI)

lemma delete_table_eq: "AList.delete k m = filter (\<lambda>e. fst e \<noteq> k) m"
  by (auto simp: AList.delete_eq intro: filter_cong)

lemma length_delete_table:
  "distinct (map fst m) \<Longrightarrow> contains_key m k \<Longrightarrow> length (AList.delete k m) = length m - 1"
proof (induction m)
  case Nil
  then show ?case by simp
next
  case (Cons e m)
  show ?case
  proof (cases "fst e = k")
    case True
    with Cons.prems have "filter (\<lambda>p. fst p \<noteq> k) m = m"
      by (auto intro!: filter_True simp: image_iff)
    with True show ?thesis by (simp add: delete_table_eq)
  next
    case False
    with Cons.prems have "contains_key m k" by (auto split: if_splits)
    moreover from this have "m \<noteq> []" by auto
    ultimately show ?thesis using False Cons by (simp add: delete_table_eq)
  qed
qed

lemma set_update_table:
  "distinct (map fst m) \<Longrightarrow> set (AList.update k v m) = insert (k, v) {e \<in> set m. fst e \<noteq> k}"
  by (induction m) (auto simp: image_iff)

lemma map_of_bt_insert: "sorted_wrt (<) (map fst m) \<Longrightarrow> map_of (bt_insert k v m) = (map_of m)(k \<mapsto> v)"
proof (induction k v m rule: bt_insert.induct)
  case (1 k v)
  then show ?case by simp
next
  case (2 k v k' v' m)
  then show ?case by (auto simp: fun_eq_iff)
qed

lemma set_keys_bt_insert: "set (map fst (bt_insert k v m)) = insert k (set (map fst m))"
  by (induction k v m rule: bt_insert.induct) auto

lemma sorted_bt_insert:
  "sorted_wrt (<) (map fst m) \<Longrightarrow> sorted_wrt (<) (map fst (bt_insert k v m))"
proof (induction k v m rule: bt_insert.induct)
  case (1 k v)
  then show ?case by simp
next
  case (2 k v k' v' m)
  have "set (map fst (bt_insert k v m)) = insert k (set (map fst m))" by (rule set_keys_bt_insert)
  with 2 show ?case by (auto simp: not_less)
qed

lemma sorted_keys_filter: "sorted_wrt (<) (map fst m) \<Longrightarrow> sorted_wrt (<) (map fst (filter P m))"
  by (induction m) auto

lemma sorted_keys_delete: "sorted_wrt (<) (map fst m) \<Longrightarrow> sorted_wrt (<) (map fst (AList.delete k m))"
  by (simp add: AList.delete_eq sorted_keys_filter)

lemma strict_sorted_distinct: "sorted_wrt (<) (xs :: 'a::linorder list) \<Longrightarrow> distinct xs"
  by (induction xs) auto

text \<open>
  The contract of an insertion, for both kinds of table: what a lookup returns after it,
  and that the shape of the table (distinct keys, or keys in order) is kept.
\<close>

locale table_ops =
  fixes ins :: "'k \<Rightarrow> 'v \<Rightarrow> ('k, 'v) table \<Rightarrow> ('k, 'v) table"
    and shape :: "('k, 'v) table \<Rightarrow> bool"
  assumes map_of_ins: "shape m \<Longrightarrow> map_of (ins k v m) = (map_of m)(k \<mapsto> v)"
    and shape_ins: "shape m \<Longrightarrow> shape (ins k v m)"
    and shape_distinct: "shape m \<Longrightarrow> distinct (table_keys m)"
    and shape_filter: "shape m \<Longrightarrow> shape (filter P m)"
begin

lemma lookup_same: "shape m \<Longrightarrow> map_of (ins k v m) k = Some v"
  by (simp add: map_of_ins)

lemma lookup_other: "shape m \<Longrightarrow> k' \<noteq> k \<Longrightarrow> map_of (ins k v m) k' = map_of m k'"
  by (simp add: map_of_ins)

lemma keys_ins: "shape m \<Longrightarrow> set (table_keys (ins k v m)) = insert k (set (table_keys m))"
  by (metis (mono_tags, lifting) dom_fun_upd dom_map_of_conv_image_fst list.set_map map_of_ins option.distinct(1))

lemma set_ins: "shape m \<Longrightarrow> set (ins k v m) = insert (k, v) {e \<in> set m. fst e \<noteq> k}"
proof -
  assume m: "shape m"
  have d: "distinct (table_keys (ins k v m))" "distinct (table_keys m)"
    using m shape_ins shape_distinct by blast+
  have "e \<in> set (ins k v m) \<longleftrightarrow> e \<in> insert (k, v) {e \<in> set m. fst e \<noteq> k}" for e
    by (cases e) (auto simp: set_map_of [OF d(1)] set_map_of [OF d(2)] map_of_ins [OF m] split: if_splits)
  then show ?thesis by blast
qed

lemma length_ins: "shape m \<Longrightarrow> length (ins k v m) = (if contains_key m k then length m else Suc (length m))"
proof -
  assume m: "shape m"
  have "length (ins k v m) = card (set (table_keys (ins k v m)))"
    using shape_distinct [OF shape_ins [OF m]] by (metis distinct_card length_map)
  also have "\<dots> = card (insert k (set (table_keys m)))" by (simp only: keys_ins [OF m])
  also have "\<dots> = (if contains_key m k then length m else Suc (length m))"
    using shape_distinct [OF m]
    by (simp add: card_insert_if map_of_eq_None_iff) (metis distinct_card length_map list.set_map)
  finally show ?thesis .
qed

lemma retain_lookup:
  "shape m \<Longrightarrow> map_of (filter P m) k = (case map_of m k of None \<Rightarrow> None | Some v \<Rightarrow> if P (k, v) then Some v else None)"
  by (simp add: map_of_filter shape_distinct)

end

interpretation hash_table: table_ops AList.update "\<lambda>m. distinct (table_keys m)"
  by unfold_locales (simp_all add: update_conv' distinct_update)

interpretation btree: table_ops bt_insert "\<lambda>m. sorted_wrt (<) (table_keys m)"
  by unfold_locales
    (simp_all add: map_of_bt_insert sorted_bt_insert strict_sorted_distinct sorted_keys_filter)

section \<open>Iterator adaptors\<close>

text \<open>\<open>Iterator::min_by_key\<close>: the first of the elements with the least key.\<close>

fun min_by_key :: "('a \<Rightarrow> 'b::linorder) \<Rightarrow> 'a list \<Rightarrow> 'a option" where
  "min_by_key f [] = None"
| "min_by_key f (x # xs) = Some (foldl (\<lambda>best y. if f y < f best then y else best) x xs)"

text \<open>\<open>Iterator::find_map\<close>.\<close>

fun find_map :: "('a \<Rightarrow> 'b option) \<Rightarrow> 'a list \<Rightarrow> 'b option" where
  "find_map f [] = None"
| "find_map f (x # xs) = (case f x of None \<Rightarrow> find_map f xs | Some y \<Rightarrow> Some y)"

text \<open>\<open>Iterator::max\<close> on a list of words.\<close>

definition max_of :: "'a::linorder list \<Rightarrow> 'a option" where
  "max_of xs = (case xs of [] \<Rightarrow> None | y # ys \<Rightarrow> Some (foldl max y ys))"

lemma foldl_min_key:
  "foldl (\<lambda>best y. if f y < f best then y else best) x xs \<in> insert x (set xs) \<and>
   (\<forall>z \<in> insert x (set xs). f (foldl (\<lambda>best y. if f y < f best then y else best) x xs) \<le> f z)"
  for f :: "'a \<Rightarrow> 'b::linorder"
proof (induction xs arbitrary: x)
  case Nil
  then show ?case by simp
next
  case (Cons y ys)
  show ?case
  proof (cases "f y < f x")
    case True
    then show ?thesis using Cons.IH [of y] by fastforce
  next
    case False
    then show ?thesis using Cons.IH [of x] by fastforce
  qed
qed

lemma min_by_key_SomeD:
  assumes "min_by_key f xs = Some x"
  shows "x \<in> set xs" and "\<And>y. y \<in> set xs \<Longrightarrow> f x \<le> f y"
  using assms foldl_min_key [where f = f] by (cases xs; fastforce)+

lemma min_by_key_None [simp]: "min_by_key f xs = None \<longleftrightarrow> xs = []"
  by (cases xs) auto

lemma find_map_SomeD: "find_map f xs = Some y \<Longrightarrow> \<exists>x \<in> set xs. f x = Some y"
  by (induction xs) (auto split: option.splits)

lemma find_map_None_iff: "find_map f xs = None \<longleftrightarrow> (\<forall>x \<in> set xs. f x = None)"
  by (induction xs) (auto split: option.splits)

end
