(* ===== verification/Babel_Model.thy ===== *)
theory Babel_Model
  imports Babel_Prelude
begin

text \<open>
  The protocol vocabulary of \<open>crates/babel-protocol/src/model.rs\<close>: addresses, prefixes,
  router identities, route keys, sequence-number arithmetic and the feasibility order.

  Addresses of the standard library are words: an \<open>Ipv4Addr\<close> has 32 bits and an
  \<open>Ipv6Addr\<close> 128, and \<open>octets()\<close> is \<^const>\<open>to_be_bytes\<close>. The prefix type \<open>IpNet\<close> comes
  from the \<open>ipnet\<close> package: the model keeps the address and length that its values
  hold, and takes the functions of the package that the code calls as a parameter
  (\<open>ipnet\<close>), whose documented behaviour is the locale \<open>ipnet_package\<close>.
\<close>

section \<open>Addresses\<close>

type_synonym ipv4 = u32
type_synonym ipv6 = "128 word"

datatype ip_addr = V4 ipv4 | V6 ipv6

definition is_ipv4 :: "ip_addr \<Rightarrow> bool" where
  "is_ipv4 a = (case a of V4 _ \<Rightarrow> True | V6 _ \<Rightarrow> False)"

abbreviation is_ipv6 :: "ip_addr \<Rightarrow> bool" where
  "is_ipv6 a \<equiv> \<not> is_ipv4 a"

lemma is_ipv4_simps [simp]: "is_ipv4 (V4 a)" "\<not> is_ipv4 (V6 b)"
  by (simp_all add: is_ipv4_def)

text \<open>The derived order of \<open>IpAddr\<close>: IPv4 before IPv6, then the octets.\<close>

definition ip_addr_rank :: "ip_addr \<Rightarrow> bool \<times> ipv6" where
  "ip_addr_rank a = (case a of V4 x \<Rightarrow> (False, ucast x) | V6 x \<Rightarrow> (True, x))"

lemma ucast_32_128_inj: "(ucast (x :: ipv4) :: ipv6) = ucast y \<longleftrightarrow> x = y"
proof
  have narrow: "ucast (ucast z :: ipv6) = z" for z :: ipv4
    by (rule bit_word_eqI) (simp add: bit_simps)
  assume "(ucast x :: ipv6) = ucast y"
  then show "x = y" by (metis narrow)
qed simp

lemma ip_addr_rank_inj: "ip_addr_rank a = ip_addr_rank b \<Longrightarrow> a = b"
  by (auto simp: ip_addr_rank_def ucast_32_128_inj split: ip_addr.splits)

instantiation ip_addr :: linorder
begin

definition less_eq_ip_addr :: "ip_addr \<Rightarrow> ip_addr \<Rightarrow> bool" where
  "less_eq_ip_addr a b = (ip_addr_rank a \<le> ip_addr_rank b)"

definition less_ip_addr :: "ip_addr \<Rightarrow> ip_addr \<Rightarrow> bool" where
  "less_ip_addr a b = (ip_addr_rank a < ip_addr_rank b)"

instance
  by standard (auto simp: less_eq_ip_addr_def less_ip_addr_def intro: ip_addr_rank_inj)

end

text \<open>
  The address predicates of the standard library: \<open>Ipv4Addr::is_unspecified\<close>,
  \<open>is_loopback\<close> (127.0.0.0/8), \<open>is_multicast\<close> (224.0.0.0/4), \<open>is_broadcast\<close>, and
  \<open>Ipv6Addr::is_unicast_link_local\<close> (fe80::/10) and \<open>is_multicast\<close> (ff00::/8).
\<close>

definition octet :: "'a::len word \<Rightarrow> nat \<Rightarrow> u8" where
  "octet a i = to_be_bytes a ! i"

definition v4_is_unspecified :: "ipv4 \<Rightarrow> bool" where
  "v4_is_unspecified a = (a = 0)"

definition v4_is_loopback :: "ipv4 \<Rightarrow> bool" where
  "v4_is_loopback a = (octet a 0 = 127)"

definition v4_is_multicast :: "ipv4 \<Rightarrow> bool" where
  "v4_is_multicast a = (224 \<le> octet a 0 \<and> octet a 0 \<le> 239)"

definition v4_is_broadcast :: "ipv4 \<Rightarrow> bool" where
  "v4_is_broadcast a = (a = 0xffffffff)"

definition v6_is_unicast_link_local :: "ipv6 \<Rightarrow> bool" where
  "v6_is_unicast_link_local a = (octet a 0 = 0xfe \<and> octet a 1 AND 0xc0 = 0x80)"

definition v6_is_multicast :: "ipv6 \<Rightarrow> bool" where
  "v6_is_multicast a = (octet a 0 = 0xff)"

definition addr_is_multicast :: "ip_addr \<Rightarrow> bool" where
  "addr_is_multicast a = (case a of V4 x \<Rightarrow> v4_is_multicast x | V6 x \<Rightarrow> v6_is_multicast x)"

section \<open>Prefixes\<close>

datatype ip_net = V4Net ipv4 u8 | V6Net ipv6 u8

definition net_addr :: "ip_net \<Rightarrow> ip_addr" where
  "net_addr n = (case n of V4Net a _ \<Rightarrow> V4 a | V6Net a _ \<Rightarrow> V6 a)"

definition prefix_len :: "ip_net \<Rightarrow> u8" where
  "prefix_len n = (case n of V4Net _ p \<Rightarrow> p | V6Net _ p \<Rightarrow> p)"

lemma net_simps [simp]:
  "net_addr (V4Net a p) = V4 a" "net_addr (V6Net b p) = V6 b"
  "prefix_len (V4Net a p) = p" "prefix_len (V6Net b p) = p"
  by (simp_all add: net_addr_def prefix_len_def)

text \<open>A prefix length that the constructors of \<open>ipnet\<close> accept.\<close>

definition net_wf :: "ip_net \<Rightarrow> bool" where
  "net_wf n = (case n of V4Net _ p \<Rightarrow> p \<le> 32 | V6Net _ p \<Rightarrow> p \<le> 128)"

lemma ip_net_eqI: "net_addr m = net_addr n \<Longrightarrow> prefix_len m = prefix_len n \<Longrightarrow> m = n"
  by (cases m; cases n) auto

instantiation ip_net :: linorder
begin

definition less_eq_ip_net :: "ip_net \<Rightarrow> ip_net \<Rightarrow> bool" where
  "less_eq_ip_net m n = ((net_addr m, prefix_len m) \<le> (net_addr n, prefix_len n))"

definition less_ip_net :: "ip_net \<Rightarrow> ip_net \<Rightarrow> bool" where
  "less_ip_net m n = ((net_addr m, prefix_len m) < (net_addr n, prefix_len n))"

instance
  by standard (auto simp: less_eq_ip_net_def less_ip_net_def intro: ip_net_eqI)

end

text \<open>The functions of the \<open>ipnet\<close> package the program calls.\<close>

record ipnet =
  v4_new :: "ipv4 \<Rightarrow> u8 \<Rightarrow> ip_net option"
  v6_new :: "ipv6 \<Rightarrow> u8 \<Rightarrow> ip_net option"
  trunc :: "ip_net \<Rightarrow> ip_net"
  network :: "ip_net \<Rightarrow> ip_addr"

text \<open>
  Their documented behaviour: \<open>new\<close> fails exactly on a prefix longer than the address,
  \<open>trunc\<close> clears the host bits and keeps the length, \<open>network\<close> is the truncated address.
\<close>

locale ipnet_package =
  fixes N :: ipnet
  assumes v4_new: "v4_new N a p = (if p \<le> 32 then Some (V4Net a p) else None)"
    and v6_new: "v6_new N b p = (if p \<le> 128 then Some (V6Net b p) else None)"
    and trunc_v4: "trunc N (V4Net a p) = V4Net (a AND NOT (mask (32 - unat p))) p"
    and trunc_v6: "trunc N (V6Net b p) = V6Net (b AND NOT (mask (128 - unat p))) p"
    and network: "network N n = net_addr (trunc N n)"
begin

lemma trunc_idem: "trunc N (trunc N n) = trunc N n"
  by (cases n) (simp_all add: trunc_v4 trunc_v6 and.assoc)

lemma trunc_prefix_len: "prefix_len (trunc N n) = prefix_len n"
  by (cases n) (simp_all add: trunc_v4 trunc_v6)

lemma trunc_family: "is_ipv4 (net_addr (trunc N n)) = is_ipv4 (net_addr n)"
  by (cases n) (simp_all add: trunc_v4 trunc_v6)

end

text \<open>An executable instance, for concrete inputs.\<close>

definition ipnet_ref :: ipnet where
  "ipnet_ref = \<lparr>
     v4_new = \<lambda>a p. if p \<le> 32 then Some (V4Net a p) else None,
     v6_new = \<lambda>b p. if p \<le> 128 then Some (V6Net b p) else None,
     trunc = \<lambda>n. case n of
         V4Net a p \<Rightarrow> V4Net (a AND NOT (mask (32 - unat p))) p
       | V6Net b p \<Rightarrow> V6Net (b AND NOT (mask (128 - unat p))) p,
     network = \<lambda>n. case n of
         V4Net a p \<Rightarrow> V4 (a AND NOT (mask (32 - unat p)))
       | V6Net b p \<Rightarrow> V6 (b AND NOT (mask (128 - unat p)))\<rparr>"

interpretation reference: ipnet_package ipnet_ref
  by unfold_locales (simp_all add: ipnet_ref_def split: ip_net.splits)

section \<open>Router identities and route keys\<close>

abbreviation (input) INFINITY :: u16 where
  "INFINITY \<equiv> 0xffff"

datatype router_id = RouterId (octets: u64)

definition router_id_new :: "u64 \<Rightarrow> router_id option" where
  "router_id_new value =
     (if value = 0 \<or> value = 0xffffffffffffffff then None else Some (RouterId value))"

instantiation router_id :: linorder
begin

definition less_eq_router_id :: "router_id \<Rightarrow> router_id \<Rightarrow> bool" where
  "less_eq_router_id a b = (octets a \<le> octets b)"

definition less_router_id :: "router_id \<Rightarrow> router_id \<Rightarrow> bool" where
  "less_router_id a b = (octets a < octets b)"

instance
  by standard (auto simp: less_eq_router_id_def less_router_id_def intro: router_id.expand)

end

datatype route_key = RouteKey (destination: ip_net) (source: "ip_net option")

definition route_key_new :: "ipnet \<Rightarrow> ip_net \<Rightarrow> ip_net option \<Rightarrow> route_key option" where
  "route_key_new N dst src =
     (if (case src of None \<Rightarrow> False
          | Some value \<Rightarrow> is_ipv4 (net_addr value) \<noteq> is_ipv4 (net_addr dst))
      then None
      else let src' = (case src of None \<Rightarrow> None
                       | Some value \<Rightarrow> if prefix_len value \<noteq> 0 then Some value else None)
           in Some (RouteKey (trunc N dst) (map_option (trunc N) src')))"

instantiation route_key :: linorder
begin

definition less_eq_route_key :: "route_key \<Rightarrow> route_key \<Rightarrow> bool" where
  "less_eq_route_key a b = ((destination a, source a) \<le> (destination b, source b))"

definition less_route_key :: "route_key \<Rightarrow> route_key \<Rightarrow> bool" where
  "less_route_key a b = ((destination a, source a) < (destination b, source b))"

instance
  by standard (auto simp: less_eq_route_key_def less_route_key_def intro: route_key.expand)

end

section \<open>Sequence numbers and feasibility\<close>

record distance =
  d_seqno :: u16
  d_metric :: u16

definition seqno_gt :: "u16 \<Rightarrow> u16 \<Rightarrow> bool" where
  "seqno_gt a b = (let delta = a - b in delta \<noteq> 0 \<and> delta < 0x8000)"

definition feasible_against :: "distance \<Rightarrow> distance \<Rightarrow> bool" where
  "feasible_against self feasible =
     (seqno_gt (d_seqno self) (d_seqno feasible)
      \<or> d_seqno self = d_seqno feasible \<and> d_metric self < d_metric feasible)"

record selected_route =
  sel_key :: route_key
  sel_router_id :: router_id
  sel_seqno :: u16
  sel_metric :: u16
  sel_next_hop :: ip_addr
  sel_interface :: string

section \<open>Properties\<close>

lemma seqno_gt_nat: "seqno_gt a b \<longleftrightarrow> 0 < unat (a - b) \<and> unat (a - b) < 0x8000"
  by (simp add: seqno_gt_def Let_def word_less_nat_alt unat_gt_0)

lemma unat_sub_swap:
  fixes a b :: u16
  assumes "a \<noteq> b"
  shows "unat (b - a) = 0x10000 - unat (a - b)"
proof -
  have "unat a \<noteq> unat b" using assms by (simp add: word_unat_eq_iff)
  then show ?thesis
    using unat_less_exp [of a] unat_less_exp [of b] by (auto simp: unat_sub_if')
qed

lemma seqno_gt_irrefl [simp]: "\<not> seqno_gt a a"
  by (simp add: seqno_gt_def)

lemma seqno_gt_asym: "seqno_gt a b \<Longrightarrow> \<not> seqno_gt b a"
  by (cases "a = b") (auto simp: seqno_gt_nat unat_sub_swap [of a b])

lemma half_apart: "a = b + 0x8000 \<longleftrightarrow> unat (a - b) = 0x8000" for a b :: u16
proof
  assume "unat (a - b) = 0x8000"
  then have "a - b = 0x8000" by (simp add: word_unat_eq_iff)
  then show "a = b + 0x8000" by (metis add.commute diff_add_cancel)
qed simp

text \<open>
  C30. Sequence numbers modulo \<open>2 ^ 16\<close>: any two numbers are equal, ordered one way,
  ordered the other way, or exactly half the space apart, and these cases exclude each
  other. In particular the comparison survives wrap-around and leaves only the pair half
  the space apart incomparable, as the comment on \<open>seqno_gt\<close> says.
\<close>

theorem seqno_gt_cases:
  "length (filter id [a = b, seqno_gt a b, seqno_gt b a, a = b + 0x8000]) = 1"
proof (cases "a = b")
  case True
  then show ?thesis by simp
next
  case False
  have "0 < unat (a - b)" using False by (simp add: unat_gt_0)
  moreover have "unat (a - b) < 0x10000" using unat_less_exp [of "a - b"] by simp
  ultimately show ?thesis
    using False by (auto simp: half_apart seqno_gt_nat unat_sub_swap [OF False] simp del: unat_sub_if')
qed

lemma feasible_against_irrefl [simp]: "\<not> feasible_against d d"
  by (simp add: feasible_against_def)

lemma feasible_against_asym: "feasible_against d e \<Longrightarrow> \<not> feasible_against e d"
  by (auto simp: feasible_against_def dest: seqno_gt_asym)

end
