(* ===== verification/Babel_Hello.thy ===== *)
theory Babel_Hello
  imports Babel_Model
begin

text \<open>
  \<open>crates/babel-protocol/src/metric.rs\<close>, \<open>HelloHistory\<close>: the sixteen-slot window of received
  and missed Hellos that every link metric reads.

  The code packs the window in a \<open>u16\<close> shift register. The specification is a list of at most
  sixteen booleans, newest first (\<open>slots\<close>), and the lemmas show that each operation on the
  register is the obvious operation on that list, as long as the shift amount stays below the
  width of the register. The one amount at which it does not is the subject of the last theorem.
\<close>

section \<open>Hello histories\<close>

record hello_history =
  hh_bits :: u16
  hh_samples :: u8
  expected_seqno :: "u16 option"

record hello_histories =
  multicast_history :: hello_history
  unicast_history :: hello_history

datatype hello_history_update = Recorded | Restarted

definition hello_history_default :: hello_history where
  "hello_history_default = \<lparr>hh_bits = 0, hh_samples = 0, expected_seqno = None\<rparr>"

definition hello_histories_default :: hello_histories where
  "hello_histories_default =
     \<lparr>multicast_history = hello_history_default, unicast_history = hello_history_default\<rparr>"

definition append_missed :: "u8 \<Rightarrow> hello_history \<Rightarrow> hello_history" where
  "append_missed n h =
     (if n \<ge> 16 then h\<lparr>hh_bits := 0, hh_samples := 16\<rparr>
      else h\<lparr>hh_bits := push_bit (unat n) (hh_bits h),
             hh_samples := min (sat_add (hh_samples h) n) 16\<rparr>)"

text \<open>
  Rust's \<open>>>\<close> on a \<open>u16\<close>. A shift by 16 or more is an arithmetic overflow: a build with
  overflow checks panics, a release build masks the amount to the width. \<open>shr_u16\<close> is
  the release build; \<open>shift_overflows\<close> is the condition under which the other one panics.
\<close>

definition shr_u16 :: "u16 \<Rightarrow> u16 \<Rightarrow> u16" where
  "shr_u16 x amount = drop_bit (unat (amount AND 15)) x"

definition shift_overflows :: "u16 \<Rightarrow> bool" where
  "shift_overflows amount = (16 \<le> amount)"

definition record_first :: "u16 \<Rightarrow> hello_history \<Rightarrow> hello_history" where
  "record_first seqno h = h\<lparr>hh_bits := 1, hh_samples := 1, expected_seqno := Some (seqno + 1)\<rparr>"

definition record_hello :: "u16 \<Rightarrow> hello_history \<Rightarrow> hello_history \<times> hello_history_update" where
  "record_hello seqno h =
     (case expected_seqno h of
        None \<Rightarrow> (record_first seqno h, Recorded)
      | Some expected \<Rightarrow>
          (let forward = seqno - expected;
               backward = expected - seqno
           in if 16 < forward \<and> 16 < backward
              then (record_first seqno
                      (h\<lparr>hh_bits := 0, hh_samples := 0, expected_seqno := None\<rparr>), Restarted)
              else
                let h1 = (if forward \<le> 16 then append_missed (ucast forward) h
                          else h\<lparr>hh_bits := shr_u16 (hh_bits h) backward,
                                 hh_samples := sat_sub (hh_samples h) (ucast backward)\<rparr>)
                in (h1\<lparr>hh_bits := push_bit 1 (hh_bits h1) OR 1,
                       hh_samples := min (sat_add (hh_samples h1) 1) 16,
                       expected_seqno := Some (seqno + 1)\<rparr>, Recorded)))"

text \<open>The same function in a build with overflow checks: \<open>None\<close> is a panic.\<close>

definition record_hello_checked ::
    "u16 \<Rightarrow> hello_history \<Rightarrow> (hello_history \<times> hello_history_update) option" where
  "record_hello_checked seqno h =
     (case expected_seqno h of
        None \<Rightarrow> Some (record_hello seqno h)
      | Some expected \<Rightarrow>
          if \<not> seqno - expected \<le> 16 \<and> expected - seqno \<le> 16 \<and> shift_overflows (expected - seqno)
          then None else Some (record_hello seqno h))"

definition missed_many :: "u64 \<Rightarrow> hello_history \<Rightarrow> hello_history" where
  "missed_many n h =
     (if expected_seqno h \<noteq> None
      then (append_missed (ucast (min n 16)) h)
             \<lparr>expected_seqno := map_option (\<lambda>value. value + ucast n) (expected_seqno h)\<rparr>
      else h)"

definition missed :: "hello_history \<Rightarrow> hello_history" where
  "missed h = missed_many 1 h"

definition hello_is_empty :: "hello_history \<Rightarrow> bool" where
  "hello_is_empty h = (hh_bits h = 0)"

definition count_ones :: "u16 \<Rightarrow> u8" where
  "count_ones w = of_nat (length (filter (bit w) [0..<16]))"

definition received_count :: "u8 \<Rightarrow> hello_history \<Rightarrow> u8" where
  "received_count window h =
     (let m = (if window = 16 then 0xffff else push_bit (unat window) 1 - 1)
      in count_ones (hh_bits h AND m))"

text \<open>
  \<open>received\<close> panics unless the window is in \<open>1..=16\<close>: \<open>None\<close> is the panic. The windows of
  the metrics below come from \<open>wired_metric_new\<close> and \<open>etx_metric_new\<close>, which only build
  windows in this range, so these metrics use the count directly.
\<close>

definition received :: "u8 \<Rightarrow> hello_history \<Rightarrow> u8 option" where
  "received window h =
     (if 1 \<le> window \<and> window \<le> 16 then Some (received_count window h) else None)"

definition observed :: "hello_history \<Rightarrow> u8" where
  "observed h = hh_samples h"

section \<open>Specification: a list of slots, newest first\<close>

definition hh_wf :: "hello_history \<Rightarrow> bool" where
  "hh_wf h \<longleftrightarrow> hh_samples h \<le> 16 \<and> take_bit (unat (hh_samples h)) (hh_bits h) = hh_bits h
     \<and> (expected_seqno h = None \<longrightarrow> hh_samples h = 0)"

definition slots :: "hello_history \<Rightarrow> bool list" where
  "slots h = map (bit (hh_bits h)) [0..<unat (hh_samples h)]"

fun slots_after :: "u16 option \<Rightarrow> u16 \<Rightarrow> bool list \<Rightarrow> bool list" where
  "slots_after None seqno xs = [True]"
| "slots_after (Some e) seqno xs =
     (if seqno - e \<le> 16 then take 16 (True # replicate (unat (seqno - e)) False @ xs)
      else if e - seqno \<le> 16 then True # drop (unat (e - seqno)) xs
      else [True])"

text \<open>The two halves of \<open>record_hello\<close>: forgetting the slots after a Hello that was counted as
  missed, and appending the new one.\<close>

definition push_received :: "u16 \<Rightarrow> hello_history \<Rightarrow> hello_history" where
  "push_received seqno h = h\<lparr>hh_bits := push_bit 1 (hh_bits h) OR 1,
     hh_samples := min (sat_add (hh_samples h) 1) 16, expected_seqno := Some (seqno + 1)\<rparr>"

definition rewind :: "u16 \<Rightarrow> hello_history \<Rightarrow> hello_history" where
  "rewind amount h = h\<lparr>hh_bits := shr_u16 (hh_bits h) amount,
                       hh_samples := sat_sub (hh_samples h) (ucast amount)\<rparr>"

definition sixteen_hellos :: hello_history where
  "sixteen_hellos = fold (\<lambda>s h. fst (record_hello s h)) [1,2,3,4,5,6,7,8,9,10,11,12,13,14,15,16] hello_history_default"

section \<open>The shift register implements the list\<close>

lemma length_slots [simp]: "length (slots h) = unat (hh_samples h)"
  by (simp add: slots_def)

lemma nth_slots: "i < unat (hh_samples h) \<Longrightarrow> slots h ! i = bit (hh_bits h) i"
  by (simp add: slots_def)

lemma hh_wf_bits:
  "hh_wf h \<longleftrightarrow> unat (hh_samples h) \<le> 16 \<and> (\<forall>i. bit (hh_bits h) i \<longrightarrow> i < unat (hh_samples h))
     \<and> (expected_seqno h = None \<longrightarrow> hh_samples h = 0)"
proof -
  have "take_bit n w = w \<longleftrightarrow> (\<forall>i. bit w i \<longrightarrow> i < n)" for n and w :: u16
    by (metis bit_take_bit_iff bit_word_eqI)
  then show ?thesis by (simp add: hh_wf_def word_le_nat_alt)
qed

lemma slots_eqI:
  assumes "length xs = unat (hh_samples h)"
    and "\<And>i. i < unat (hh_samples h) \<Longrightarrow> bit (hh_bits h) i = xs ! i"
  shows "slots h = xs"
  using assms by (auto intro!: nth_equalityI simp: nth_slots)

lemma unat_sat_min16: "unat (min (sat_add a b) 16 :: u8) = min (unat a + unat b) 16"
  by (simp add: unat_min unat_sat_add)

lemma slots_append_missed:
  assumes "hh_wf h"
  shows "slots (append_missed n h) = take 16 (replicate (unat n) False @ slots h)"
proof (cases "16 \<le> n")
  case True
  then have "16 \<le> unat n" by (simp add: word_le_nat_alt)
  with True show ?thesis
    by (auto intro!: slots_eqI simp: append_missed_def nth_append)
next
  case False
  then have n: "unat n < 16" by (simp add: word_le_nat_alt)
  with False assms show ?thesis
    by (intro slots_eqI)
      (auto simp: append_missed_def unat_sat_min16 hh_wf_bits nth_append bit_simps nth_slots)
qed

lemma hh_wf_append_missed:
  assumes "hh_wf h" "expected_seqno h \<noteq> None"
  shows "hh_wf (append_missed n h)"
  using assms by (auto simp: hh_wf_bits append_missed_def unat_sat_min16 bit_simps word_le_nat_alt)

lemma push_received:
  assumes "hh_wf h"
  shows "hh_wf (push_received seqno h)" and "slots (push_received seqno h) = take 16 (True # slots h)"
proof -
  have "hh_bits h * 2 = push_bit 1 (hh_bits h)" by simp
  then have b: "bit (hh_bits h * 2 OR 1) i \<longleftrightarrow> i = 0 \<or> (i < 16 \<and> 0 < i \<and> bit (hh_bits h) (i - 1))" for i
    by (auto simp only: bit_or_iff bit_push_bit_iff bit_1_iff possible_bit_def) (auto dest: bit_imp_le_length)
  show "hh_wf (push_received seqno h)"
    using assms by (auto simp: hh_wf_bits push_received_def unat_sat_min16 b)
  show "slots (push_received seqno h) = take 16 (True # slots h)"
    using assms by (intro slots_eqI)
      (auto simp: hh_wf_bits push_received_def unat_sat_min16 b nth_Cons nth_slots split: nat.splits)
qed

lemma rewind:
  assumes "hh_wf h" "amount < 16" "expected_seqno h \<noteq> None"
  shows "hh_wf (rewind amount h)" and "slots (rewind amount h) = drop (unat amount) (slots h)"
proof -
  have n: "unat amount < 16" using assms(2) by (simp add: word_less_nat_alt)
  have m: "amount AND 15 = amount"
  proof -
    have "amount AND mask 4 = amount" using assms(2) by (intro less_mask_eq) simp
    then show ?thesis by (simp add: mask_eq_exp_minus_1)
  qed
  have u: "unat (ucast amount :: u8) = unat amount" using n by (simp add: unat_ucast_small)
  show "hh_wf (rewind amount h)"
    using assms n by (auto simp: hh_wf_bits rewind_def shr_u16_def m bit_simps unat_sat_sub u)
  show "slots (rewind amount h) = drop (unat amount) (slots h)"
    using assms n by (intro slots_eqI)
      (auto simp: hh_wf_bits rewind_def shr_u16_def m bit_simps unat_sat_sub u nth_slots)
qed

lemma record_hello_eq:
  "record_hello seqno h =
     (case expected_seqno h of
        None \<Rightarrow> (record_first seqno h, Recorded)
      | Some e \<Rightarrow>
          if seqno - e \<le> 16 then (push_received seqno (append_missed (ucast (seqno - e)) h), Recorded)
          else if e - seqno \<le> 16 then (push_received seqno (rewind (e - seqno) h), Recorded)
          else (record_first seqno (h\<lparr>hh_bits := 0, hh_samples := 0, expected_seqno := None\<rparr>), Restarted))"
  by (auto simp: record_hello_def push_received_def rewind_def Let_def not_le split: option.splits)

lemma record_first: "hh_wf (record_first seqno h)" "slots (record_first seqno h) = [True]"
  by (auto simp: hh_wf_bits record_first_def slots_def bit_1_iff)

text \<open>
  C26. Recording a Hello refines the list of slots: the Hellos skipped since the expected one
  become missed slots in front of the old ones, a Hello at most fifteen behind the expected one
  takes back the slots recorded after it, a Hello further away restarts the history, and the
  received Hello is the newest slot. The register stays well formed: at most sixteen samples,
  and no bit set beyond them. The hypothesis excludes exactly the shift by sixteen.
\<close>

theorem record_hello_refines:
  assumes "hh_wf h" and "record_hello_checked seqno h = Some (h', u)"
  shows "hh_wf h' \<and> slots h' = slots_after (expected_seqno h) seqno (slots h)
     \<and> expected_seqno h' = Some (seqno + 1)"
proof (cases "expected_seqno h")
  case None
  then show ?thesis using assms record_first
    by (auto simp: record_hello_checked_def record_hello_eq) (simp add: record_first_def)
next
  case (Some e)
  have wf: "hh_wf h" by fact
  consider (fwd) "seqno - e \<le> 16" | (bwd) "\<not> seqno - e \<le> 16" "e - seqno < 16"
    | (restart) "\<not> seqno - e \<le> 16" "\<not> e - seqno \<le> 16"
    using assms(2) Some by (force simp: record_hello_checked_def shift_overflows_def split: if_splits)
  then show ?thesis
  proof cases
    case fwd
    let ?n = "ucast (seqno - e) :: u8"
    have k: "min 16 (unat (seqno - e)) = unat (seqno - e)" using fwd by (simp add: word_le_nat_alt)
    have u: "unat ?n = unat (seqno - e)"
      using fwd by (simp add: unat_ucast_small word_le_nat_alt)
    have "hh_wf (append_missed ?n h)" using wf Some by (simp add: hh_wf_append_missed)
    with assms(2) Some fwd show ?thesis
      by (auto simp: record_hello_checked_def record_hello_eq push_received slots_append_missed [OF wf] u k
          take_Cons' simp flip: push_received_def split: if_splits) (simp_all add: push_received_def)
  next
    case bwd
    have "e \<noteq> seqno" using bwd(1) by auto
    then have "1 \<le> unat (e - seqno)" by (simp add: Suc_le_eq unat_gt_0)
    moreover have "unat (hh_samples h) \<le> 16" using wf by (simp add: hh_wf_bits)
    ultimately have "unat (hh_samples h) - unat (e - seqno) \<le> 15" by linarith
    with bwd assms Some show ?thesis
      using rewind [OF wf bwd(2)] push_received [OF rewind(1) [OF wf bwd(2)]]
      by (auto simp: record_hello_checked_def record_hello_eq split: if_splits) (simp_all add: push_received_def)
  next
    case restart
    with assms Some show ?thesis using record_first
      by (auto simp: record_hello_checked_def record_hello_eq split: if_splits) (simp add: record_first_def)
  qed
qed

theorem record_hello_refines_witness:
  "hh_wf sixteen_hellos \<and> record_hello_checked 20 sixteen_hellos \<noteq> None
   \<and> slots (fst (the (record_hello_checked 20 sixteen_hellos))) =
      [True, False, False, False, True, True, True, True, True, True, True, True, True, True, True, True]"
proof -
  have w: "hh_wf sixteen_hellos" and n: "record_hello_checked 20 sixteen_hellos \<noteq> None"
    by code_simp+
  then obtain h' u where r: "record_hello_checked 20 sixteen_hellos = Some (h', u)" by auto
  have e: "slots_after (expected_seqno sixteen_hellos) 20 (slots sixteen_hellos) =
      [True, False, False, False, True, True, True, True, True, True, True, True, True, True, True, True]"
    by code_simp
  show ?thesis using w r record_hello_refines [OF w r] by (simp add: e)
qed

lemma missed_many_slots:
  assumes "hh_wf h"
  shows "hh_wf (missed_many n h)"
    and "slots (missed_many n h) =
      (if expected_seqno h = None then slots h else take 16 (replicate (unat (min n 16)) False @ slots h))"
proof -
  have u: "unat (ucast (min n 16) :: u8) = unat (min n 16)"
    by (simp add: unat_ucast_small unat_min)
  let ?h = "append_missed (ucast (min n 16)) h"
  have *: "hh_wf (missed_many n h) \<longleftrightarrow> hh_wf ?h" "slots (missed_many n h) = slots ?h"
    if "expected_seqno h \<noteq> None"
    using that by (auto simp: missed_many_def hh_wf_def slots_def append_missed_def)
  show "hh_wf (missed_many n h)"
    using assms * hh_wf_append_missed [OF assms] by (cases "expected_seqno h") (auto simp: missed_many_def)
  show "slots (missed_many n h) =
      (if expected_seqno h = None then slots h else take 16 (replicate (unat (min n 16)) False @ slots h))"
    using * slots_append_missed [OF assms, of "ucast (min n 16)"]
    by (cases "expected_seqno h") (auto simp: missed_many_def u)
qed

text \<open>
  C34. Counting \<open>n\<close> missed Hellos prepends \<open>n\<close> missed slots and keeps the newest sixteen,
  for every 64-bit \<open>n\<close>; a history that has recorded no Hello yet is not changed.
\<close>

theorem missed_many_refines:
  assumes "hh_wf h"
  shows "hh_wf (missed_many n h) \<and> slots (missed_many n h) =
    (if expected_seqno h = None then slots h else take 16 (replicate (unat (min n 16)) False @ slots h))"
  using missed_many_slots [OF assms] by simp

theorem missed_many_refines_witness:
  "hh_wf sixteen_hellos \<and> slots (missed_many 2 sixteen_hellos) =
     [False, False] @ replicate 14 True"
proof -
  have w: "hh_wf sixteen_hellos" by code_simp
  have e: "(if expected_seqno sixteen_hellos = None then slots sixteen_hellos
      else take 16 (replicate (unat (min (2 :: u64) 16)) False @ slots sixteen_hellos)) =
      [False, False] @ replicate 14 True"
    by code_simp
  show ?thesis using w missed_many_refines [OF w, of 2] e by simp
qed

lemma unat_count_ones: "unat (count_ones w) = length (filter (bit w) [0..<16])"
proof -
  have "length (filter (bit w) [0..<16]) \<le> 16"
    using length_filter_le [of "bit w" "[0..<16]"] by simp
  then have "unat (of_nat (length (filter (bit w) [0..<16])) :: u8) = length (filter (bit w) [0..<16])"
    by (simp add: unat_of_nat)
  then show ?thesis by (simp only: count_ones_def)
qed

lemma window_mask_bit:
  assumes "1 \<le> window" "window \<le> 16" "i < 16"
  shows "bit (if window = (16::u8) then 0xffff else push_bit (unat window) 1 - 1 :: u16) i \<longleftrightarrow> i < unat window"
proof (cases "window = 16")
  case True
  have m: "(0xffff :: u16) = - 1" by simp
  show ?thesis using True assms(3) by (simp only: m bit_minus_1_iff possible_bit_def) simp
next
  case False
  have "push_bit (unat window) 1 - 1 = (mask (unat window) :: u16)"
    by (simp add: mask_eq_exp_minus_1 push_bit_eq_mult)
  with False assms(3) show ?thesis by (simp add: bit_mask_iff)
qed

lemma filter_slots:
  assumes "hh_wf h"
  shows "length (filter (\<lambda>i. bit (hh_bits h) i \<and> i < n) [0..<16]) = length (filter id (take n (slots h)))"
proof -
  have s: "unat (hh_samples h) \<le> 16" and b: "\<And>i. bit (hh_bits h) i \<Longrightarrow> i < unat (hh_samples h)"
    using assms by (auto simp: hh_wf_bits)
  have "filter (\<lambda>i. bit (hh_bits h) i \<and> i < n) [0..<16] =
      filter (bit (hh_bits h)) (take n [0..<unat (hh_samples h)])"
  proof -
    have "[0..<16] = [0..<min n (unat (hh_samples h))] @ [min n (unat (hh_samples h))..<16]"
      using s by (metis le0 le_Suc_ex min.coboundedI2 upt_add_eq_append)
    moreover have "filter (\<lambda>i. bit (hh_bits h) i \<and> i < n) [min n (unat (hh_samples h))..<16] = []"
      using b by (force simp: filter_empty_conv)
    ultimately show ?thesis
      by (auto simp: take_upt min_def intro!: filter_cong dest: b)
  qed
  then show ?thesis by (simp add: slots_def take_map filter_map comp_def)
qed

lemma unat_received_count:
  assumes "1 \<le> window" "window \<le> 16"
  shows "unat (received_count window h) =
    length (filter (\<lambda>i. bit (hh_bits h) i \<and> i < unat window) [0..<16])"
  unfolding received_count_def Let_def unat_count_ones
  by (rule arg_cong [where f = length], rule filter_cong) (auto simp: bit_and_iff window_mask_bit [OF assms])

lemma received_count_le_window:
  assumes "1 \<le> window" "window \<le> 16"
  shows "received_count window h \<le> window"
proof -
  have "unat (received_count window h) = length (filter (bit (hh_bits h)) (filter (\<lambda>i. i < unat window) [0..<16]))"
    by (simp add: unat_received_count [OF assms] conj_commute)
  also have "\<dots> \<le> length (filter (\<lambda>i. i < unat window) [0..<16])" by (rule length_filter_le)
  also have "\<dots> = card (set (filter (\<lambda>i. i < unat window) [0..<16]))"
    by (rule distinct_card [symmetric]) simp
  also have "\<dots> \<le> card {..<unat window}" by (rule card_mono) auto
  finally show ?thesis by (simp add: word_le_nat_alt)
qed

text \<open>
  C33. The number of Hellos received within a window is the number of received slots among the
  newest \<open>window\<close> ones, and it never exceeds the number of Hellos observed.
\<close>

theorem received_slots:
  assumes "hh_wf h" and "received window h = Some n"
  shows "unat n = length (filter id (take (unat window) (slots h))) \<and> n \<le> observed h"
proof -
  have w: "1 \<le> window" "window \<le> 16" and n: "n = received_count window h"
    using assms(2) by (auto simp: received_def split: if_splits)
  have "unat n = length (filter (\<lambda>i. bit (hh_bits h) i \<and> i < unat window) [0..<16])"
    by (simp only: n unat_received_count [OF w])
  then have u: "unat n = length (filter id (take (unat window) (slots h)))"
    by (simp add: filter_slots [OF assms(1)])
  moreover have "unat n \<le> unat (hh_samples h)"
    using u length_filter_le [of id "take (unat window) (slots h)"] by simp
  ultimately show ?thesis by (simp add: observed_def word_le_nat_alt)
qed

theorem received_slots_witness:
  "hh_wf (missed_many 2 sixteen_hellos) \<and> received 6 (missed_many 2 sixteen_hellos) = Some 4
   \<and> (4 :: u8) \<le> observed (missed_many 2 sixteen_hellos)"
proof -
  have w: "hh_wf (missed_many 2 sixteen_hellos)" "received 6 (missed_many 2 sixteen_hellos) = Some 4"
    by code_simp+
  show ?thesis using w received_slots [OF w] by simp
qed


end
