(* ===== verification/Babel_Metric.thy ===== *)
theory Babel_Metric
  imports Babel_Hello
begin

text \<open>
  \<open>crates/babel-protocol/src/metric.rs\<close>: the additive metric algebra and the wired, ETX and RTT link metrics.

  A \<open>dyn NeighborMetric\<close> is a state of some type \<open>'m\<close> together with the methods of the
  trait (\<open>metric_ops\<close>); the engine is written against these methods only, so it covers
  metrics supplied by an embedding program. The locale \<open>link_metric\<close> states what the
  engine relies on, and it is interpreted on the metrics of this crate. Floating-point
  arithmetic, used by the RTT metric only, is a parameter (\<open>f64_ops\<close>).
\<close>

section \<open>Metric algebra\<close>

definition additive_extend :: "u16 \<Rightarrow> u16 \<Rightarrow> u16" where
  "additive_extend advertised_metric link_cost =
     (if advertised_metric = INFINITY \<or> link_cost = 0 \<or> link_cost = INFINITY then INFINITY
      else let result = (ucast advertised_metric + ucast link_cost :: u32)
           in if result \<ge> ucast INFINITY then INFINITY else ucast result)"

section \<open>The interface of a link metric\<close>

record metric_status =
  ms_algorithm :: string
  ms_receive_cost :: u16
  ms_transmit_cost :: u16
  ms_link_cost :: u16
  ms_last_rtt_us :: "u32 option"
  ms_smoothed_rtt_us :: "u32 option"
  ms_rtt_penalty :: u16

record 'm metric_ops =
  on_hello :: "hello_histories \<Rightarrow> 'm \<Rightarrow> 'm"
  on_ihu :: "u16 \<Rightarrow> 'm \<Rightarrow> 'm"
  on_rtt_sample :: "u32 \<Rightarrow> u64 \<Rightarrow> 'm \<Rightarrow> 'm"
  receive_cost :: "'m \<Rightarrow> u16"
  transmit_cost :: "'m \<Rightarrow> u16"
  link_cost :: "'m \<Rightarrow> u16"
  metric_status_of :: "'m \<Rightarrow> metric_status"

record 'm metric_profile =
  profile_name :: string
  new_neighbor :: "string \<Rightarrow> 'm"
  timestamps_enabled :: bool
  rtt_probe_interval_ms :: "u64 option"

section \<open>Wired links\<close>

record wired_metric =
  nominal_cost :: u16
  wired_received :: u8
  wired_window :: u8

definition wired_metric_new :: "u16 \<Rightarrow> u8 \<Rightarrow> u8 \<Rightarrow> wired_metric option" where
  "wired_metric_new cost rcv window =
     (if cost > 0 \<and> cost < INFINITY \<and> rcv > 0 \<and> rcv \<le> window \<and> window \<le> 16
      then Some \<lparr>nominal_cost = cost, wired_received = rcv, wired_window = window\<rparr>
      else None)"

definition wired_metric_default :: wired_metric where
  "wired_metric_default = the (wired_metric_new 96 2 3)"

record wired_neighbor =
  wn_config :: wired_metric
  wn_histories :: hello_histories
  wn_transmit_cost :: u16

definition wired_new_neighbor :: "wired_metric \<Rightarrow> string \<Rightarrow> wired_neighbor" where
  "wired_new_neighbor config interface =
     \<lparr>wn_config = config, wn_histories = hello_histories_default, wn_transmit_cost = INFINITY\<rparr>"

definition wired_reachable :: "wired_neighbor \<Rightarrow> bool" where
  "wired_reachable n =
     (let enough = (\<lambda>history. received_count (wired_window (wn_config n)) history
                              \<ge> wired_received (wn_config n))
      in enough (multicast_history (wn_histories n)) \<or> enough (unicast_history (wn_histories n)))"

definition wired_receive_cost :: "wired_neighbor \<Rightarrow> u16" where
  "wired_receive_cost n = (if wired_reachable n then nominal_cost (wn_config n) else INFINITY)"

definition wired_link_cost :: "wired_neighbor \<Rightarrow> u16" where
  "wired_link_cost n =
     (if wired_receive_cost n = INFINITY \<or> wn_transmit_cost n = 0 \<or> wn_transmit_cost n = INFINITY
      then INFINITY else wn_transmit_cost n)"

section \<open>ETX links\<close>

record etx_metric =
  etx_window :: u8

abbreviation (input) ETX_NOMINAL_COST :: u16 where
  "ETX_NOMINAL_COST \<equiv> 256"

definition etx_metric_new :: "u8 \<Rightarrow> etx_metric option" where
  "etx_metric_new window = (if window > 0 \<and> window \<le> 16 then Some \<lparr>etx_window = window\<rparr> else None)"

definition etx_metric_default :: etx_metric where
  "etx_metric_default = the (etx_metric_new 6)"

record etx_neighbor =
  en_config :: etx_metric
  en_histories :: hello_histories
  en_transmit_cost :: u16

definition etx_new_neighbor :: "etx_metric \<Rightarrow> string \<Rightarrow> etx_neighbor" where
  "etx_new_neighbor config interface =
     \<lparr>en_config = config, en_histories = hello_histories_default, en_transmit_cost = INFINITY\<rparr>"

definition computed_receive_cost :: "etx_neighbor \<Rightarrow> u16" where
  "computed_receive_cost n =
     (let rcv = (ucast (received_count (etx_window (en_config n))
                         (multicast_history (en_histories n))) :: u32)
      in if rcv = 0 then INFINITY
         else let numerator = ucast ETX_NOMINAL_COST * ucast (etx_window (en_config n))
              in ucast (min (div_ceil numerator rcv) (ucast INFINITY)))"

definition etx_link_cost :: "etx_neighbor \<Rightarrow> u16" where
  "etx_link_cost n =
     (let receive = computed_receive_cost n
      in if receive = INFINITY \<or> en_transmit_cost n = 0 \<or> en_transmit_cost n = INFINITY then INFINITY
         else let transmit = max (en_transmit_cost n) ETX_NOMINAL_COST;
                  product = (ucast transmit * ucast receive :: u32);
                  cost = div_ceil product (ucast ETX_NOMINAL_COST)
              in ucast (min cost (ucast INFINITY)))"

section \<open>RTT links\<close>

text \<open>The operations of \<open>f64\<close> that the RTT metric uses; \<open>round\<close> is followed by an \<open>as\<close> cast.\<close>

record 'f f64_ops =
  f64_of_u16 :: "u16 \<Rightarrow> 'f"
  f64_of_u32 :: "u32 \<Rightarrow> 'f"
  f64_of_u64 :: "u64 \<Rightarrow> 'f"
  f64_add :: "'f \<Rightarrow> 'f \<Rightarrow> 'f"
  f64_sub :: "'f \<Rightarrow> 'f \<Rightarrow> 'f"
  f64_mul :: "'f \<Rightarrow> 'f \<Rightarrow> 'f"
  f64_div :: "'f \<Rightarrow> 'f \<Rightarrow> 'f"
  f64_neg :: "'f \<Rightarrow> 'f"
  f64_powf :: "'f \<Rightarrow> 'f \<Rightarrow> 'f"
  f64_le :: "'f \<Rightarrow> 'f \<Rightarrow> bool"
  f64_lt :: "'f \<Rightarrow> 'f \<Rightarrow> bool"
  f64_is_finite :: "'f \<Rightarrow> bool"
  f64_round_u16 :: "'f \<Rightarrow> u16"
  f64_round_u32 :: "'f \<Rightarrow> u32"

record 'f rtt_state =
  rn_algorithm :: string
  rn_half_life_ms :: u64
  rn_sample_alpha :: "'f option"
  rn_min_rtt_us :: u32
  rn_max_rtt_us :: u32
  rn_max_penalty :: u16
  rn_last_rtt_us :: "u32 option"
  rn_smoothed_rtt_us :: "'f option"
  rn_last_rtt_sample_ms :: "u64 option"

text \<open>The neighbour metrics of the crate. An RTT neighbour wraps the state of its base metric.\<close>

datatype 'f neighbor_metric =
    WiredNeighbor wired_neighbor
  | EtxNeighbor etx_neighbor
  | RttNeighbor "'f rtt_state" "'f neighbor_metric"

record 'f rtt_metric =
  rm_base :: "'f neighbor_metric metric_profile"
  rm_probe_interval_ms :: u64
  rm_half_life_ms :: u64
  rm_sample_alpha :: "'f option"
  rm_min_rtt_us :: u32
  rm_max_rtt_us :: u32
  rm_max_penalty :: u16

definition rtt_metric_new ::
    "'f neighbor_metric metric_profile \<Rightarrow> u64 \<Rightarrow> u64 \<Rightarrow> u32 \<Rightarrow> u32 \<Rightarrow> u16 \<Rightarrow> 'f rtt_metric option" where
  "rtt_metric_new base probe_interval_ms half_life_ms min_rtt_us max_rtt_us max_penalty =
     (if probe_interval_ms \<ge> 100 \<and> half_life_ms > 0 \<and> min_rtt_us < max_rtt_us
         \<and> max_penalty < INFINITY
      then Some \<lparr>rm_base = base, rm_probe_interval_ms = probe_interval_ms,
                 rm_half_life_ms = half_life_ms, rm_sample_alpha = None,
                 rm_min_rtt_us = min_rtt_us, rm_max_rtt_us = max_rtt_us,
                 rm_max_penalty = max_penalty\<rparr>
      else None)"

definition with_sample_alpha :: "'f f64_ops \<Rightarrow> 'f \<Rightarrow> 'f rtt_metric \<Rightarrow> 'f rtt_metric option" where
  "with_sample_alpha F alpha m =
     (if \<not> f64_is_finite F alpha
         \<or> \<not> (f64_le F (f64_of_u32 F 0) alpha \<and> f64_lt F alpha (f64_of_u32 F 1))
      then None else Some (m\<lparr>rm_sample_alpha := Some alpha\<rparr>))"

definition rtt_name :: "'f rtt_metric \<Rightarrow> string" where
  "rtt_name m = ''rtt('' @ profile_name (rm_base m) @ '')''"

definition rtt_new_neighbor :: "'f rtt_metric \<Rightarrow> string \<Rightarrow> 'f neighbor_metric" where
  "rtt_new_neighbor m interface =
     RttNeighbor
       \<lparr>rn_algorithm = rtt_name m, rn_half_life_ms = rm_half_life_ms m,
        rn_sample_alpha = rm_sample_alpha m, rn_min_rtt_us = rm_min_rtt_us m,
        rn_max_rtt_us = rm_max_rtt_us m, rn_max_penalty = rm_max_penalty m,
        rn_last_rtt_us = None, rn_smoothed_rtt_us = None, rn_last_rtt_sample_ms = None\<rparr>
       (new_neighbor (rm_base m) interface)"

definition rtt_penalty :: "'f f64_ops \<Rightarrow> 'f rtt_state \<Rightarrow> u16" where
  "rtt_penalty F n =
     (case rn_smoothed_rtt_us n of
        None \<Rightarrow> 0
      | Some rtt \<Rightarrow>
          if f64_le F rtt (f64_of_u32 F (rn_min_rtt_us n)) then 0
          else if f64_le F (f64_of_u32 F (rn_max_rtt_us n)) rtt then rn_max_penalty n
          else let position =
                 f64_div F (f64_sub F rtt (f64_of_u32 F (rn_min_rtt_us n)))
                           (f64_of_u32 F (rn_max_rtt_us n - rn_min_rtt_us n))
               in f64_round_u16 F (f64_mul F position (f64_of_u16 F (rn_max_penalty n))))"

definition smooth_rtt :: "'f f64_ops \<Rightarrow> u32 \<Rightarrow> u64 \<Rightarrow> 'f rtt_state \<Rightarrow> 'f rtt_state" where
  "smooth_rtt F sample_us now_ms n =
     (let smoothed =
        (case (rn_smoothed_rtt_us n, rn_last_rtt_sample_ms n) of
           (Some old, Some previous_ms) \<Rightarrow>
             (let elapsed_ms = sat_sub now_ms previous_ms;
                  alpha = (case rn_sample_alpha n of
                     Some a \<Rightarrow> a
                   | None \<Rightarrow> f64_powf F (f64_of_u32 F 2)
                               (f64_div F (f64_neg F (f64_of_u64 F elapsed_ms))
                                          (f64_of_u64 F (rn_half_life_ms n))))
              in f64_add F (f64_mul F alpha old)
                   (f64_mul F (f64_sub F (f64_of_u32 F 1) alpha) (f64_of_u32 F sample_us)))
         | _ \<Rightarrow> f64_of_u32 F sample_us)
      in n\<lparr>rn_last_rtt_us := Some sample_us, rn_smoothed_rtt_us := Some smoothed,
           rn_last_rtt_sample_ms := Some now_ms\<rparr>)"

section \<open>Dispatch of the trait methods\<close>

primrec nm_on_hello :: "hello_histories \<Rightarrow> 'f neighbor_metric \<Rightarrow> 'f neighbor_metric" where
  "nm_on_hello hs (WiredNeighbor n) = WiredNeighbor (n\<lparr>wn_histories := hs\<rparr>)"
| "nm_on_hello hs (EtxNeighbor n) = EtxNeighbor (n\<lparr>en_histories := hs\<rparr>)"
| "nm_on_hello hs (RttNeighbor r base) = RttNeighbor r (nm_on_hello hs base)"

primrec nm_on_ihu :: "u16 \<Rightarrow> 'f neighbor_metric \<Rightarrow> 'f neighbor_metric" where
  "nm_on_ihu c (WiredNeighbor n) = WiredNeighbor (n\<lparr>wn_transmit_cost := c\<rparr>)"
| "nm_on_ihu c (EtxNeighbor n) = EtxNeighbor (n\<lparr>en_transmit_cost := c\<rparr>)"
| "nm_on_ihu c (RttNeighbor r base) = RttNeighbor r (nm_on_ihu c base)"

primrec nm_on_rtt_sample :: "'f f64_ops \<Rightarrow> u32 \<Rightarrow> u64 \<Rightarrow> 'f neighbor_metric \<Rightarrow> 'f neighbor_metric" where
  "nm_on_rtt_sample F us now (WiredNeighbor n) = WiredNeighbor n"
| "nm_on_rtt_sample F us now (EtxNeighbor n) = EtxNeighbor n"
| "nm_on_rtt_sample F us now (RttNeighbor r base) =
     RttNeighbor (smooth_rtt F us now r) (nm_on_rtt_sample F us now base)"

primrec nm_receive_cost :: "'f neighbor_metric \<Rightarrow> u16" where
  "nm_receive_cost (WiredNeighbor n) = wired_receive_cost n"
| "nm_receive_cost (EtxNeighbor n) = computed_receive_cost n"
| "nm_receive_cost (RttNeighbor r base) = nm_receive_cost base"

primrec nm_transmit_cost :: "'f neighbor_metric \<Rightarrow> u16" where
  "nm_transmit_cost (WiredNeighbor n) = wn_transmit_cost n"
| "nm_transmit_cost (EtxNeighbor n) = en_transmit_cost n"
| "nm_transmit_cost (RttNeighbor r base) = nm_transmit_cost base"

primrec nm_link_cost :: "'f f64_ops \<Rightarrow> 'f neighbor_metric \<Rightarrow> u16" where
  "nm_link_cost F (WiredNeighbor n) = wired_link_cost n"
| "nm_link_cost F (EtxNeighbor n) = etx_link_cost n"
| "nm_link_cost F (RttNeighbor r base) =
     (let c = nm_link_cost F base
      in if c = INFINITY then INFINITY
         else ucast (min (ucast c + ucast (rtt_penalty F r) :: u32) (ucast INFINITY)))"

primrec nm_status :: "'f f64_ops \<Rightarrow> 'f neighbor_metric \<Rightarrow> metric_status" where
  "nm_status F (WiredNeighbor n) =
     \<lparr>ms_algorithm = ''wired'', ms_receive_cost = wired_receive_cost n,
      ms_transmit_cost = wn_transmit_cost n, ms_link_cost = wired_link_cost n,
      ms_last_rtt_us = None, ms_smoothed_rtt_us = None, ms_rtt_penalty = 0\<rparr>"
| "nm_status F (EtxNeighbor n) =
     \<lparr>ms_algorithm = ''etx'', ms_receive_cost = computed_receive_cost n,
      ms_transmit_cost = en_transmit_cost n, ms_link_cost = etx_link_cost n,
      ms_last_rtt_us = None, ms_smoothed_rtt_us = None, ms_rtt_penalty = 0\<rparr>"
| "nm_status F (RttNeighbor r base) =
     \<lparr>ms_algorithm = rn_algorithm r, ms_receive_cost = nm_receive_cost base,
      ms_transmit_cost = nm_transmit_cost base,
      ms_link_cost = nm_link_cost F (RttNeighbor r base),
      ms_last_rtt_us = rn_last_rtt_us r,
      ms_smoothed_rtt_us = map_option (f64_round_u32 F) (rn_smoothed_rtt_us r),
      ms_rtt_penalty = rtt_penalty F r\<rparr>"

definition crate_metrics :: "'f f64_ops \<Rightarrow> 'f neighbor_metric metric_ops" where
  "crate_metrics F =
     \<lparr>on_hello = nm_on_hello, on_ihu = nm_on_ihu, on_rtt_sample = nm_on_rtt_sample F,
      receive_cost = nm_receive_cost, transmit_cost = nm_transmit_cost,
      link_cost = nm_link_cost F, metric_status_of = nm_status F\<rparr>"

definition wired_profile :: "wired_metric \<Rightarrow> 'f neighbor_metric metric_profile" where
  "wired_profile config =
     \<lparr>profile_name = ''wired'', new_neighbor = (\<lambda>i. WiredNeighbor (wired_new_neighbor config i)),
      timestamps_enabled = False, rtt_probe_interval_ms = None\<rparr>"

definition etx_profile :: "etx_metric \<Rightarrow> 'f neighbor_metric metric_profile" where
  "etx_profile config =
     \<lparr>profile_name = ''etx'', new_neighbor = (\<lambda>i. EtxNeighbor (etx_new_neighbor config i)),
      timestamps_enabled = False, rtt_probe_interval_ms = None\<rparr>"

definition rtt_profile :: "'f rtt_metric \<Rightarrow> 'f neighbor_metric metric_profile" where
  "rtt_profile m =
     \<lparr>profile_name = rtt_name m, new_neighbor = rtt_new_neighbor m,
      timestamps_enabled = True, rtt_probe_interval_ms = Some (rm_probe_interval_ms m)\<rparr>"

text \<open>An ETX neighbour that heard four of six Hellos and is heard at cost 384.\<close>

definition lossy_etx :: etx_neighbor where
  "lossy_etx =
     \<lparr>en_config = etx_metric_default,
      en_histories = hello_histories_default\<lparr>multicast_history := missed_many 2 sixteen_hellos\<rparr>,
      en_transmit_cost = 384\<rparr>"

section \<open>Bounds of the metrics\<close>

lemma unat_u32_of_u16 [simp]: "unat (ucast (x :: u16) :: u32) = unat x"
  using unat_less_exp [of x] by (intro unat_ucast_small) simp

lemma unat_u16_lt: "unat (x :: u16) < 65536"
  using unat_less_exp [of x] by simp

lemma not_infinity_unat: "(x :: u16) \<noteq> INFINITY \<longleftrightarrow> unat x < 65535"
  using unat_u16_lt [of x] by (auto simp: word_unat_eq_iff)

lemma unat_u16_min_u32: "unat (ucast (min (y :: u32) 65535) :: u16) = min (unat y) 65535"
  by (subst unat_ucast_small) (auto simp: unat_min)

lemma unat_additive_extend:
  "unat (additive_extend a c) =
     (if a = INFINITY \<or> c = 0 \<or> c = INFINITY then 65535 else min 65535 (unat a + unat c))"
proof -
  have s: "unat (ucast a + ucast c :: u32) = unat a + unat c"
    using unat_u16_lt [of a] unat_u16_lt [of c] by (simp add: unat_word_ariths)
  have "unat (if (ucast a + ucast c :: u32) \<ge> ucast INFINITY then INFINITY else ucast (ucast a + ucast c :: u32))
      = min 65535 (unat a + unat c)"
    by (auto simp: word_le_nat_alt s unat_ucast_small)
  then show ?thesis by (simp add: additive_extend_def Let_def)
qed

text \<open>
  C31. The additive algebra is strictly increasing and never wraps: a route extended over a link
  is unreachable or costs exactly the sum, which exceeds the advertised metric. A free link
  (cost zero) never extends a route.
\<close>

theorem additive_extend_increases:
  "additive_extend a c = INFINITY \<or>
     unat (additive_extend a c) = unat a + unat c \<and> a < additive_extend a c"
proof (cases "a = INFINITY \<or> c = 0 \<or> c = INFINITY")
  case True
  then show ?thesis by (simp add: additive_extend_def)
next
  case False
  then show ?thesis
    using unat_additive_extend [of a c]
    by (auto simp: word_less_nat_alt word_unat_eq_iff [of _ INFINITY] min_def unat_gt_0)
qed

lemma unat_etx_link_cost:
  assumes "computed_receive_cost n \<noteq> INFINITY" "en_transmit_cost n \<noteq> 0" "en_transmit_cost n \<noteq> INFINITY"
  shows "unat (etx_link_cost n) = min 65535
     (let p = max (unat (en_transmit_cost n)) 256 * unat (computed_receive_cost n)
      in p div 256 + (if p mod 256 = 0 then 0 else 1))"
proof -
  have p: "unat (ucast (max (en_transmit_cost n) 256) * ucast (computed_receive_cost n) :: u32) =
      max (unat (en_transmit_cost n)) 256 * unat (computed_receive_cost n)"
  proof -
    have "max (unat (en_transmit_cost n)) 256 * unat (computed_receive_cost n) \<le> 65535 * 65535"
      using unat_u16_lt [of "en_transmit_cost n"] unat_u16_lt [of "computed_receive_cost n"]
      by (intro mult_le_mono) auto
    then show ?thesis by (simp add: unat_word_ariths unat_max)
  qed
  have "etx_link_cost n = ucast (min (div_ceil (ucast (max (en_transmit_cost n) 256) *
      ucast (computed_receive_cost n)) 256) (65535 :: u32))"
    using assms by (simp add: etx_link_cost_def Let_def)
  then show ?thesis by (simp only: unat_u16_min_u32 unat_div_ceil p Let_def) (simp add: min.commute)
qed

lemma unat_computed_receive_cost:
  assumes "etx_metric_new w = Some (en_config n)"
  shows "computed_receive_cost n = INFINITY \<or>
    256 \<le> unat (computed_receive_cost n) \<and> unat (computed_receive_cost n) \<le> 4096"
proof -
  let ?w = "etx_window (en_config n)"
  let ?r = "received_count ?w (multicast_history (en_histories n))"
  have w: "1 \<le> ?w" "?w \<le> 16"
    using assms [symmetric]
    by (auto simp: etx_metric_new_def word_le_nat_alt word_less_nat_alt split: if_splits)
  show ?thesis
  proof (cases "?r = 0")
    case True
    then show ?thesis by (simp add: computed_receive_cost_def)
  next
    case False
    let ?R = "unat ?r" and ?W = "unat ?w"
    have r: "0 < ?R" "?R \<le> ?W" "?W \<le> 16"
      using False received_count_le_window [OF w, of "multicast_history (en_histories n)"] w
      by (auto simp: word_le_nat_alt unat_gt_0)
    have u: "unat (ucast x :: u32) = unat x" for x :: u8
      using unat_less_exp [of x] by (intro unat_ucast_small) simp
    have num: "unat (256 * ucast ?w :: u32) = 256 * ?W"
      using r by (simp add: unat_word_ariths u)
    have nz: "(ucast ?r :: u32) \<noteq> 0" using r by (metis u unat_0 less_irrefl)
    have "computed_receive_cost n = ucast (min (div_ceil (256 * ucast ?w) (ucast ?r)) (65535 :: u32))"
      using nz by (simp add: computed_receive_cost_def Let_def)
    then have c: "unat (computed_receive_cost n) =
        min (256 * ?W div ?R + (if 256 * ?W mod ?R = 0 then 0 else 1)) 65535"
      by (simp only: unat_u16_min_u32 unat_div_ceil num u)
    have lo: "256 \<le> 256 * ?W div ?R" using r by (simp add: less_eq_div_iff_mult_less_eq)
    have hi: "256 * ?W div ?R + (if 256 * ?W mod ?R = 0 then 0 else 1) \<le> 4096"
    proof (cases "?R = 1")
      case True
      then show ?thesis using r by simp
    next
      case False
      then have "2 \<le> ?R" using r by simp
      then have "256 * ?W div ?R \<le> 256 * ?W div 2" by (intro div_le_mono2) auto
      then show ?thesis using r by auto
    qed
    from c lo hi show ?thesis by simp
  qed
qed

text \<open>
  C32. On an ETX link with a window that \<open>EtxMetric::new\<close> accepts, a usable link costs at least
  the nominal 256, and at least each of its two directions: loss on either side raises the cost
  (RFC 8966, Appendix A.2.2). The intermediate products fit their 32 bits.
\<close>

theorem etx_cost_bounds:
  assumes "etx_metric_new w = Some (en_config n)" and "etx_link_cost n \<noteq> INFINITY"
  shows "256 \<le> computed_receive_cost n \<and> computed_receive_cost n \<le> etx_link_cost n
     \<and> en_transmit_cost n \<le> etx_link_cost n"
proof -
  let ?t = "unat (en_transmit_cost n)" and ?r = "unat (computed_receive_cost n)"
  have fin: "computed_receive_cost n \<noteq> INFINITY" "en_transmit_cost n \<noteq> 0" "en_transmit_cost n \<noteq> INFINITY"
    using assms(2) by (auto simp: etx_link_cost_def Let_def)
  have r: "256 \<le> ?r" "?r \<le> 4096" using unat_computed_receive_cost [OF assms(1)] fin by auto
  let ?p = "max ?t 256 * ?r"
  have "unat (etx_link_cost n) \<noteq> 65535" using assms(2) by (simp add: word_unat_eq_iff)
  then have "?p div 256 \<le> unat (etx_link_cost n)"
    using unat_etx_link_cost [OF fin] by (auto simp: Let_def min_def split: if_splits)
  moreover have "?r \<le> ?p div 256" "?t \<le> ?p div 256"
  proof -
    have "256 * ?r \<le> ?p" by (intro mult_le_mono) auto
    then show "?r \<le> ?p div 256" by (simp add: less_eq_div_iff_mult_less_eq)
    have "?t * 256 \<le> ?p" using r by (intro mult_le_mono) auto
    then show "?t \<le> ?p div 256" by (simp add: less_eq_div_iff_mult_less_eq)
  qed
  ultimately show ?thesis using r by (simp add: word_le_nat_alt)
qed

theorem etx_cost_bounds_witness:
  "256 \<le> computed_receive_cost lossy_etx \<and> computed_receive_cost lossy_etx \<le> etx_link_cost lossy_etx
   \<and> en_transmit_cost lossy_etx \<le> etx_link_cost lossy_etx \<and> etx_link_cost lossy_etx = 576"
proof -
  have "etx_metric_new 6 = Some (en_config lossy_etx)" and f: "etx_link_cost lossy_etx = 576"
    by code_simp+
  then show ?thesis using etx_cost_bounds [of 6 lossy_etx] by simp
qed

section \<open>The contract of a link metric\<close>

text \<open>
  What the engine relies on: a link is never free, a link not heard in either direction is
  unusable, and the transmit cost is what the last IHU said.
\<close>

locale link_metric =
  fixes M :: "'m metric_ops"
  assumes link_cost_nonzero: "link_cost M m \<noteq> 0"
    and link_cost_unheard: "receive_cost M m = INFINITY \<Longrightarrow> link_cost M m = INFINITY"
    and link_cost_ihu_infinite: "link_cost M (on_ihu M INFINITY m) = INFINITY"
    and transmit_cost_on_ihu: "transmit_cost M (on_ihu M c m) = c"
    and transmit_cost_on_hello: "transmit_cost M (on_hello M hs m) = transmit_cost M m"
begin

lemma usable_link_heard: "link_cost M m \<noteq> INFINITY \<Longrightarrow> receive_cost M m \<noteq> INFINITY"
  using link_cost_unheard by blast

end

lemma etx_link_cost_nonzero: "etx_link_cost n \<noteq> 0"
proof (cases "computed_receive_cost n = INFINITY \<or> en_transmit_cost n = 0 \<or> en_transmit_cost n = INFINITY")
  case True
  then show ?thesis by (auto simp: etx_link_cost_def Let_def)
next
  case False
  let ?p = "max (unat (en_transmit_cost n)) 256 * unat (computed_receive_cost n)"
  have "computed_receive_cost n \<noteq> 0"
  proof
    assume z: "computed_receive_cost n = 0"
    let ?w = "etx_window (en_config n)"
    let ?r = "received_count ?w (multicast_history (en_histories n))"
    have r: "(ucast ?r :: u32) \<noteq> 0" using z by (auto simp: computed_receive_cost_def Let_def)
    have u: "unat (ucast x :: u32) = unat x" for x :: u8
      using unat_less_exp [of x] by (intro unat_ucast_small) simp
    have "?w \<noteq> 0"
    proof
      assume w: "?w = 0"
      then have "?r = 0" by (simp add: received_count_def count_ones_def)
      with r show False by simp
    qed
    then have w: "0 < unat ?w" by (simp add: unat_gt_0)
    have num: "unat (256 * ucast ?w :: u32) = 256 * unat ?w"
      using unat_less_exp [of ?w] by (simp add: unat_word_ariths u)
    have "computed_receive_cost n = ucast (min (div_ceil (256 * ucast ?w) (ucast ?r)) (65535 :: u32))"
      using r by (simp add: computed_receive_cost_def Let_def)
    then have "min (256 * unat ?w div unat ?r + (if 256 * unat ?w mod unat ?r = 0 then 0 else 1)) 65535 = 0"
      using z by (metis unat_0 unat_u16_min_u32 unat_div_ceil num u)
    then have "256 * unat ?w div unat ?r = 0" "256 * unat ?w mod unat ?r = 0"
      by (auto simp: min_def split: if_splits)
    then have "256 * unat ?w = 0" by (metis div_mult_mod_eq add_0 mult_0)
    with w show False by simp
  qed
  then have "0 < unat (computed_receive_cost n)" by (simp add: unat_gt_0)
  then have "256 * 1 \<le> ?p" by (intro mult_le_mono) auto
  then have "1 \<le> ?p div 256" by simp
  then have "0 < unat (etx_link_cost n)"
    using unat_etx_link_cost [of n] False by (simp add: Let_def)
  then show ?thesis by auto
qed

lemma nm_link_cost_nonzero: "nm_link_cost F m \<noteq> 0"
proof (induction m)
  case (WiredNeighbor n)
  then show ?case by (simp add: wired_link_cost_def)
next
  case (EtxNeighbor n)
  then show ?case by (simp add: etx_link_cost_nonzero)
next
  case (RttNeighbor r base)
  let ?c = "nm_link_cost F base" and ?p = "rtt_penalty F r"
  have s: "unat (ucast ?c + ucast ?p :: u32) = unat ?c + unat ?p"
    using unat_u16_lt [of ?c] unat_u16_lt [of ?p] by (simp add: unat_word_ariths)
  have "0 < unat ?c" using RttNeighbor by (simp add: unat_gt_0)
  then have "0 < unat (ucast (min (ucast ?c + ucast ?p :: u32) 65535) :: u16)"
    by (simp only: unat_u16_min_u32 s)
  then show ?case by (auto simp: Let_def unat_gt_0)
qed

lemma nm_link_cost_unheard: "nm_receive_cost m = INFINITY \<Longrightarrow> nm_link_cost F m = INFINITY"
  by (induction m) (auto simp: wired_link_cost_def etx_link_cost_def Let_def)

lemma nm_link_cost_ihu_infinite: "nm_link_cost F (nm_on_ihu INFINITY m) = INFINITY"
  by (induction m) (auto simp: wired_link_cost_def etx_link_cost_def Let_def)

lemma nm_transmit_cost_on_ihu: "nm_transmit_cost (nm_on_ihu c m) = c"
  by (induction m) auto

lemma nm_transmit_cost_on_hello: "nm_transmit_cost (nm_on_hello hs m) = nm_transmit_cost m"
  by (induction m) auto

interpretation crate: link_metric "crate_metrics F" for F
  by unfold_locales
    (simp_all add: crate_metrics_def nm_link_cost_nonzero nm_link_cost_unheard
      nm_link_cost_ihu_infinite nm_transmit_cost_on_ihu nm_transmit_cost_on_hello)


end
