(* ===== verification/Babel_Wire.thy ===== *)
theory Babel_Wire
  imports Babel_Model
begin

text \<open>
  The wire vocabulary of \<open>crates/babel-protocol/src/wire.rs\<close> and the primitives of
  \<open>wire/prefix.rs\<close>: address encodings, TLVs and sub-TLVs, addresses and prefixes as octets.

  A \<open>Result<T, WireError>\<close> is \<open>wire_error + 'a\<close>; \<open>and_then\<close> is the \<open>?\<close> operator. Octet strings
  are lists of \<open>u8\<close>, and \<open>data[a..b]\<close> is \<open>slice a b data\<close>. Rust panics on a slice out of range;
  each such access of the source stands behind a length check that the model keeps.
\<close>

section \<open>Types of the wire format\<close>

type_synonym octets_list = "u8 list"

abbreviation (input) MAGIC :: u8 where "MAGIC \<equiv> 42"
abbreviation (input) VERSION :: u8 where "VERSION \<equiv> 2"

text \<open>\<open>u16::MAX as usize + 4\<close>.\<close>

abbreviation (input) MAX_PACKET_SIZE :: nat where "MAX_PACKET_SIZE \<equiv> 65539"

abbreviation (input) TLV_PAD1 :: u8 where "TLV_PAD1 \<equiv> 0"
abbreviation (input) TLV_PADN :: u8 where "TLV_PADN \<equiv> 1"
abbreviation (input) TLV_ACK_REQ :: u8 where "TLV_ACK_REQ \<equiv> 2"
abbreviation (input) TLV_ACK :: u8 where "TLV_ACK \<equiv> 3"
abbreviation (input) TLV_HELLO :: u8 where "TLV_HELLO \<equiv> 4"
abbreviation (input) TLV_IHU :: u8 where "TLV_IHU \<equiv> 5"
abbreviation (input) TLV_ROUTER_ID :: u8 where "TLV_ROUTER_ID \<equiv> 6"
abbreviation (input) TLV_NEXT_HOP :: u8 where "TLV_NEXT_HOP \<equiv> 7"
abbreviation (input) TLV_UPDATE :: u8 where "TLV_UPDATE \<equiv> 8"
abbreviation (input) TLV_ROUTE_REQUEST :: u8 where "TLV_ROUTE_REQUEST \<equiv> 9"
abbreviation (input) TLV_SEQNO_REQUEST :: u8 where "TLV_SEQNO_REQUEST \<equiv> 10"
abbreviation (input) SUBTLV_TIMESTAMP :: u8 where "SUBTLV_TIMESTAMP \<equiv> 3"
abbreviation (input) SUBTLV_SOURCE_PREFIX :: u8 where "SUBTLV_SOURCE_PREFIX \<equiv> 128"

datatype address_encoding = Wildcard | Ipv4 | Ipv6 | Ipv6LinkLocal | Ipv4ViaIpv6

definition ae_as_u8 :: "address_encoding \<Rightarrow> u8" where
  "ae_as_u8 ae =
     (case ae of Wildcard \<Rightarrow> 0 | Ipv4 \<Rightarrow> 1 | Ipv6 \<Rightarrow> 2 | Ipv6LinkLocal \<Rightarrow> 3 | Ipv4ViaIpv6 \<Rightarrow> 4)"

definition from_u8 :: "u8 \<Rightarrow> address_encoding option" where
  "from_u8 value =
     (if value = 0 then Some Wildcard
      else if value = 1 then Some Ipv4
      else if value = 2 then Some Ipv6
      else if value = 3 then Some Ipv6LinkLocal
      else if value = 4 then Some Ipv4ViaIpv6
      else None)"

definition address_len :: "address_encoding \<Rightarrow> nat option" where
  "address_len ae =
     (case ae of Wildcard \<Rightarrow> Some 0 | Ipv4 \<Rightarrow> Some 4 | Ipv4ViaIpv6 \<Rightarrow> Some 4
      | Ipv6 \<Rightarrow> Some 16 | Ipv6LinkLocal \<Rightarrow> Some 8)"

definition max_prefix_bits :: "address_encoding \<Rightarrow> u8 option" where
  "max_prefix_bits ae =
     (case ae of Wildcard \<Rightarrow> Some 0 | Ipv4 \<Rightarrow> Some 32 | Ipv4ViaIpv6 \<Rightarrow> Some 32
      | Ipv6 \<Rightarrow> Some 128 | Ipv6LinkLocal \<Rightarrow> Some 128)"

datatype sub_tlv =
    SubPad1
  | SubPadN octets_list
  | TimestampHello u32
  | TimestampIhu (ts_origin: u32) (ts_received: u32)
  | SourcePrefix ip_net
  | SubUnknown u8 octets_list

record resolved_update =
  ru_key :: "route_key option"
  ru_router_id :: "router_id option"
  ru_next_hop :: "ip_addr option"
  ru_interval_cs :: u16
  ru_seqno :: u16
  ru_metric :: u16
  ru_v4_via_v6 :: bool
  ru_sub_tlvs :: "sub_tlv list"

text \<open>Fields in the order of the source: \<open>Hello unicast seqno interval_cs sub_tlvs\<close>,
  \<open>Ihu address rxcost interval_cs sub_tlvs\<close>, \<open>SeqnoRequest key seqno hop_count router_id
  sub_tlvs\<close>.\<close>

datatype tlv =
    Pad1
  | PadN octets_list
  | AckRequest u16 u16
  | Ack u16
  | Hello bool u16 u16 "sub_tlv list"
  | Ihu "ip_addr option" u16 u16 "sub_tlv list"
  | RouterIdTlv router_id
  | NextHop ip_addr
  | Update resolved_update
  | RouteRequest "route_key option" "sub_tlv list"
  | SeqnoRequest route_key u16 u8 router_id "sub_tlv list"
  | Unknown u8 octets_list

record packet =
  tlvs :: "tlv list"

record outbound_update =
  ou_key :: "route_key option"
  ou_router_id :: "router_id option"
  ou_next_hop :: "ip_addr option"
  ou_interval_cs :: u16
  ou_seqno :: u16
  ou_metric :: u16
  ou_v4_via_v6 :: bool
  ou_sub_tlvs :: "sub_tlv list"

datatype outbound_tlv =
    OutPad1
  | OutPadN octets_list
  | OutAckRequest u16 u16
  | OutAck u16
  | OutHello bool u16 u16 "sub_tlv list"
  | OutIhu "ip_addr option" u16 u16 "sub_tlv list"
  | OutUpdate outbound_update
  | OutRouteRequest "route_key option" "sub_tlv list"
  | OutSeqnoRequest route_key u16 u8 router_id "sub_tlv list"
  | OutUnknown u8 octets_list

record outbound_packet =
  out_tlvs :: "outbound_tlv list"

datatype wire_error =
    ShortHeader
  | BadMagic
  | UnsupportedVersion u8
  | TruncatedBody
  | TruncatedTlv u8
  | InvalidTlv u8
  | BodyTooLarge
  | MissingRouterId
  | PacketBudgetTooSmall
  | PacketSplitRequired

type_synonym 'a wire_result = "wire_error + 'a"

section \<open>Addresses, prefixes and fields\<close>

definition slice :: "nat \<Rightarrow> nat \<Rightarrow> 'a list \<Rightarrow> 'a list" where
  "slice a b xs = take (b - a) (drop a xs)"

definition ok_or :: "'e \<Rightarrow> 'a option \<Rightarrow> 'e + 'a" where
  "ok_or e r = (case r of None \<Rightarrow> Inl e | Some x \<Rightarrow> Inr x)"

fun and_then :: "'e + 'a \<Rightarrow> ('a \<Rightarrow> 'e + 'b) \<Rightarrow> 'e + 'b" where
  "and_then (Inl e) f = Inl e"
| "and_then (Inr x) f = f x"

definition require_nonzero :: "u16 \<Rightarrow> u8 \<Rightarrow> unit wire_result" where
  "require_nonzero value type = (if value = 0 then Inl (InvalidTlv type) else Inr ())"

definition require_zeroes :: "octets_list \<Rightarrow> u8 \<Rightarrow> unit wire_result" where
  "require_zeroes value type =
     (if list_ex (\<lambda>byte. byte \<noteq> 0) value then Inl (InvalidTlv type) else Inr ())"

text \<open>The octets that \<open>put_tlv\<close> appends to its output.\<close>

definition put_tlv :: "u8 \<Rightarrow> octets_list \<Rightarrow> octets_list wire_result" where
  "put_tlv type value =
     (if length value > 255 then Inl BodyTooLarge
      else Inr ([type, of_nat (length value)] @ value))"

text \<open>
  \<open>copy_from_slice\<close> panics when the lengths differ; \<open>decode_address\<close> is only called on a slice
  of \<open>address_len\<close> octets, so the model returns \<open>None\<close> for other lengths.
\<close>

definition decode_address :: "address_encoding \<Rightarrow> octets_list \<Rightarrow> ip_addr option" where
  "decode_address ae data =
     (case ae of
        Ipv4 \<Rightarrow> if length data = 4 then Some (V4 (from_be_bytes data)) else None
      | Ipv6 \<Rightarrow> if length data = 16 then Some (V6 (from_be_bytes data)) else None
      | Ipv6LinkLocal \<Rightarrow>
          if length data = 8 then Some (V6 (from_be_bytes ([0xfe, 0x80, 0, 0, 0, 0, 0, 0] @ data)))
          else None
      | _ \<Rightarrow> None)"

definition encode_address :: "ip_addr \<Rightarrow> address_encoding \<times> octets_list" where
  "encode_address address =
     (case address of
        V4 value \<Rightarrow> (Ipv4, to_be_bytes value)
      | V6 value \<Rightarrow>
          if v6_is_unicast_link_local value then (Ipv6LinkLocal, drop 8 (to_be_bytes value))
          else (Ipv6, to_be_bytes value))"

definition encode_optional_address :: "ip_addr option \<Rightarrow> address_encoding \<times> octets_list" where
  "encode_optional_address address =
     (case address of None \<Rightarrow> (Wildcard, []) | Some a \<Rightarrow> encode_address a)"

definition prefix_encoded_len :: "address_encoding \<Rightarrow> u8 \<Rightarrow> nat option" where
  "prefix_encoded_len ae plen =
     (case max_prefix_bits ae of
        None \<Rightarrow> None
      | Some bits \<Rightarrow>
          if plen > bits then None
          else let octs = (unat plen + 7) div 8
               in case ae of
                    Ipv6LinkLocal \<Rightarrow> if plen \<ge> 64 then Some (octs - 8) else None
                  | Wildcard \<Rightarrow> if plen = 0 then Some 0 else None
                  | _ \<Rightarrow> Some octs)"

text \<open>The last octet of a prefix, with the bits beyond its length cleared.\<close>

definition mask_last :: "u8 \<Rightarrow> octets_list \<Rightarrow> octets_list" where
  "mask_last plen encoded =
     (if plen mod 8 \<noteq> 0 \<and> encoded \<noteq> []
      then butlast encoded @ [last encoded AND push_bit (unat (8 - plen mod 8)) 0xff]
      else encoded)"

text \<open>\<open>raw[..encoded.len()].copy_from_slice(encoded)\<close> on an array of \<open>n\<close> zeroes.\<close>

definition zero_extend :: "nat \<Rightarrow> octets_list \<Rightarrow> octets_list" where
  "zero_extend n encoded = encoded @ replicate (n - length encoded) 0"

definition decode_prefix ::
    "ipnet \<Rightarrow> address_encoding \<Rightarrow> u8 \<Rightarrow> nat \<Rightarrow> octets_list \<Rightarrow> octets_list option \<Rightarrow> ip_net option" where
  "decode_prefix N ae plen omitted suffix previous =
     (case prefix_encoded_len ae plen of
        None \<Rightarrow> None
      | Some encoded_len \<Rightarrow>
          if omitted > encoded_len \<or> length suffix < encoded_len - omitted then None
          else
            case (if omitted > 0
                  then (case previous of
                          None \<Rightarrow> None
                        | Some p \<Rightarrow> if omitted \<le> length p then Some (take omitted p) else None)
                  else Some []) of
              None \<Rightarrow> None
            | Some head \<Rightarrow>
                let encoded = mask_last plen (head @ take (encoded_len - omitted) suffix)
                in case ae of
                     Ipv4 \<Rightarrow> v4_new N (from_be_bytes (zero_extend 4 encoded)) plen
                   | Ipv4ViaIpv6 \<Rightarrow> v4_new N (from_be_bytes (zero_extend 4 encoded)) plen
                   | Ipv6 \<Rightarrow> v6_new N (from_be_bytes (zero_extend 16 encoded)) plen
                   | Ipv6LinkLocal \<Rightarrow>
                       v6_new N (from_be_bytes ([0xfe, 0x80, 0, 0, 0, 0, 0, 0] @ zero_extend 8 encoded)) plen
                   | Wildcard \<Rightarrow> None)"

text \<open>The octets of the address of a prefix, \<open>addr().octets()\<close>.\<close>

definition addr_octets :: "ip_net \<Rightarrow> octets_list" where
  "addr_octets prefix = (case prefix of V4Net a _ \<Rightarrow> to_be_bytes a | V6Net a _ \<Rightarrow> to_be_bytes a)"

definition prefix_wire_bytes :: "ip_net \<Rightarrow> address_encoding \<Rightarrow> octets_list" where
  "prefix_wire_bytes prefix ae =
     (let size = (case prefix_encoded_len ae (prefix_len prefix) of None \<Rightarrow> 0 | Some n \<Rightarrow> n)
      in case prefix of
           V4Net _ _ \<Rightarrow> take size (addr_octets prefix)
         | V6Net _ _ \<Rightarrow>
             if ae = Ipv6LinkLocal then slice 8 (8 + size) (addr_octets prefix)
             else take size (addr_octets prefix))"

definition ae_for_key :: "route_key \<Rightarrow> bool \<Rightarrow> address_encoding" where
  "ae_for_key key v4_via_v6 =
     (if is_ipv4 (net_addr (destination key))
      then if v4_via_v6 then Ipv4ViaIpv6 else Ipv4
      else Ipv6)"

text \<open>The eight octets as the word they spell, the form \<open>router_id_new\<close> takes.\<close>

definition router_id_from_prefix :: "ip_net \<Rightarrow> u64" where
  "router_id_from_prefix prefix =
     (let bytes = addr_octets prefix; n = min (length bytes) 8
      in from_be_bytes (replicate (8 - n) 0 @ drop (length bytes - n) bytes))"

definition be16 :: "octets_list \<Rightarrow> u16" where
  "be16 data = from_be_bytes (take 2 data)"

definition be32 :: "octets_list \<Rightarrow> u32" where
  "be32 data = from_be_bytes (take 4 data)"

section \<open>Shared lemmas\<close>

lemma and_then_Inr: "and_then r f = Inr y \<longleftrightarrow> (\<exists>x. r = Inr x \<and> f x = Inr y)"
  by (cases r) auto

lemma and_then_Inl: "and_then r f = Inl e \<longleftrightarrow> r = Inl e \<or> (\<exists>x. r = Inr x \<and> f x = Inl e)"
  by (cases r) auto

lemma ok_or_Inr [simp]: "ok_or e r = Inr x \<longleftrightarrow> r = Some x"
  by (auto simp: ok_or_def split: option.splits)

lemma ok_or_Some [simp]: "ok_or e (Some x) = Inr x"
  by (simp add: ok_or_def)

lemma put_tlv_Inr: "put_tlv type value = Inr out \<longleftrightarrow>
    length value \<le> 255 \<and> out = type # of_nat (length value) # value"
  by (auto simp: put_tlv_def)

lemma unat_length_octet: "n \<le> 255 \<Longrightarrow> unat (of_nat n :: u8) = n"
  by (simp add: unat_of_nat)

lemma be32_to_be_bytes: "be32 (to_be_bytes v @ rest) = v"
proof -
  have "take 4 (to_be_bytes v @ rest) = to_be_bytes v" by simp
  then show ?thesis by (simp add: be32_def)
qed

lemma u16_octets:
  "\<exists>h l. to_be_bytes (w :: u16) = [h, l] \<and> (\<forall>rest. be16 (h # l # rest) = w)"
proof -
  have "length (to_be_bytes w) = 2" by simp
  then obtain h l where hl: "to_be_bytes w = [h, l]"
    by (auto simp only: numeral_2_eq_2 length_Suc_conv length_0_conv)
  then have "from_be_bytes [h, l] = w" using from_to_be_bytes [of w] by simp
  with hl show ?thesis by (auto simp: be16_def)
qed

lemma from_u8_ae [simp]: "from_u8 (ae_as_u8 ae) = Some ae"
  by (cases ae) (simp_all add: from_u8_def ae_as_u8_def)

lemma address_len_wildcard [simp]: "address_len Wildcard = Some 0"
  by (simp add: address_len_def)

end
