(* ===== verification/Babel_State.thy ===== *)
theory Babel_State
  imports Babel_Metric Babel_Wire
begin

text \<open>
  The types of the protocol engine: the admission limits of \<open>limits.rs\<close>, the route policy of
  \<open>policy.rs\<close>, the events, actions and configuration of \<open>engine/api.rs\<close>, the validation of
  local input in \<open>validation.rs\<close>, and the state of \<open>engine.rs\<close>.

  The engine is generic in the type \<open>'m\<close> of the metric state of a neighbour. What the engine
  calls but does not contain is an environment (\<open>env\<close>): the methods of the metric, the \<open>ipnet\<close>
  package, and for every kind of \<open>HashMap\<close> the order in which it is iterated. An order is a
  function of the keys the map holds, so that it may change whenever the map does.
  A \<open>dyn RoutePolicy\<close> and a \<open>dyn MetricAlgebra\<close> are the functions of the trait.
\<close>

section \<open>Limits\<close>

record resource_limits =
  max_neighbors :: nat
  max_candidates :: nat
  max_candidates_per_neighbor :: nat

definition resource_limits_default :: resource_limits where
  "resource_limits_default =
     \<lparr>max_neighbors = 256, max_candidates = 16384, max_candidates_per_neighbor = 4096\<rparr>"

record resource_status =
  rs_limits :: resource_limits
  rs_candidates :: nat
  rs_sources :: nat
  rs_pending_requests :: nat
  rs_unreachable :: nat
  rejected_neighbors :: u64
  rejected_candidates_global :: u64
  rejected_candidates_per_neighbor :: u64

definition resource_status_default :: resource_status where
  "resource_status_default =
     \<lparr>rs_limits = resource_limits_default, rs_candidates = 0, rs_sources = 0,
      rs_pending_requests = 0, rs_unreachable = 0, rejected_neighbors = 0,
      rejected_candidates_global = 0, rejected_candidates_per_neighbor = 0\<rparr>"

section \<open>Route policy\<close>

record import_context =
  ic_key :: route_key
  ic_interface :: string
  ic_neighbor :: ip_addr
  ic_next_hop :: ip_addr
  ic_router_id :: router_id
  ic_seqno :: u16
  ic_advertised_metric :: u16

record export_context =
  ec_key :: route_key
  ec_interface :: string
  ec_router_id :: router_id
  ec_locally_originated :: bool

record route_policy =
  accept :: "import_context \<Rightarrow> bool"
  announce :: "export_context \<Rightarrow> bool"

definition allow_all_routes :: route_policy where
  "allow_all_routes = \<lparr>accept = (\<lambda>route. True), announce = (\<lambda>route. True)\<rparr>"

section \<open>Timing, configuration and policy of an interface\<close>

abbreviation (input) BABEL_MULTICAST_V6 :: ip_addr where
  "BABEL_MULTICAST_V6 \<equiv> V6 0xff020000000000000000000000010006"

abbreviation (input) SOURCE_GC_TIME_MS :: u64 where "SOURCE_GC_TIME_MS \<equiv> 180000"
abbreviation (input) MAX_RTT_PROBES_PER_TICK :: nat where "MAX_RTT_PROBES_PER_TICK \<equiv> 32"
abbreviation (input) REQUEST_RETRY_INITIAL_MS :: u64 where "REQUEST_RETRY_INITIAL_MS \<equiv> 2000"
abbreviation (input) REQUEST_RETRIES :: u8 where "REQUEST_RETRIES \<equiv> 3"
abbreviation (input) REQUEST_HOP_COUNT :: u8 where "REQUEST_HOP_COUNT \<equiv> 64"
abbreviation (input) RECENT_REQUEST_MS :: u64 where "RECENT_REQUEST_MS \<equiv> 16000"
abbreviation (input) URGENT_TIMEOUT_MS :: u64 where "URGENT_TIMEOUT_MS \<equiv> 200"
abbreviation (input) MAX_TRIGGERED_JITTER_MS :: u64 where "MAX_TRIGGERED_JITTER_MS \<equiv> 100"

record send_timing =
  deadline_ms :: u64
  max_jitter_ms :: u64

definition immediate :: "u64 \<Rightarrow> send_timing" where
  "immediate now_ms = \<lparr>deadline_ms = now_ms, max_jitter_ms = 0\<rparr>"

definition urgent :: "u64 \<Rightarrow> send_timing" where
  "urgent now_ms =
     \<lparr>deadline_ms = sat_add now_ms URGENT_TIMEOUT_MS, max_jitter_ms = URGENT_TIMEOUT_MS\<rparr>"

definition triggered :: "u64 \<Rightarrow> u16 \<Rightarrow> send_timing" where
  "triggered now_ms hello_interval_cs =
     (let deadline_delta = sat_mul (ucast hello_interval_cs) 5
      in \<lparr>deadline_ms = sat_add now_ms deadline_delta,
          max_jitter_ms = min deadline_delta MAX_TRIGGERED_JITTER_MS\<rparr>)"

definition by_deadline :: "u64 \<Rightarrow> u64 \<Rightarrow> send_timing" where
  "by_deadline now_ms deadline =
     \<lparr>deadline_ms = deadline, max_jitter_ms = sat_sub deadline now_ms\<rparr>"

record route_selection_config =
  switch_margin_percent :: u8
  switch_margin_metric :: u16
  better_for_ms :: u64

definition route_selection_config_default :: route_selection_config where
  "route_selection_config_default =
     \<lparr>switch_margin_percent = 5, switch_margin_metric = 8, better_for_ms = 8000\<rparr>"

record neighbor_status =
  ns_interface :: string
  ns_address :: ip_addr
  ns_candidates :: nat
  ns_rejected_candidates :: u64
  ns_algorithm :: string
  ns_hello_received :: u16
  ns_hello_expected :: u16
  ns_multicast_hello_history :: u16
  ns_unicast_hello_history :: u16
  ns_receive_cost :: u16
  ns_transmit_cost :: u16
  ns_link_cost :: u16
  ns_last_rtt_us :: "u32 option"
  ns_smoothed_rtt_us :: "u32 option"
  ns_rtt_penalty :: u16
  ns_last_hello_age_ms :: u64

record 'm engine_config =
  cfg_route_policy :: route_policy
  cfg_ipv4_via_ipv6 :: bool
  cfg_limits :: resource_limits
  cfg_router_id :: router_id
  cfg_metric :: "'m metric_profile"
  cfg_metric_algebra :: "u16 \<Rightarrow> u16 \<Rightarrow> u16"
  cfg_sequence_number :: u16
  cfg_hello_interval_cs :: u16
  cfg_update_interval_cs :: u16
  cfg_route_selection :: route_selection_config

definition recommended :: "router_id \<Rightarrow> 'f neighbor_metric engine_config" where
  "recommended router_id =
     \<lparr>cfg_route_policy = allow_all_routes, cfg_ipv4_via_ipv6 = True,
      cfg_limits = resource_limits_default, cfg_router_id = router_id,
      cfg_metric = wired_profile wired_metric_default, cfg_metric_algebra = additive_extend,
      cfg_sequence_number = 0, cfg_hello_interval_cs = 400, cfg_update_interval_cs = 1600,
      cfg_route_selection = route_selection_config_default\<rparr>"

datatype control_transport = TransportIpv6 | TransportIpv4

definition control_transport_as_str :: "control_transport \<Rightarrow> string" where
  "control_transport_as_str t = (case t of TransportIpv6 \<Rightarrow> ''ipv6'' | TransportIpv4 \<Rightarrow> ''ipv4'')"

definition multicast :: "control_transport \<Rightarrow> ip_addr" where
  "multicast t = (case t of TransportIpv6 \<Rightarrow> BABEL_MULTICAST_V6 | TransportIpv4 \<Rightarrow> V4 0xe000006f)"

datatype ipv4_next_hop = NextHopAuto | NextHopIpv4 | NextHopIpv6

definition ipv4_next_hop_as_str :: "ipv4_next_hop \<Rightarrow> string" where
  "ipv4_next_hop_as_str h =
     (case h of NextHopAuto \<Rightarrow> ''auto'' | NextHopIpv4 \<Rightarrow> ''ipv4'' | NextHopIpv6 \<Rightarrow> ''ipv6'')"

definition usable_ipv4 :: "ip_addr \<Rightarrow> ipv4 option" where
  "usable_ipv4 address =
     (case address of
        V4 a \<Rightarrow> if \<not> v4_is_unspecified a \<and> \<not> v4_is_loopback a \<and> \<not> v4_is_multicast a
                  \<and> \<not> v4_is_broadcast a then Some a else None
      | V6 _ \<Rightarrow> None)"

definition ipv4_address :: "ipv4_next_hop \<Rightarrow> ip_addr list \<Rightarrow> ipv4 option" where
  "ipv4_address h addresses =
     (if h = NextHopIpv6 then None
      else case List.map_filter usable_ipv4 addresses of
             [] \<Rightarrow> None
           | a # as \<Rightarrow> Some (foldl min a as))"

record 'm interface_policy =
  ip_control_transport :: control_transport
  ip_ipv4_next_hop :: ipv4_next_hop
  ip_metric :: "'m metric_profile"
  ip_hello_interval_cs :: u16
  ip_update_interval_cs :: u16
  ip_split_horizon :: bool

section \<open>Events and actions\<close>

text \<open>The fields of an event come in the order of the source; the last is \<open>now_ms\<close>, except in
  \<open>PacketReceivedWithTimestamp\<close>, which ends with \<open>received_timestamp_us\<close>.\<close>

datatype 'm event =
    ReplaceRoutePolicy route_policy u64
  | InterfaceUp string "ip_addr list" u64
  | InterfaceUpWithPolicy string "ip_addr list" "'m interface_policy" u64
  | InterfacePolicyChanged string "'m interface_policy" bool u64
  | InterfaceAddressesChanged string "ip_addr list" u64
  | InterfaceDown string u64
  | PacketReceived string ip_addr packet u64
  | PacketReceivedWithTimestamp string ip_addr packet u64 u32
  | Originate route_key u16 u64
  | Withdraw route_key u64
  | ReplaceOrigins "(route_key, u16) table" u64
  | Tick u64

datatype action =
    InvalidatePendingSends
  | Send (send_interface: string) (send_destination: ip_addr) (send_packet: outbound_packet)
      (send_timing: send_timing)
  | RoutesChanged u64 "selected_route list" "route_key list"
  | SequenceNumberChanged u16

section \<open>Validation of local input\<close>

datatype config_error =
    SwitchMarginPercent
  | SwitchMarginMetric
  | ZeroInterval string
  | InvalidRouteKey
  | InvalidOriginMetric

definition validate_intervals :: "u16 \<Rightarrow> u16 \<Rightarrow> config_error + unit" where
  "validate_intervals hello_interval_cs update_interval_cs =
     (if hello_interval_cs = 0 then Inl (ZeroInterval ''hello_interval_cs'')
      else if update_interval_cs = 0 then Inl (ZeroInterval ''update_interval_cs'')
      else Inr ())"

definition validate_route_selection :: "route_selection_config \<Rightarrow> config_error + unit" where
  "validate_route_selection c =
     (if switch_margin_percent c > 100 then Inl SwitchMarginPercent
      else if switch_margin_metric c = INFINITY then Inl SwitchMarginMetric
      else Inr ())"

definition validate_interface_policy :: "'m interface_policy \<Rightarrow> config_error + unit" where
  "validate_interface_policy p = validate_intervals (ip_hello_interval_cs p) (ip_update_interval_cs p)"

definition validate_engine_config :: "'m engine_config \<Rightarrow> config_error + unit" where
  "validate_engine_config c =
     and_then (validate_route_selection (cfg_route_selection c))
       (\<lambda>_. validate_intervals (cfg_hello_interval_cs c) (cfg_update_interval_cs c))"

definition validate_route_key :: "ipnet \<Rightarrow> route_key \<Rightarrow> config_error + unit" where
  "validate_route_key N key =
     (if route_key_new N (destination key) (source key) \<noteq> Some key then Inl InvalidRouteKey
      else Inr ())"

definition validate_origin :: "ipnet \<Rightarrow> route_key \<Rightarrow> u16 \<Rightarrow> config_error + unit" where
  "validate_origin N key metric =
     and_then (validate_route_key N key)
       (\<lambda>_. if metric = INFINITY then Inl InvalidOriginMetric else Inr ())"

fun validate_origins :: "ipnet \<Rightarrow> (route_key \<times> u16) list \<Rightarrow> config_error + unit" where
  "validate_origins N [] = Inr ()"
| "validate_origins N ((key, metric) # origins) =
     and_then (validate_origin N key metric) (\<lambda>_. validate_origins N origins)"

definition validate_event :: "ipnet \<Rightarrow> 'm event \<Rightarrow> config_error + unit" where
  "validate_event N event =
     (case event of
        InterfaceUpWithPolicy _ _ policy _ \<Rightarrow> validate_interface_policy policy
      | InterfacePolicyChanged _ policy _ _ \<Rightarrow> validate_interface_policy policy
      | Originate key metric _ \<Rightarrow> validate_origin N key metric
      | Withdraw key _ \<Rightarrow> validate_route_key N key
      | ReplaceOrigins origins _ \<Rightarrow> validate_origins N origins
      | _ \<Rightarrow> Inr ())"

section \<open>State of the engine\<close>

record 'm interface_state =
  if_local_addresses :: "ip_addr list"
  if_policy :: "'m interface_policy"
  if_hello_seqno :: u16
  if_next_hello_ms :: u64
  if_next_update_ms :: u64
  if_last_full_update_ms :: "u64 option"

datatype neighbor_key = NeighborKey (nk_interface: string) (nk_address: ip_addr)

record hello_timer =
  ht_interval_cs :: u16
  ht_next_expiry_ms :: u64

record 'm neighbor =
  nb_candidates :: nat
  nb_rejected_candidates :: u64
  nb_last_hello_ms :: u64
  nb_histories :: hello_histories
  nb_multicast_timer :: "hello_timer option"
  nb_unicast_timer :: "hello_timer option"
  nb_last_ihu_ms :: "u64 option"
  nb_last_ihu_cost :: "u16 option"
  nb_ihu_interval_cs :: u16
  nb_next_ihu_ms :: u64
  nb_next_rtt_probe_ms :: "u64 option"
  nb_origin_timestamp :: "u32 option"
  nb_receive_timestamp :: "u32 option"
  nb_unicast_hello_seqno :: u16
  nb_metric :: 'm

record candidate =
  c_key :: route_key
  c_router_id :: router_id
  c_seqno :: u16
  c_advertised_metric :: u16
  c_metric :: u16
  c_next_hop :: ip_addr
  c_interface :: string
  c_interval_cs :: u16
  c_expires_ms :: u64
  c_refresh_requested :: bool

record originated =
  o_metric :: u16
  o_seqno :: u16

record source_entry =
  se_distance :: distance
  se_expires_ms :: u64

record pending_seqno_request =
  ps_seqno :: u16
  ps_hop_count :: u8
  ps_next_hop :: neighbor_key
  ps_requester :: "neighbor_key option"
  ps_retries_left :: u8
  ps_next_retry_ms :: u64

record seqno_request_spec =
  sq_key :: route_key
  sq_router_id :: router_id
  sq_seqno :: u16
  sq_hop_count :: u8
  sq_next_hop :: neighbor_key
  sq_requester :: "neighbor_key option"

record pending_switch =
  pw_router_id :: router_id
  pw_next_hop :: ip_addr
  pw_interface :: string
  pw_since_ms :: u64
  pw_current_peak_metric :: u16

record 'm engine =
  resources :: resource_status
  config :: "'m engine_config"
  interfaces :: "(string, 'm interface_state) table"
  neighbours :: "(neighbor_key, 'm neighbor) table"
  candidates :: "(route_key \<times> neighbor_key, candidate) table"
  feasible :: "(route_key \<times> router_id, source_entry) table"
  originated :: "(route_key, originated) table"
  selected :: "(route_key, selected_route) table"
  pending_seqno :: "(route_key \<times> router_id, pending_seqno_request) table"
  recent_seqno :: "(route_key \<times> router_id, u16 \<times> u64) table"
  tombstones :: "(route_key, u64) table"
  advertised_until :: "(route_key, u64) table"
  pending_advertisements :: "(route_key, u64 \<times> u8) table"
  pending_switches :: "(route_key, pending_switch) table"
  settling_since :: "(route_key, u64) table"
  settled_routes :: "route_key list"
  generation :: u64
  sequence_number :: u16

text \<open>What the engine calls: the metric methods, the \<open>ipnet\<close> package and the iteration orders.\<close>

record 'm env =
  env_metric :: "'m metric_ops"
  env_ipnet :: ipnet
  order_neighbours :: "neighbor_key list \<Rightarrow> neighbor_key \<Rightarrow> nat"
  order_candidates :: "(route_key \<times> neighbor_key) list \<Rightarrow> route_key \<times> neighbor_key \<Rightarrow> nat"
  order_requests :: "(route_key \<times> router_id) list \<Rightarrow> route_key \<times> router_id \<Rightarrow> nat"
  order_keys :: "route_key list \<Rightarrow> route_key \<Rightarrow> nat"

definition iter_neighbours :: "'m env \<Rightarrow> (neighbor_key, 'v) table \<Rightarrow> (neighbor_key, 'v) table" where
  "iter_neighbours E m = hash_iter (order_neighbours E (table_keys m)) m"

definition iter_candidates ::
    "'m env \<Rightarrow> (route_key \<times> neighbor_key, 'v) table \<Rightarrow> (route_key \<times> neighbor_key, 'v) table" where
  "iter_candidates E m = hash_iter (order_candidates E (table_keys m)) m"

definition iter_requests ::
    "'m env \<Rightarrow> (route_key \<times> router_id, 'v) table \<Rightarrow> (route_key \<times> router_id, 'v) table" where
  "iter_requests E m = hash_iter (order_requests E (table_keys m)) m"

text \<open>A \<open>HashSet\<close> is a list without duplicates, iterated in the order of its environment.\<close>

definition iter_neighbour_set :: "'m env \<Rightarrow> neighbor_key list \<Rightarrow> neighbor_key list" where
  "iter_neighbour_set E s = sort_key (order_neighbours E s) s"

definition iter_key_set :: "'m env \<Rightarrow> route_key list \<Rightarrow> route_key list" where
  "iter_key_set E s = sort_key (order_keys E s) s"

definition try_new :: "'m engine_config \<Rightarrow> config_error + 'm engine" where
  "try_new c =
     and_then (validate_engine_config c)
       (\<lambda>_. Inr \<lparr>resources = resource_status_default\<lparr>rs_limits := cfg_limits c\<rparr>,
                 config = c, interfaces = [], neighbours = [], candidates = [], feasible = [],
                 originated = [], selected = [], pending_seqno = [], recent_seqno = [],
                 tombstones = [], advertised_until = [], pending_advertisements = [],
                 pending_switches = [], settling_since = [], settled_routes = [],
                 generation = 0, sequence_number = cfg_sequence_number c\<rparr>)"

section \<open>Accessors\<close>

definition interface_hello_interval :: "'m engine \<Rightarrow> string \<Rightarrow> u16" where
  "interface_hello_interval e interface =
     (case map_of (interfaces e) interface of
        None \<Rightarrow> cfg_hello_interval_cs (config e)
      | Some state \<Rightarrow> ip_hello_interval_cs (if_policy state))"

definition interface_update_interval :: "'m engine \<Rightarrow> string \<Rightarrow> u16" where
  "interface_update_interval e interface =
     (case map_of (interfaces e) interface of
        None \<Rightarrow> cfg_update_interval_cs (config e)
      | Some state \<Rightarrow> ip_update_interval_cs (if_policy state))"

definition selected_routes :: "'m engine \<Rightarrow> selected_route list" where
  "selected_routes e = table_values (selected e)"

definition unreachable_routes :: "'m engine \<Rightarrow> route_key list" where
  "unreachable_routes e = table_keys (tombstones e)"

definition resource_status_of :: "'m engine \<Rightarrow> resource_status" where
  "resource_status_of e =
     (resources e)\<lparr>rs_candidates := length (candidates e), rs_sources := length (feasible e),
       rs_pending_requests := length (pending_seqno e), rs_unreachable := length (tombstones e)\<rparr>"

definition metric_name :: "'m engine \<Rightarrow> string" where
  "metric_name e = profile_name (cfg_metric (config e))"

definition repeat_advertisement :: "route_key \<Rightarrow> u64 \<Rightarrow> 'm engine \<Rightarrow> 'm engine" where
  "repeat_advertisement key now_ms e =
     e\<lparr>pending_advertisements :=
         bt_insert key (sat_add now_ms 1000, 2) (pending_advertisements e)\<rparr>"

text \<open>The longest update interval of the attached interfaces.\<close>

definition longest_update_interval :: "'m engine \<Rightarrow> u16" where
  "longest_update_interval e =
     (case max_of (map (\<lambda>state. ip_update_interval_cs (if_policy state)) (table_values (interfaces e))) of
        None \<Rightarrow> cfg_update_interval_cs (config e)
      | Some longest \<Rightarrow> longest)"

definition get_or :: "'v \<Rightarrow> ('k, 'v) table \<Rightarrow> 'k \<Rightarrow> 'v" where
  "get_or d m k = (case map_of m k of None \<Rightarrow> d | Some v \<Rightarrow> v)"

definition hold_withdrawal :: "route_key \<Rightarrow> u64 \<Rightarrow> 'm engine \<Rightarrow> 'm engine" where
  "hold_withdrawal key now_ms e =
     e\<lparr>tombstones :=
         bt_insert key
           (max (sat_add now_ms (ucast (longest_update_interval e) * 35))
                (get_or 0 (advertised_until e) key))
           (tombstones e)\<rparr>"

definition route_snapshot :: "'m engine \<Rightarrow> action \<times> 'm engine" where
  "route_snapshot e =
     (let e' = e\<lparr>generation := generation e + 1\<rparr>
      in (RoutesChanged (generation e') (selected_routes e') (unreachable_routes e'), e'))"

end
