(* ===== verification/Babel_Clock.thy ===== *)
theory Babel_Clock
  imports Babel_State
begin

text \<open>
  The scheduling functions of \<open>engine/timers.rs\<close>: periodic deadlines, the spread of RTT probes
  and the Hello timers. \<open>probe_salt\<close> hashes the printed form of an address, so the \<open>Display\<close>
  of the standard library's addresses is modelled here too.
\<close>

section \<open>Printing addresses\<close>

definition digit_char :: "nat \<Rightarrow> char" where
  "digit_char d = char_of (if d < 10 then 48 + d else 87 + d)"

fun show_dec :: "nat \<Rightarrow> string" where
  "show_dec n = (if n < 10 then [digit_char n] else show_dec (n div 10) @ [digit_char (n mod 10)])"

fun show_hex :: "nat \<Rightarrow> string" where
  "show_hex n = (if n < 16 then [digit_char n] else show_hex (n div 16) @ [digit_char (n mod 16)])"

fun join :: "string \<Rightarrow> string list \<Rightarrow> string" where
  "join sep [] = []"
| "join sep [x] = x"
| "join sep (x # y # xs) = x @ sep @ join sep (y # xs)"

definition show_ipv4 :: "ipv4 \<Rightarrow> string" where
  "show_ipv4 a = join ''.'' (map (\<lambda>b. show_dec (unat b)) (to_be_bytes a))"

definition segments :: "ipv6 \<Rightarrow> u16 list" where
  "segments a = map (\<lambda>i. ucast (drop_bit (16 * (7 - i)) a)) [0..<8]"

text \<open>The first of the longest runs of zero segments, as its start and length; \<open>current\<close> is the
  run that ends before position \<open>i\<close>.\<close>

fun longest_zeroes :: "nat \<Rightarrow> nat \<times> nat \<Rightarrow> nat \<times> nat \<Rightarrow> u16 list \<Rightarrow> nat \<times> nat" where
  "longest_zeroes i current longest [] = longest"
| "longest_zeroes i current longest (s # ss) =
     (if s = 0
      then let c = (if snd current = 0 then (i, 1) else (fst current, snd current + 1))
           in longest_zeroes (Suc i) c (if snd c > snd longest then c else longest) ss
      else longest_zeroes (Suc i) (0, 0) longest ss)"

definition show_segments :: "u16 list \<Rightarrow> string" where
  "show_segments ss = join '':'' (map (\<lambda>s. show_hex (unat s)) ss)"

definition show_ipv6 :: "ipv6 \<Rightarrow> string" where
  "show_ipv6 a =
     (let ss = segments a
      in if take 6 ss = [0, 0, 0, 0, 0, 0xffff] then ''::ffff:'' @ show_ipv4 (ucast a)
         else case longest_zeroes 0 (0, 0) (0, 0) ss of
           (start, len) \<Rightarrow>
             if len > 1 then show_segments (take start ss) @ ''::'' @ show_segments (drop (start + len) ss)
             else show_segments ss)"

definition show_ip_addr :: "ip_addr \<Rightarrow> string" where
  "show_ip_addr a = (case a of V4 x \<Rightarrow> show_ipv4 x | V6 x \<Rightarrow> show_ipv6 x)"

definition as_bytes :: "string \<Rightarrow> u8 list" where
  "as_bytes s = map of_char s"

section \<open>Deadlines\<close>

definition periodic_window_open :: "u64 \<Rightarrow> u64 \<Rightarrow> bool" where
  "periodic_window_open now_ms deadline \<longleftrightarrow> deadline \<le> sat_add now_ms MAX_TRIGGERED_JITTER_MS"

definition next_periodic_deadline :: "u64 \<Rightarrow> u64 \<Rightarrow> u16 \<Rightarrow> u64" where
  "next_periodic_deadline deadline now_ms interval_cs =
     (let interval_ms = sat_mul (ucast interval_cs) 10;
          anchored = sat_add deadline interval_ms
      in if anchored > now_ms then anchored else sat_add now_ms interval_ms)"

definition timestamp_us :: "u64 \<Rightarrow> u32" where
  "timestamp_us now_ms = ucast (now_ms * 1000)"

definition fnv :: "u8 list \<Rightarrow> u64 \<Rightarrow> u64" where
  "fnv bytes val = fold (\<lambda>byte v. (v XOR ucast byte) * 0x100000001b3) bytes val"

definition probe_salt :: "neighbor_key \<Rightarrow> u16 \<Rightarrow> u64" where
  "probe_salt key seqno =
     fnv (to_be_bytes seqno)
       (fnv (as_bytes (show_ip_addr (nk_address key)))
         (fnv (as_bytes (nk_interface key)) 0xcbf29ce484222325))"

definition initial_probe_deadline :: "u64 \<Rightarrow> u64 \<Rightarrow> neighbor_key \<Rightarrow> u64" where
  "initial_probe_deadline now_ms interval_ms key =
     (let spread = min (max interval_ms 1) 200
      in sat_add now_ms (probe_salt key 0 mod spread))"

definition recurring_probe_deadline :: "u64 \<Rightarrow> u64 \<Rightarrow> neighbor_key \<Rightarrow> u16 \<Rightarrow> u64" where
  "recurring_probe_deadline now_ms interval_ms key seqno =
     (let spread = max (interval_ms div 5) 1;
          delay = sat_add (sat_mul interval_ms 9 div 10) (probe_salt key seqno mod spread)
      in sat_add now_ms delay)"

definition advance_hello_timer ::
    "u64 \<Rightarrow> hello_timer option \<times> hello_history \<Rightarrow> hello_timer option \<times> hello_history" where
  "advance_hello_timer now_ms th =
     (case th of
        (None, history) \<Rightarrow> (None, history)
      | (Some timer, history) \<Rightarrow>
          if now_ms < ht_next_expiry_ms timer then (Some timer, history)
          else
            let interval_ms = max (sat_mul (ucast (ht_interval_cs timer)) 10) 1;
                n = 1 + sat_sub now_ms (ht_next_expiry_ms timer) div interval_ms
            in (Some (timer\<lparr>ht_next_expiry_ms :=
                  sat_add (ht_next_expiry_ms timer) (sat_mul n interval_ms)\<rparr>),
                missed_many n history))"

end
