(* ===== verification/Babel_Output.thy ===== *)
theory Babel_Output
  imports Babel_Clock
begin

text \<open>
  \<open>engine/output.rs\<close>: advertisements and retractions, with \<open>maintain_source\<close> of
  \<open>engine/sources.rs\<close>, which every finite advertisement passes through.

  A method on \<open>&mut self\<close> takes the engine last and returns it updated. A loop that mutates the
  engine is a \<open>fold\<close> of its body, one definition per loop, over the accumulator of the source
  (\<open>tlvs\<close>, \<open>actions\<close>) and the engine.
\<close>

section \<open>Feasibility history\<close>

definition maintain_source ::
    "route_key \<Rightarrow> router_id \<Rightarrow> distance \<Rightarrow> u64 \<Rightarrow> 'm engine \<Rightarrow> 'm engine" where
  "maintain_source key router_id distance now_ms e =
     (let expiry = sat_add now_ms SOURCE_GC_TIME_MS;
          old = get_or \<lparr>se_distance = distance, se_expires_ms = expiry\<rparr> (feasible e) (key, router_id);
          d = (if seqno_gt (d_seqno distance) (d_seqno (se_distance old))
                  \<or> d_seqno distance = d_seqno (se_distance old)
                    \<and> d_metric distance < d_metric (se_distance old)
               then distance else se_distance old)
      in e\<lparr>feasible :=
            AList.update (key, router_id) \<lparr>se_distance = d, se_expires_ms = expiry\<rparr> (feasible e)\<rparr>)"

section \<open>One advertisement\<close>

definition link_local_v6 :: "ip_addr \<Rightarrow> ipv6 option" where
  "link_local_v6 address =
     (case address of V6 a \<Rightarrow> if v6_is_unicast_link_local a then Some a else None | V4 _ \<Rightarrow> None)"

definition advertisement ::
    "'m engine \<Rightarrow> string \<Rightarrow> route_key \<Rightarrow> router_id \<Rightarrow> u16 \<Rightarrow> u16 \<Rightarrow> outbound_update" where
  "advertisement e interface key router_id seqno metric =
     (let state = map_of (interfaces e) interface;
          policy = (case state of None \<Rightarrow> NextHopAuto | Some s \<Rightarrow> ip_ipv4_next_hop (if_policy s));
          ipv4 = Option.bind state (\<lambda>s. ipv4_address policy (if_local_addresses s));
          transport = (case state of None \<Rightarrow> TransportIpv6 | Some s \<Rightarrow> ip_control_transport (if_policy s));
          ipv6 = Option.bind state (\<lambda>s. find_map link_local_v6 (if_local_addresses s));
          is_v4 = is_ipv4 (net_addr (destination key));
          needs_v6 = (\<not> is_v4 \<or> ipv4 = None);
          unavailable =
            (is_v4 \<and> ipv4 = None \<and> \<not> cfg_ipv4_via_ipv6 (config e)
             \<or> is_v4 \<and> policy = NextHopIpv4 \<and> ipv4 = None
             \<or> transport = TransportIpv4 \<and> needs_v6 \<and> ipv6 = None);
          denied =
            (metric \<noteq> INFINITY
             \<and> \<not> announce (cfg_route_policy (config e))
                   \<lparr>ec_key = key, ec_interface = interface, ec_router_id = router_id,
                    ec_locally_originated = (router_id = cfg_router_id (config e))\<rparr>);
          metric' = (if unavailable \<or> denied then INFINITY else metric)
      in \<lparr>ou_key = Some key, ou_router_id = Some router_id,
          ou_next_hop =
            (if metric' = INFINITY then None
             else if is_v4 \<and> ipv4 \<noteq> None then map_option V4 ipv4
             else if transport = TransportIpv4 then map_option V6 ipv6
             else None),
          ou_interval_cs = interface_update_interval e interface,
          ou_seqno = seqno, ou_metric = metric',
          ou_v4_via_v6 = (is_v4 \<and> metric' \<noteq> INFINITY \<and> ipv4 = None),
          ou_sub_tlvs = []\<rparr>)"

definition update_action_to_candidate ::
    "route_key \<Rightarrow> router_id \<Rightarrow> u16 \<Rightarrow> u16 \<Rightarrow> neighbor_key \<Rightarrow> u64 \<Rightarrow> 'm engine \<Rightarrow> action \<times> 'm engine" where
  "update_action_to_candidate key router_id seqno metric dest now_ms e =
     (let update = advertisement e (nk_interface dest) key router_id seqno metric;
          e' = (if ou_metric update \<noteq> INFINITY
                then maintain_source key router_id
                       \<lparr>d_seqno = seqno, d_metric = ou_metric update\<rparr> now_ms e
                else e)
      in (Send (nk_interface dest) (nk_address dest) \<lparr>out_tlvs = [OutUpdate update]\<rparr>
            (urgent now_ms), e'))"

definition retraction_action ::
    "'m engine \<Rightarrow> route_key \<Rightarrow> u16 \<Rightarrow> neighbor_key \<Rightarrow> u64 \<Rightarrow> action" where
  "retraction_action e key seqno dest now_ms =
     Send (nk_interface dest) (nk_address dest)
       \<lparr>out_tlvs = [OutUpdate
          \<lparr>ou_key = Some key, ou_router_id = None, ou_next_hop = None,
           ou_interval_cs = interface_update_interval e (nk_interface dest),
           ou_seqno = seqno, ou_metric = INFINITY, ou_v4_via_v6 = False, ou_sub_tlvs = []\<rparr>]\<rparr>
       (urgent now_ms)"

definition reply_to_route_request ::
    "route_key \<Rightarrow> neighbor_key \<Rightarrow> u64 \<Rightarrow> 'm engine \<Rightarrow> action \<times> 'm engine" where
  "reply_to_route_request key dest now_ms e =
     (let known =
        (case map_of (originated e) key of
           Some origin \<Rightarrow> Some (cfg_router_id (config e), o_seqno origin, o_metric origin)
         | None \<Rightarrow> map_option (\<lambda>route. (sel_router_id route, sel_seqno route, sel_metric route))
                     (map_of (selected e) key))
      in case known of
           Some (router_id, seqno, metric) \<Rightarrow>
             update_action_to_candidate key router_id seqno metric dest now_ms e
         | None \<Rightarrow> (retraction_action e key (sequence_number e) dest now_ms, e))"

section \<open>Updates on the interfaces\<close>

text \<open>\<open>only.is_none_or(|wanted| wanted == key)\<close>.\<close>

definition wanted :: "route_key option \<Rightarrow> route_key \<Rightarrow> bool" where
  "wanted only key = (case only of None \<Rightarrow> True | Some k \<Rightarrow> k = key)"

text \<open>The three loops over origins, selected routes and tombstones.\<close>

definition push_origin ::
    "string \<Rightarrow> route_key option \<Rightarrow> u64 \<Rightarrow> route_key \<times> originated
      \<Rightarrow> outbound_tlv list \<times> 'm engine \<Rightarrow> outbound_tlv list \<times> 'm engine" where
  "push_origin interface only now_ms = (\<lambda>(key, origin) (out, e).
     if wanted only key then
       let router_id = cfg_router_id (config e);
           update = advertisement e interface key router_id (o_seqno origin) (o_metric origin);
           e' = (if ou_metric update \<noteq> INFINITY
                 then maintain_source key router_id
                        \<lparr>d_seqno = o_seqno origin, d_metric = o_metric origin\<rparr> now_ms e
                 else e)
       in (out @ [OutUpdate update], e')
     else (out, e))"

definition push_selected ::
    "string \<Rightarrow> bool \<Rightarrow> route_key option \<Rightarrow> u64 \<Rightarrow> selected_route
      \<Rightarrow> outbound_tlv list \<times> 'm engine \<Rightarrow> outbound_tlv list \<times> 'm engine" where
  "push_selected interface split_horizon only now_ms = (\<lambda>route (out, e).
     if wanted only (sel_key route) then
       let update = advertisement e interface (sel_key route) (sel_router_id route)
                      (sel_seqno route) (sel_metric route)
       in if split_horizon \<and> sel_interface route = interface \<and> ou_metric update \<noteq> INFINITY
          then (out, e)
          else
            let e' = (if ou_metric update \<noteq> INFINITY
                      then maintain_source (sel_key route) (sel_router_id route)
                             \<lparr>d_seqno = sel_seqno route, d_metric = sel_metric route\<rparr> now_ms e
                      else e)
            in (out @ [OutUpdate update], e')
     else (out, e))"

definition push_tombstone ::
    "string \<Rightarrow> route_key option \<Rightarrow> route_key
      \<Rightarrow> outbound_tlv list \<times> 'm engine \<Rightarrow> outbound_tlv list \<times> 'm engine" where
  "push_tombstone interface only = (\<lambda>key (out, e).
     if \<not> contains_key (originated e) key \<and> \<not> contains_key (selected e) key \<and> wanted only key
     then (out @ [OutUpdate (advertisement e interface key (cfg_router_id (config e))
                               (sequence_number e) INFINITY)], e)
     else (out, e))"

text \<open>The entries of a table that \<open>send_updates\<close> copies before its loops.\<close>

definition wanted_entries :: "route_key option \<Rightarrow> (route_key, 'v) table \<Rightarrow> (route_key \<times> 'v) list" where
  "wanted_entries only m =
     (case only of
        Some key \<Rightarrow> (case map_of m key of None \<Rightarrow> [] | Some v \<Rightarrow> [(key, v)])
      | None \<Rightarrow> m)"

text \<open>The body of the closure over the interfaces, after the lookup of its state.\<close>

definition interface_updates ::
    "(route_key \<times> originated) list \<Rightarrow> selected_route list \<Rightarrow> route_key list \<Rightarrow> string \<Rightarrow> bool
      \<Rightarrow> route_key option \<Rightarrow> u64 \<Rightarrow> 'm engine \<Rightarrow> outbound_tlv list \<times> 'm engine" where
  "interface_updates origins routes withdrawn interface split_horizon only now_ms e =
     fold (push_tombstone interface only) withdrawn
       (fold (push_selected interface split_horizon only now_ms) routes
         (fold (push_origin interface only now_ms) origins ([], e)))"

definition send_updates_on ::
    "(route_key \<times> originated) list \<Rightarrow> selected_route list \<Rightarrow> route_key list \<Rightarrow> u64
      \<Rightarrow> route_key option \<Rightarrow> send_timing option \<Rightarrow> string
      \<Rightarrow> action list \<times> 'm engine \<Rightarrow> action list \<times> 'm engine" where
  "send_updates_on origins routes withdrawn now_ms only timing = (\<lambda>interface (actions, e).
     case map_of (interfaces e) interface of
       None \<Rightarrow> (actions, e)
     | Some state \<Rightarrow>
         let policy = if_policy state;
             timing' = (case timing of Some t \<Rightarrow> t
                        | None \<Rightarrow> triggered now_ms (ip_hello_interval_cs policy));
             (out, e') = interface_updates origins routes withdrawn interface
                           (ip_split_horizon policy) only now_ms e
         in if out = [] then (actions, e')
            else
              let e'' = (if only = None
                         then e'\<lparr>interfaces := modify interface
                                   (\<lambda>s. s\<lparr>if_last_full_update_ms := Some now_ms\<rparr>) (interfaces e')\<rparr>
                         else e')
              in (actions @ [Send interface (multicast (ip_control_transport policy))
                               \<lparr>out_tlvs = out\<rparr> timing'], e''))"

definition send_updates ::
    "u64 \<Rightarrow> route_key option \<Rightarrow> string option \<Rightarrow> send_timing option
      \<Rightarrow> 'm engine \<Rightarrow> action list \<times> 'm engine" where
  "send_updates now_ms only interface timing e =
     (let names = (case interface of None \<Rightarrow> table_keys (interfaces e) | Some v \<Rightarrow> [v]);
          origins = wanted_entries only (originated e);
          routes = table_values (wanted_entries only (selected e));
          withdrawn = table_keys (wanted_entries only (tombstones e))
      in fold (send_updates_on origins routes withdrawn now_ms only timing) names ([], e))"

definition full_update_request_allowed :: "'m engine \<Rightarrow> string \<Rightarrow> u64 \<Rightarrow> bool" where
  "full_update_request_allowed e interface now_ms =
     (let suppression_ms = ucast (interface_hello_interval e interface) * 10
      in case Option.bind (map_of (interfaces e) interface) if_last_full_update_ms of
           None \<Rightarrow> True
         | Some full_ms \<Rightarrow> sat_sub now_ms full_ms \<ge> suppression_ms)"

definition send_retraction :: "'m engine \<Rightarrow> route_key \<Rightarrow> u16 \<Rightarrow> u64 \<Rightarrow> action list" where
  "send_retraction e key seqno now_ms =
     map (\<lambda>(interface, state).
            Send interface (multicast (ip_control_transport (if_policy state)))
              \<lparr>out_tlvs = [OutUpdate
                 \<lparr>ou_key = Some key, ou_router_id = Some (cfg_router_id (config e)),
                  ou_next_hop = None, ou_interval_cs = ip_update_interval_cs (if_policy state),
                  ou_seqno = seqno, ou_metric = INFINITY, ou_v4_via_v6 = False,
                  ou_sub_tlvs = []\<rparr>]\<rparr>
              (urgent now_ms))
       (interfaces e)"

definition advertise_learned ::
    "'m engine \<Rightarrow> selected_route \<Rightarrow> u16 \<Rightarrow> string option \<Rightarrow> u64 \<Rightarrow> action list" where
  "advertise_learned e route metric learned_interface now_ms =
     List.map_filter (\<lambda>(interface, state).
       let update = advertisement e interface (sel_key route) (sel_router_id route)
                      (sel_seqno route) metric
       in if ip_split_horizon (if_policy state) \<and> learned_interface = Some interface
             \<and> ou_metric update \<noteq> INFINITY
          then None
          else Some (Send interface (multicast (ip_control_transport (if_policy state)))
                       \<lparr>out_tlvs = [OutUpdate update]\<rparr> (urgent now_ms)))
       (interfaces e)"

end
