(* ===== verification/Babel_Sources.thy ===== *)
theory Babel_Sources
  imports Babel_Output
begin

text \<open>
  \<open>engine/sources.rs\<close>: sequence-number requests and the local sequence number, with the
  feasibility test of \<open>engine/rib.rs\<close> that the forwarding of a request uses.
\<close>

definition seqno_request_action ::
    "route_key \<Rightarrow> router_id \<Rightarrow> u16 \<Rightarrow> u8 \<Rightarrow> neighbor_key \<Rightarrow> u64 \<Rightarrow> action" where
  "seqno_request_action key router_id seqno hop_count next_hop now_ms =
     Send (nk_interface next_hop) (nk_address next_hop)
       \<lparr>out_tlvs = [OutSeqnoRequest key seqno hop_count router_id []]\<rparr> (urgent now_ms)"

definition originate_seqno_request ::
    "seqno_request_spec \<Rightarrow> u64 \<Rightarrow> 'm engine \<Rightarrow> action list \<times> 'm engine" where
  "originate_seqno_request request now_ms e =
     ([seqno_request_action (sq_key request) (sq_router_id request) (sq_seqno request)
         (sq_hop_count request) (sq_next_hop request) now_ms],
      e\<lparr>pending_seqno := AList.update (sq_key request, sq_router_id request)
          \<lparr>ps_seqno = sq_seqno request, ps_hop_count = sq_hop_count request,
           ps_next_hop = sq_next_hop request, ps_requester = sq_requester request,
           ps_retries_left = REQUEST_RETRIES,
           ps_next_retry_ms = sat_add now_ms REQUEST_RETRY_INITIAL_MS\<rparr>
          (pending_seqno e)\<rparr>)"

definition bump_sequence_number :: "'m engine \<Rightarrow> 'm engine" where
  "bump_sequence_number e =
     (let s = sequence_number e + 1
      in e\<lparr>sequence_number := s,
           originated := map_values (\<lambda>_ origin. origin\<lparr>o_seqno := s\<rparr>) (originated e)\<rparr>)"

definition candidate_distance :: "candidate \<Rightarrow> distance" where
  "candidate_distance c = \<lparr>d_seqno = c_seqno c, d_metric = c_advertised_metric c\<rparr>"

text \<open>The candidate is the one the selected route was made from.\<close>

definition is_selected_route :: "candidate \<Rightarrow> selected_route \<Rightarrow> bool" where
  "is_selected_route c route \<longleftrightarrow>
     sel_router_id route = c_router_id c \<and> sel_interface route = c_interface c
     \<and> sel_next_hop route = c_next_hop c"

definition candidate_is_feasible :: "'m engine \<Rightarrow> candidate \<Rightarrow> bool" where
  "candidate_is_feasible e c =
     (let retained_selected =
        (case map_of (selected e) (c_key c) of None \<Rightarrow> False | Some route \<Rightarrow> is_selected_route c route)
      in retained_selected
         \<or> (case map_of (feasible e) (c_key c, c_router_id c) of
              None \<Rightarrow> True
            | Some entry \<Rightarrow> feasible_against (candidate_distance c) (se_distance entry)))"

text \<open>The guards of \<open>handle_seqno_request\<close>: a request already pending, or recently answered.\<close>

definition request_is_pending :: "'m engine \<Rightarrow> route_key \<times> router_id \<Rightarrow> u16 \<Rightarrow> bool" where
  "request_is_pending e pending_key seqno =
     (case map_of (pending_seqno e) pending_key of
        None \<Rightarrow> False
      | Some pending \<Rightarrow> ps_seqno pending = seqno \<or> seqno_gt (ps_seqno pending) seqno)"

definition request_is_recent :: "'m engine \<Rightarrow> route_key \<times> router_id \<Rightarrow> u16 \<Rightarrow> u64 \<Rightarrow> bool" where
  "request_is_recent e pending_key seqno now_ms =
     (case map_of (recent_seqno e) pending_key of
        None \<Rightarrow> False
      | Some (recent, expires) \<Rightarrow> expires \<ge> now_ms \<and> (recent = seqno \<or> seqno_gt recent seqno))"

definition request_next_hop ::
    "'m env \<Rightarrow> 'm engine \<Rightarrow> route_key \<Rightarrow> router_id \<Rightarrow> neighbor_key \<Rightarrow> neighbor_key option" where
  "request_next_hop E e key router_id requester =
     map_option (\<lambda>entry. snd (fst entry))
       (min_by_key (\<lambda>(_, c). (\<not> candidate_is_feasible e c, c_metric c, c_seqno c))
         (filter (\<lambda>((k, n), c). k = key \<and> c_router_id c = router_id \<and> n \<noteq> requester)
           (iter_candidates E (candidates e))))"

definition forward_seqno_request ::
    "'m env \<Rightarrow> neighbor_key \<Rightarrow> route_key \<Rightarrow> u16 \<Rightarrow> u8 \<Rightarrow> router_id \<Rightarrow> u64
      \<Rightarrow> 'm engine \<Rightarrow> action list \<times> 'm engine" where
  "forward_seqno_request E requester key seqno hop_count router_id now_ms e =
     (if hop_count \<le> 1 then ([], e)
      else if request_is_pending e (key, router_id) seqno then ([], e)
      else if request_is_recent e (key, router_id) seqno now_ms then ([], e)
      else case request_next_hop E e key router_id requester of
             None \<Rightarrow> ([], e)
           | Some next_hop \<Rightarrow>
               originate_seqno_request
                 \<lparr>sq_key = key, sq_router_id = router_id, sq_seqno = seqno,
                  sq_hop_count = hop_count - 1, sq_next_hop = next_hop,
                  sq_requester = Some requester\<rparr> now_ms e)"

text \<open>The selected route answers the request when it is of another origin or recent enough.\<close>

definition selected_answers :: "'m engine \<Rightarrow> route_key \<Rightarrow> u16 \<Rightarrow> router_id \<Rightarrow> selected_route option" where
  "selected_answers e key seqno router_id =
     (case map_of (selected e) key of
        None \<Rightarrow> None
      | Some route \<Rightarrow>
          if sel_router_id route \<noteq> router_id \<or> sel_seqno route = seqno \<or> seqno_gt (sel_seqno route) seqno
          then Some route else None)"

definition handle_seqno_request ::
    "'m env \<Rightarrow> neighbor_key \<Rightarrow> route_key \<Rightarrow> u16 \<Rightarrow> u8 \<Rightarrow> router_id \<Rightarrow> u64
      \<Rightarrow> 'm engine \<Rightarrow> action list \<times> 'm engine" where
  "handle_seqno_request E requester key seqno hop_count router_id now_ms e =
     (if contains_key (originated e) key \<and> router_id \<noteq> cfg_router_id (config e)
      then let (a, e') = reply_to_route_request key requester now_ms e in ([a], e')
      else case selected_answers e key seqno router_id of
        Some route \<Rightarrow>
          (let (a, e') = update_action_to_candidate (sel_key route) (sel_router_id route)
                 (sel_seqno route) (sel_metric route) requester now_ms e
           in ([a], e'))
      | None \<Rightarrow>
          (case (if router_id = cfg_router_id (config e) then map_of (originated e) key else None) of
             Some origin \<Rightarrow>
               (let (actions, e') =
                      (if seqno_gt seqno (o_seqno origin)
                       then let e1 = bump_sequence_number e
                            in ([SequenceNumberChanged (sequence_number e1)], e1)
                       else ([], e));
                    (updates, e'') = send_updates now_ms (Some key) None (Some (urgent now_ms)) e'
                in (actions @ updates, e''))
           | None \<Rightarrow> forward_seqno_request E requester key seqno hop_count router_id now_ms e))"

end
