(* ===== verification/Babel_Rib.thy ===== *)
theory Babel_Rib
  imports Babel_Sources
begin

text \<open>
  \<open>engine/rib.rs\<close>: admission of candidates, the metric of a candidate, and route selection.
\<close>

section \<open>Admission\<close>

definition forbidden_destination :: "ipnet \<Rightarrow> ip_net \<Rightarrow> bool" where
  "forbidden_destination N dest =
     (let len = prefix_len dest
      in case network N dest of
           V4 a \<Rightarrow> len = 32 \<and> (a = 0 \<or> a = 0x7f000001) \<or> len \<ge> 8 \<and> octet a 0 = 224
         | V6 a \<Rightarrow> len \<ge> 8 \<and> octet a 0 = 0xff
                  \<or> len \<ge> 64 \<and> take 8 (to_be_bytes a) = [0xfe, 0x80, 0, 0, 0, 0, 0, 0])"

text \<open>A custom algebra cannot make an infinite link reachable or reduce a distance.\<close>

definition safe_extend :: "(u16 \<Rightarrow> u16 \<Rightarrow> u16) \<Rightarrow> u16 \<Rightarrow> u16 \<Rightarrow> u16" where
  "safe_extend algebra advertised link =
     (if advertised = INFINITY \<or> link = INFINITY \<or> link = 0 then INFINITY
      else let result = algebra advertised link
           in if result \<le> advertised then INFINITY else result)"

definition retracted :: "candidate \<Rightarrow> candidate" where
  "retracted c = c\<lparr>c_advertised_metric := INFINITY, c_metric := INFINITY\<rparr>"

definition is_reachable :: "candidate \<Rightarrow> bool" where
  "is_reachable c \<longleftrightarrow> c_advertised_metric c \<noteq> INFINITY \<or> c_metric c \<noteq> INFINITY"

text \<open>A retraction of everything from one neighbour, and a retraction of one key.\<close>

definition retract_all :: "neighbor_key \<Rightarrow> 'm engine \<Rightarrow> bool \<times> 'm engine" where
  "retract_all nk e =
     (list_ex (\<lambda>((_, n), c). n = nk \<and> is_reachable c) (candidates e),
      e\<lparr>candidates := map_values (\<lambda>(_, n) c. if n = nk then retracted c else c) (candidates e)\<rparr>)"

definition retract_one :: "route_key \<times> neighbor_key \<Rightarrow> 'm engine \<Rightarrow> bool \<times> 'm engine" where
  "retract_one candidate_key e =
     (case map_of (candidates e) candidate_key of
        None \<Rightarrow> (False, e)
      | Some c \<Rightarrow> (is_reachable c, e\<lparr>candidates := modify candidate_key retracted (candidates e)\<rparr>))"

definition modify_neighbour ::
    "neighbor_key \<Rightarrow> ('m neighbor \<Rightarrow> 'm neighbor) \<Rightarrow> 'm engine \<Rightarrow> 'm engine" where
  "modify_neighbour nk f e = e\<lparr>neighbours := modify nk f (neighbours e)\<rparr>"

text \<open>A candidate that the import policy rejects is dropped.\<close>

definition reject_candidate :: "route_key \<Rightarrow> neighbor_key \<Rightarrow> 'm engine \<Rightarrow> bool \<times> 'm engine" where
  "reject_candidate key nk e =
     (if contains_key (candidates e) (key, nk)
      then (True, modify_neighbour nk (\<lambda>n. n\<lparr>nb_candidates := nb_candidates n - 1\<rparr>)
                    (e\<lparr>candidates := AList.delete (key, nk) (candidates e)\<rparr>))
      else (False, e))"

text \<open>The limit that refuses a new candidate, and its accounting.\<close>

definition per_neighbor_full :: "'m engine \<Rightarrow> 'm neighbor \<Rightarrow> bool" where
  "per_neighbor_full e n \<longleftrightarrow>
     nb_candidates n \<ge> max_candidates_per_neighbor (cfg_limits (config e))"

definition candidate_refused :: "'m engine \<Rightarrow> 'm neighbor \<Rightarrow> bool" where
  "candidate_refused e n \<longleftrightarrow>
     per_neighbor_full e n \<or> length (candidates e) \<ge> max_candidates (cfg_limits (config e))"

definition count_refusal :: "neighbor_key \<Rightarrow> 'm neighbor \<Rightarrow> 'm engine \<Rightarrow> 'm engine" where
  "count_refusal nk n e =
     (let r = resources e;
          r' = (if per_neighbor_full e n
                then r\<lparr>rejected_candidates_per_neighbor := sat_add (rejected_candidates_per_neighbor r) 1\<rparr>
                else r\<lparr>rejected_candidates_global := sat_add (rejected_candidates_global r) 1\<rparr>)
      in modify_neighbour nk
           (\<lambda>n. n\<lparr>nb_rejected_candidates := sat_add (nb_rejected_candidates n) 1\<rparr>)
           (e\<lparr>resources := r'\<rparr>))"

text \<open>Pending requests that a feasible update answers.\<close>

definition satisfies_request :: "route_key \<Rightarrow> router_id \<Rightarrow> u16
    \<Rightarrow> (route_key \<times> router_id) \<times> pending_seqno_request \<Rightarrow> bool" where
  "satisfies_request key router_id seqno = (\<lambda>((pending_key, pending_router), pending).
     pending_key = key
     \<and> (pending_router \<noteq> router_id \<or> ps_seqno pending = seqno \<or> seqno_gt seqno (ps_seqno pending)))"

definition satisfy_request ::
    "route_key \<Rightarrow> router_id \<Rightarrow> u16 \<Rightarrow> u16 \<Rightarrow> u64 \<Rightarrow> route_key \<times> router_id
      \<Rightarrow> action list \<times> 'm engine \<Rightarrow> action list \<times> 'm engine" where
  "satisfy_request key router_id seqno metric now_ms = (\<lambda>pending_key (actions, e).
     case map_of (pending_seqno e) pending_key of
       None \<Rightarrow> (actions, e)
     | Some pending \<Rightarrow>
         let e1 = e\<lparr>pending_seqno := AList.delete pending_key (pending_seqno e)\<rparr>;
             (actions', e2) =
               (case ps_requester pending of
                  None \<Rightarrow> (actions, e1)
                | Some requester \<Rightarrow>
                    let (a, e') = update_action_to_candidate key router_id seqno metric requester now_ms e1
                    in (actions @ [a], e'))
         in (actions', e2\<lparr>recent_seqno := AList.update pending_key
                (ps_seqno pending, sat_add now_ms RECENT_REQUEST_MS) (recent_seqno e2)\<rparr>))"

definition satisfy_requests ::
    "'m env \<Rightarrow> route_key \<Rightarrow> router_id \<Rightarrow> u16 \<Rightarrow> u16 \<Rightarrow> u64 \<Rightarrow> 'm engine \<Rightarrow> action list \<times> 'm engine" where
  "satisfy_requests E key router_id seqno metric now_ms e =
     fold (satisfy_request key router_id seqno metric now_ms)
       (table_keys (filter (satisfies_request key router_id seqno)
          (iter_requests E (pending_seqno e)))) ([], e)"

definition recovery_request ::
    "route_key \<Rightarrow> router_id \<Rightarrow> u16 \<Rightarrow> neighbor_key \<Rightarrow> seqno_request_spec" where
  "recovery_request key router_id seqno nk =
     \<lparr>sq_key = key, sq_router_id = router_id, sq_seqno = seqno, sq_hop_count = REQUEST_HOP_COUNT,
      sq_next_hop = nk, sq_requester = None\<rparr>"

text \<open>The candidate that an update becomes, and whether it changes what selection reads.\<close>

definition update_candidate ::
    "route_key \<Rightarrow> neighbor_key \<Rightarrow> router_id \<Rightarrow> ip_addr \<Rightarrow> u16 \<Rightarrow> resolved_update \<Rightarrow> u64 \<Rightarrow> candidate" where
  "update_candidate key nk router_id next_hop metric update now_ms =
     \<lparr>c_key = key, c_router_id = router_id, c_seqno = ru_seqno update,
      c_advertised_metric = ru_metric update, c_metric = metric, c_next_hop = next_hop,
      c_interface = nk_interface nk, c_interval_cs = ru_interval_cs update,
      c_expires_ms = sat_add now_ms (ucast (ru_interval_cs update) * 35),
      c_refresh_requested = False\<rparr>"

definition candidate_changed :: "candidate option \<Rightarrow> candidate \<Rightarrow> bool" where
  "candidate_changed old new =
     (case old of
        None \<Rightarrow> True
      | Some c \<Rightarrow>
          c_router_id c \<noteq> c_router_id new \<or> c_seqno c \<noteq> c_seqno new \<or> c_metric c \<noteq> c_metric new
          \<or> c_advertised_metric c \<noteq> c_advertised_metric new \<or> c_next_hop c \<noteq> c_next_hop new)"

definition insert_candidate :: "route_key \<Rightarrow> neighbor_key \<Rightarrow> candidate \<Rightarrow> 'm engine \<Rightarrow> 'm engine" where
  "insert_candidate key nk c e =
     (let e' = (if contains_key (candidates e) (key, nk) then e
                else modify_neighbour nk (\<lambda>n. n\<lparr>nb_candidates := nb_candidates n + 1\<rparr>) e)
      in e'\<lparr>candidates := AList.update (key, nk) c (candidates e')\<rparr>)"

text \<open>
  The last part of \<open>receive_update\<close>: the update is admitted and its metric computed. An
  infeasible update of the selected route is ignored, with a request for a newer sequence number.
\<close>

definition admit_update ::
    "'m env \<Rightarrow> route_key \<Rightarrow> neighbor_key \<Rightarrow> router_id \<Rightarrow> ip_addr \<Rightarrow> u16 \<Rightarrow> resolved_update \<Rightarrow> u64
      \<Rightarrow> 'm engine \<Rightarrow> (bool \<times> action list) \<times> 'm engine" where
  "admit_update E key nk router_id next_hop metric update now_ms e =
     (let distance = \<lparr>d_seqno = ru_seqno update, d_metric = ru_metric update\<rparr>;
          fd = map_option se_distance (map_of (feasible e) (key, router_id));
          is_feasible = (case fd of None \<Rightarrow> True | Some d \<Rightarrow> feasible_against distance d);
          request = (\<lambda>d. originate_seqno_request
             (recovery_request key router_id (d_seqno d + 1) nk) now_ms e)
      in if \<not> is_feasible \<and>
            (case map_of (selected e) key of
               None \<Rightarrow> False
             | Some route \<Rightarrow> sel_router_id route = router_id
                 \<and> sel_interface route = nk_interface nk \<and> sel_next_hop route = next_hop)
         then (case fd of
                 None \<Rightarrow> ((False, []), e)
               | Some d \<Rightarrow> (case request d of (actions, e') \<Rightarrow> ((False, actions), e')))
         else
           let (actions, e1) =
                 (if is_feasible
                  then satisfy_requests E key router_id (ru_seqno update) metric now_ms e
                  else if \<not> contains_key (pending_seqno e) (key, router_id)
                          \<and> (case map_of (selected e) key of
                               None \<Rightarrow> True | Some route \<Rightarrow> metric < sel_metric route)
                  then (case fd of None \<Rightarrow> ([], e) | Some d \<Rightarrow> request d)
                  else ([], e));
               c = update_candidate key nk router_id next_hop metric update now_ms;
               changed = candidate_changed (map_of (candidates e1) (key, nk)) c
           in ((changed, actions), insert_candidate key nk c e1))"

text \<open>A finite update: the fixed protocol checks, the import policy, the limits and the metric.\<close>

definition receive_finite_update ::
    "'m env \<Rightarrow> neighbor_key \<Rightarrow> route_key \<Rightarrow> resolved_update \<Rightarrow> u64
      \<Rightarrow> 'm engine \<Rightarrow> (bool \<times> action list) \<times> 'm engine" where
  "receive_finite_update E nk key update now_ms e =
     (case ru_router_id update of
        None \<Rightarrow> ((False, []), e)
      | Some router_id \<Rightarrow>
          if router_id = cfg_router_id (config e) then ((False, []), e)
          else case ru_next_hop update of
            None \<Rightarrow> ((False, []), e)
          | Some next_hop \<Rightarrow>
              if is_ipv4 (net_addr (destination key)) \<and> is_ipv6 next_hop
                 \<and> \<not> cfg_ipv4_via_ipv6 (config e)
              then ((False, []), e)
              else case map_of (neighbours e) nk of
                None \<Rightarrow> ((False, []), e)
              | Some n \<Rightarrow>
                  if \<not> accept (cfg_route_policy (config e))
                        \<lparr>ic_key = key, ic_interface = nk_interface nk, ic_neighbor = nk_address nk,
                         ic_next_hop = next_hop, ic_router_id = router_id,
                         ic_seqno = ru_seqno update, ic_advertised_metric = ru_metric update\<rparr>
                  then let (removed, e') = reject_candidate key nk e in ((removed, []), e')
                  else if \<not> contains_key (candidates e) (key, nk) \<and> candidate_refused e n
                  then ((False, []), count_refusal nk n e)
                  else
                    let metric = safe_extend (cfg_metric_algebra (config e)) (ru_metric update)
                                   (link_cost (env_metric E) (nb_metric n))
                    in if metric \<noteq> INFINITY \<and> metric \<le> ru_metric update then ((False, []), e)
                       else admit_update E key nk router_id next_hop metric update now_ms e)"

definition receive_update ::
    "'m env \<Rightarrow> neighbor_key \<Rightarrow> resolved_update \<Rightarrow> u64
      \<Rightarrow> 'm engine \<Rightarrow> (bool \<times> action list) \<times> 'm engine" where
  "receive_update E nk update now_ms e =
     (case ru_key update of
        None \<Rightarrow>
          if ru_metric update = INFINITY
          then let (changed, e') = retract_all nk e in ((changed, []), e')
          else ((False, []), e)
      | Some key \<Rightarrow>
          if forbidden_destination (env_ipnet E) (destination key) then ((False, []), e)
          else if ru_metric update = INFINITY
          then let (changed, e') = retract_one (key, nk) e in ((changed, []), e')
          else receive_finite_update E nk key update now_ms e)"

text \<open>The metrics of the candidates after a change of link costs.\<close>

definition recompute_candidate_metrics ::
    "'m env \<Rightarrow> neighbor_key option \<Rightarrow> 'm engine \<Rightarrow> bool \<times> 'm engine" where
  "recompute_candidate_metrics E only e =
     (let costs = map_values (\<lambda>_ n. link_cost (env_metric E) (nb_metric n))
            (filter (\<lambda>(nk, _). case only of None \<Rightarrow> True | Some k \<Rightarrow> k = nk) (neighbours e));
          recomputed = (\<lambda>(_, nk) c.
            case map_of costs nk of
              None \<Rightarrow> c
            | Some cost \<Rightarrow> c\<lparr>c_metric := safe_extend (cfg_metric_algebra (config e))
                                         (c_advertised_metric c) cost\<rparr>)
      in (list_ex (\<lambda>(k, c). c_metric c \<noteq> c_metric (recomputed k c)) (candidates e),
          e\<lparr>candidates := map_values recomputed (candidates e)\<rparr>))"

section \<open>Selection\<close>

definition candidate_order :: "candidate \<Rightarrow> u16 \<times> router_id \<times> string \<times> ip_addr" where
  "candidate_order c = (c_metric c, c_router_id c, c_interface c, c_next_hop c)"

definition same_candidate :: "candidate \<Rightarrow> candidate \<Rightarrow> bool" where
  "same_candidate l r \<longleftrightarrow>
     c_router_id l = c_router_id r \<and> c_next_hop l = c_next_hop r \<and> c_interface l = c_interface r"

definition metric_improvement_is_significant :: "u16 \<Rightarrow> u16 \<Rightarrow> route_selection_config \<Rightarrow> bool" where
  "metric_improvement_is_significant better_metric worse_metric policy =
     (let improvement = sat_sub worse_metric better_metric;
          percentage = ucast (min (div_ceil
             (ucast worse_metric * ucast (switch_margin_percent policy) :: u32) 100) 0xffff)
      in improvement \<ge> max (switch_margin_metric policy) percentage \<and> improvement > 0)"

definition sufficiently_better :: "candidate \<Rightarrow> candidate \<Rightarrow> route_selection_config \<Rightarrow> bool" where
  "sufficiently_better c current policy =
     metric_improvement_is_significant (c_metric c) (c_metric current) policy"

definition selected_from_candidate :: "candidate \<Rightarrow> selected_route" where
  "selected_from_candidate route =
     \<lparr>sel_key = c_key route, sel_router_id = c_router_id route, sel_seqno = c_seqno route,
      sel_metric = c_metric route, sel_next_hop = c_next_hop route,
      sel_interface = c_interface route\<rparr>"

text \<open>\<open>grouped.entry(candidate.key).or_default().push(candidate)\<close>.\<close>

definition push_group ::
    "candidate \<Rightarrow> (route_key, candidate list) table \<Rightarrow> (route_key, candidate list) table" where
  "push_group c grouped = bt_insert (c_key c) (get_or [] grouped (c_key c) @ [c]) grouped"

definition usable_candidates :: "'m env \<Rightarrow> 'm engine \<Rightarrow> candidate list" where
  "usable_candidates E e =
     filter (\<lambda>route. c_metric route < INFINITY \<and> candidate_is_feasible e route)
       (table_values (iter_candidates E (candidates e)))"

definition grouped_candidates :: "'m env \<Rightarrow> 'm engine \<Rightarrow> (route_key, candidate list) table" where
  "grouped_candidates E e = fold push_group (usable_candidates E e) []"

definition settle :: "route_key \<Rightarrow> u64 \<Rightarrow> 'm engine \<Rightarrow> bool \<times> 'm engine" where
  "settle key now_ms e =
     (if key \<in> set (settled_routes e) then (True, e)
      else
        let since = get_or now_ms (settling_since e) key;
            e1 = e\<lparr>settling_since := AList.update key since (settling_since e)\<rparr>
        in if sat_sub now_ms since \<ge> better_for_ms (cfg_route_selection (config e))
           then (True, e1\<lparr>settled_routes := List.insert key (settled_routes e1)\<rparr>)
           else (False, e1))"

definition new_switch :: "candidate \<Rightarrow> candidate \<Rightarrow> u64 \<Rightarrow> pending_switch" where
  "new_switch best current now_ms =
     \<lparr>pw_router_id = c_router_id best, pw_next_hop = c_next_hop best,
      pw_interface = c_interface best, pw_since_ms = now_ms,
      pw_current_peak_metric = c_metric current\<rparr>"

definition dwell :: "route_key \<Rightarrow> candidate \<Rightarrow> candidate \<Rightarrow> u64 \<Rightarrow> 'm engine \<Rightarrow> candidate \<times> 'm engine" where
  "dwell key best current now_ms e =
     (let selection = cfg_route_selection (config e);
          p0 = get_or (new_switch best current now_ms) (pending_switches e) key;
          p1 = (if pw_router_id p0 \<noteq> c_router_id best \<or> pw_next_hop p0 \<noteq> c_next_hop best
                   \<or> pw_interface p0 \<noteq> c_interface best
                then new_switch best current now_ms else p0);
          p2 = p1\<lparr>pw_current_peak_metric := max (pw_current_peak_metric p1) (c_metric current)\<rparr>;
          recovered = metric_improvement_is_significant (c_metric current)
                        (pw_current_peak_metric p2) selection;
          ready = (sat_sub now_ms (pw_since_ms p2) \<ge> better_for_ms selection)
      in if recovered
         then (current, e\<lparr>pending_switches := AList.update key
                 (p2\<lparr>pw_since_ms := now_ms, pw_current_peak_metric := c_metric current\<rparr>)
                 (pending_switches e)\<rparr>)
         else if ready then (best, e\<lparr>pending_switches := AList.delete key (pending_switches e)\<rparr>)
         else (current, e\<lparr>pending_switches := AList.update key p2 (pending_switches e)\<rparr>))"

definition choose_route ::
    "route_key \<Rightarrow> candidate option \<Rightarrow> candidate \<Rightarrow> u64 \<Rightarrow> 'm engine \<Rightarrow> candidate \<times> 'm engine" where
  "choose_route key current best now_ms e =
     (let (settled, e1) = settle key now_ms e;
          forget = (\<lambda>e. e\<lparr>pending_switches := AList.delete key (pending_switches e)\<rparr>);
          restart = (\<lambda>e. e\<lparr>settling_since := AList.update key now_ms (settling_since e)\<rparr>)
      in case current of
           Some cur \<Rightarrow>
             if same_candidate best cur
                \<or> \<not> sufficiently_better best cur (cfg_route_selection (config e1))
             then (cur, forget e1)
             else if \<not> settled then (best, restart (forget e1))
             else dwell key best cur now_ms e1
         | None \<Rightarrow> (best, if settled then forget e1 else restart (forget e1)))"

definition select_key ::
    "(route_key, selected_route) table \<Rightarrow> u64 \<Rightarrow> route_key \<times> candidate list
      \<Rightarrow> (route_key, selected_route) table \<times> 'm engine
      \<Rightarrow> (route_key, selected_route) table \<times> 'm engine" where
  "select_key before now_ms = (\<lambda>(key, routes) (next, e).
     case min_by_key candidate_order routes of
       None \<Rightarrow> (next, e)
     | Some best \<Rightarrow>
         let current = Option.bind (map_of before key)
               (\<lambda>route. List.find (\<lambda>c. is_selected_route c route) routes);
             (chosen, e') = choose_route key current best now_ms e
         in (bt_insert key (selected_from_candidate chosen) next, e'))"

section \<open>Reselection\<close>

text \<open>The deadlines until which the candidates of the lost keys are remembered.\<close>

definition note_expiry :: "route_key list \<Rightarrow> candidate \<Rightarrow> (route_key, u64) table \<Rightarrow> (route_key, u64) table" where
  "note_expiry removed c expiries =
     (if c_key c \<in> set removed
      then AList.update (c_key c)
             (case map_of expiries (c_key c) of
                None \<Rightarrow> c_expires_ms c | Some expiry \<Rightarrow> max expiry (c_expires_ms c)) expiries
      else expiries)"

definition hold_removed :: "'m env \<Rightarrow> route_key list \<Rightarrow> u64 \<Rightarrow> 'm engine \<Rightarrow> 'm engine" where
  "hold_removed E removed now_ms e =
     (let expiries = fold (note_expiry removed) (table_values (iter_candidates E (candidates e))) [];
          longest = longest_update_interval e;
          hold = (\<lambda>key stones.
            bt_insert key
              (max (max (get_or now_ms expiries key) (sat_add now_ms (ucast longest * 35)))
                   (get_or 0 (advertised_until e) key)) stones)
      in if removed = [] then e
         else e\<lparr>tombstones := fold hold (iter_key_set E removed) (tombstones e)\<rparr>)"

text \<open>Hysteresis state is kept for selected keys only.\<close>

definition retain_selected :: "'m engine \<Rightarrow> 'm engine" where
  "retain_selected e =
     (let keep = (\<lambda>key. contains_key (selected e) key)
      in e\<lparr>pending_switches := filter (\<lambda>(key, _). keep key) (pending_switches e),
           settling_since := filter (\<lambda>(key, _). keep key) (settling_since e),
           settled_routes := filter keep (settled_routes e)\<rparr>)"

definition select_routes :: "'m env \<Rightarrow> u64 \<Rightarrow> 'm engine \<Rightarrow> 'm engine" where
  "select_routes E now_ms e =
     (let (next, e1) = fold (select_key (selected e) now_ms) (grouped_candidates E e) ([], e);
          e2 = e1\<lparr>selected := next,
                  tombstones := fold AList.delete (table_keys next) (tombstones e1)\<rparr>;
          removed = filter (\<lambda>key. \<not> contains_key next key) (table_keys (selected e))
      in retain_selected (hold_removed E removed now_ms e2))"

text \<open>The keys lost by the selection, with the neighbour that is asked for a newer route.\<close>

definition request_targets ::
    "'m env \<Rightarrow> (route_key, selected_route) table \<Rightarrow> 'm engine \<Rightarrow> (route_key, neighbor_key) table" where
  "request_targets E before e =
     fold (\<lambda>((key, nk), c) targets.
         if contains_key before key \<and> \<not> contains_key (selected e) key
            \<and> c_metric c < INFINITY \<and> \<not> candidate_is_feasible e c
            \<and> \<not> contains_key targets key
         then AList.update key nk targets else targets)
       (iter_candidates E (candidates e)) []"

text \<open>Each key of \<open>before\<close> is visited once, so its target is looked up rather than removed.\<close>

definition retract_lost ::
    "(route_key, neighbor_key) table \<Rightarrow> u64 \<Rightarrow> route_key \<times> selected_route
      \<Rightarrow> action list \<times> 'm engine \<Rightarrow> action list \<times> 'm engine" where
  "retract_lost targets now_ms = (\<lambda>(key, previous) (actions, e).
     if contains_key (selected e) key then (actions, e)
     else
       let e1 = repeat_advertisement key now_ms e;
           actions1 = actions @ send_retraction e1 key (sel_seqno previous) now_ms;
           pending_key = (key, sel_router_id previous);
           requested_seqno =
             (case map_of (feasible e1) pending_key of
                None \<Rightarrow> sel_seqno previous + 1
              | Some entry \<Rightarrow> d_seqno (se_distance entry) + 1)
       in case (if contains_key (pending_seqno e1) pending_key then None else map_of targets key) of
            None \<Rightarrow> (actions1, e1)
          | Some next_hop \<Rightarrow>
              let (requests, e2) = originate_seqno_request
                    (recovery_request key (sel_router_id previous) requested_seqno next_hop) now_ms e1
              in (actions1 @ requests, e2))"

definition significant_change :: "(route_key, selected_route) table \<Rightarrow> route_key \<times> selected_route \<Rightarrow> bool" where
  "significant_change before = (\<lambda>(key, route).
     case map_of before key of
       None \<Rightarrow> True
     | Some old \<Rightarrow>
         sel_router_id old \<noteq> sel_router_id route
         \<or> abs_diff (sel_metric old) (sel_metric route) \<ge> 96
         \<or> (ucast (abs_diff (sel_metric old) (sel_metric route)) * 4 :: u32) \<ge> ucast (max (sel_metric old) 1))"

definition set_urgent :: "u64 \<Rightarrow> action \<Rightarrow> action" where
  "set_urgent now_ms a =
     (case a of Send interface dest p _ \<Rightarrow> Send interface dest p (urgent now_ms) | _ \<Rightarrow> a)"

definition finite_update :: "outbound_tlv \<Rightarrow> bool" where
  "finite_update tlv = (case tlv of OutUpdate update \<Rightarrow> ou_metric update \<noteq> INFINITY | _ \<Rightarrow> False)"

definition sends_finite_update :: "action \<Rightarrow> bool" where
  "sends_finite_update a =
     (case a of Send _ _ p _ \<Rightarrow> list_ex finite_update (out_tlvs p) | _ \<Rightarrow> False)"

definition advertise_changed ::
    "(route_key, selected_route) table \<Rightarrow> u64 \<Rightarrow> selected_route
      \<Rightarrow> action list \<times> 'm engine \<Rightarrow> action list \<times> 'm engine" where
  "advertise_changed before now_ms = (\<lambda>route (actions, e).
     let e1 = repeat_advertisement (sel_key route) now_ms e;
         sends = advertise_learned e1 route (sel_metric route) (Some (sel_interface route)) now_ms;
         sends' = (if (case map_of before (sel_key route) of
                         None \<Rightarrow> True
                       | Some previous \<Rightarrow> sel_router_id previous \<noteq> sel_router_id route)
                   then map (set_urgent now_ms) sends else sends);
         e2 = (if list_ex sends_finite_update sends'
               then maintain_source (sel_key route) (sel_router_id route)
                      \<lparr>d_seqno = sel_seqno route, d_metric = sel_metric route\<rparr> now_ms e1
               else e1)
     in (actions @ sends', e2))"

definition selected_delta ::
    "'m env \<Rightarrow> (route_key, selected_route) table \<Rightarrow> u64 \<Rightarrow> 'm engine \<Rightarrow> action list \<times> 'm engine" where
  "selected_delta E before now_ms e =
     (let targets = request_targets E before e;
          (actions, e1) = fold (retract_lost targets now_ms) before ([], e);
          changed = table_values (filter (significant_change before) (selected e1))
      in fold (advertise_changed before now_ms) changed (actions, e1))"

definition reselect :: "'m env \<Rightarrow> u64 \<Rightarrow> 'm engine \<Rightarrow> action list \<times> 'm engine" where
  "reselect E now_ms e =
     (let e1 = select_routes E now_ms e
      in if selected e1 \<noteq> selected e \<or> table_keys (tombstones e1) \<noteq> table_keys (tombstones e)
         then let (snapshot, e2) = route_snapshot e1;
                  (actions, e3) = selected_delta E (selected e) now_ms e2
              in (snapshot # actions, e3)
         else ([], e1))"

end
