(* ===== verification/Babel_Neighbors.thy ===== *)
theory Babel_Neighbors
  imports Babel_Rib
begin

text \<open>
  \<open>engine/neighbors.rs\<close>: what a received packet does to its sender's entry and to the routes,
  and the IHU messages sent back. The loops over the TLVs of a packet are folds of
  \<open>receive_hello\<close>, \<open>receive_ihu\<close> and \<open>receive_tlv\<close>.
\<close>

section \<open>Helpers\<close>

definition valid_cost :: "u16 \<Rightarrow> u16" where
  "valid_cost cost = (if cost = 0 then INFINITY else cost)"

definition ihu_applies :: "ip_addr option \<Rightarrow> ip_addr list \<Rightarrow> bool" where
  "ihu_applies address local_addresses =
     (case address of None \<Rightarrow> True | Some a \<Rightarrow> local_addresses = [] \<or> a \<in> set local_addresses)"

definition timestamp_hello :: "sub_tlv list \<Rightarrow> u32 option" where
  "timestamp_hello = find_map (\<lambda>s. case s of TimestampHello t \<Rightarrow> Some t | _ \<Rightarrow> None)"

definition timestamp_ihu :: "sub_tlv list \<Rightarrow> (u32 \<times> u32) option" where
  "timestamp_ihu = find_map (\<lambda>s. case s of TimestampIhu origin rcv \<Rightarrow> Some (origin, rcv) | _ \<Rightarrow> None)"

abbreviation (input) MAX_SAMPLE_AGE_US :: u32 where "MAX_SAMPLE_AGE_US \<equiv> 180000000"

definition valid_rtt_sample :: "u32 \<Rightarrow> u32 \<Rightarrow> u32 \<Rightarrow> u32 \<Rightarrow> u32 option" where
  "valid_rtt_sample now origin peer_sent peer_received =
     (let elapsed = now - origin; peer_delay = peer_sent - peer_received
      in if elapsed \<le> MAX_SAMPLE_AGE_US \<and> peer_delay \<le> MAX_SAMPLE_AGE_US \<and> elapsed \<ge> peer_delay
         then Some (elapsed - peer_delay) else None)"

section \<open>Status\<close>

definition neighbour_count :: "'m engine \<Rightarrow> nat" where
  "neighbour_count e = length (neighbours e)"

definition status_of :: "'m env \<Rightarrow> u64 \<Rightarrow> neighbor_key \<times> 'm neighbor \<Rightarrow> neighbor_status" where
  "status_of E now_ms = (\<lambda>(key, n).
     let m = metric_status_of (env_metric E) (nb_metric n);
         mc = multicast_history (nb_histories n);
         uc = unicast_history (nb_histories n)
     in \<lparr>ns_interface = nk_interface key, ns_address = nk_address key,
         ns_candidates = nb_candidates n, ns_rejected_candidates = nb_rejected_candidates n,
         ns_algorithm = ms_algorithm m,
         ns_hello_received = ucast (received_count 16 mc + received_count 16 uc),
         ns_hello_expected = ucast (observed mc + observed uc),
         ns_multicast_hello_history = hh_bits mc, ns_unicast_hello_history = hh_bits uc,
         ns_receive_cost = ms_receive_cost m, ns_transmit_cost = ms_transmit_cost m,
         ns_link_cost = ms_link_cost m, ns_last_rtt_us = ms_last_rtt_us m,
         ns_smoothed_rtt_us = ms_smoothed_rtt_us m, ns_rtt_penalty = ms_rtt_penalty m,
         ns_last_hello_age_ms = sat_sub now_ms (nb_last_hello_ms n)\<rparr>)"

definition neighbour_status :: "'m env \<Rightarrow> 'm engine \<Rightarrow> u64 \<Rightarrow> neighbor_status list" where
  "neighbour_status E e now_ms =
     sort_key (\<lambda>s. (ns_interface s, ns_address s))
       (map (status_of E now_ms) (iter_neighbours E (neighbours e)))"

section \<open>IHU messages\<close>

text \<open>The timestamps to echo.\<close>

definition echoed_timestamps :: "'m neighbor \<Rightarrow> (u32 \<times> u32) option" where
  "echoed_timestamps n =
     (case (nb_origin_timestamp n, nb_receive_timestamp n) of
        (Some origin, Some rcv) \<Rightarrow> Some (origin, rcv) | _ \<Rightarrow> None)"

text \<open>The next deadlines of the neighbour, and whether a timestamped unicast Hello goes first.\<close>

definition schedule_ihu ::
    "'m interface_policy \<Rightarrow> neighbor_key \<Rightarrow> u64 \<Rightarrow> u64 option \<Rightarrow> 'm neighbor \<Rightarrow> bool \<times> 'm neighbor" where
  "schedule_ihu policy key now_ms periodic_deadline n =
     (let interval_cs = sat_mul (ip_hello_interval_cs policy) 3;
          n1 = n\<lparr>nb_next_ihu_ms :=
             (case periodic_deadline of
                None \<Rightarrow> sat_add now_ms (ucast interval_cs * 10)
              | Some deadline \<Rightarrow> next_periodic_deadline deadline now_ms interval_cs)\<rparr>;
          send_probe = (case nb_next_rtt_probe_ms n1 of None \<Rightarrow> False
                        | Some deadline \<Rightarrow> now_ms \<ge> deadline);
          seqno = nb_unicast_hello_seqno n1 + 1
      in if send_probe
         then (True, n1\<lparr>nb_unicast_hello_seqno := seqno,
                        nb_next_rtt_probe_ms :=
                          (case rtt_probe_interval_ms (ip_metric policy) of
                             None \<Rightarrow> None
                           | Some interval \<Rightarrow> Some (recurring_probe_deadline now_ms interval key seqno))\<rparr>)
         else if timestamps_enabled (ip_metric policy) \<and> echoed_timestamps n \<noteq> None
         then (True, n1\<lparr>nb_unicast_hello_seqno := seqno\<rparr>)
         else (False, n1))"

definition ihu_action ::
    "'m env \<Rightarrow> neighbor_key \<Rightarrow> u64 \<Rightarrow> u64 option \<Rightarrow> 'm engine \<Rightarrow> action option \<times> 'm engine" where
  "ihu_action E key now_ms periodic_deadline e =
     (case (map_of (interfaces e) (nk_interface key), map_of (neighbours e) key) of
        (Some state, Some n) \<Rightarrow>
          (let policy = if_policy state;
               rxcost = valid_cost (receive_cost (env_metric E) (nb_metric n));
               (send_hello, n') = schedule_ihu policy key now_ms periodic_deadline n;
               hello = (if send_hello
                        then [OutHello True (nb_unicast_hello_seqno n') 0
                                [TimestampHello (timestamp_us now_ms)]]
                        else []);
               subs = (if timestamps_enabled (ip_metric policy)
                       then (case echoed_timestamps n of None \<Rightarrow> []
                             | Some (origin, rcv) \<Rightarrow> [TimestampIhu origin rcv])
                       else [])
           in (Some (Send (nk_interface key) (nk_address key)
                       \<lparr>out_tlvs = hello @ [OutIhu None rxcost (sat_mul (ip_hello_interval_cs policy) 3) subs]\<rparr>
                       (case periodic_deadline of
                          None \<Rightarrow> triggered now_ms (ip_hello_interval_cs policy)
                        | Some deadline \<Rightarrow> by_deadline now_ms deadline)),
               modify_neighbour key (\<lambda>_. n') e))
      | _ \<Rightarrow> (None, e))"

section \<open>Hellos\<close>

definition probe_start :: "'m metric_profile \<Rightarrow> u64 \<Rightarrow> neighbor_key \<Rightarrow> u64 option" where
  "probe_start profile now_ms key =
     (case rtt_probe_interval_ms profile of
        None \<Rightarrow> None
      | Some interval \<Rightarrow> Some (initial_probe_deadline now_ms interval key))"

definition fresh_neighbor :: "'m metric_profile \<Rightarrow> u16 \<Rightarrow> u64 \<Rightarrow> neighbor_key \<Rightarrow> 'm neighbor" where
  "fresh_neighbor profile hello_interval_cs now_ms key =
     \<lparr>nb_candidates = 0, nb_rejected_candidates = 0, nb_last_hello_ms = now_ms,
      nb_histories = hello_histories_default, nb_multicast_timer = None, nb_unicast_timer = None,
      nb_last_ihu_ms = None, nb_last_ihu_cost = None,
      nb_ihu_interval_cs = sat_mul hello_interval_cs 3, nb_next_ihu_ms = now_ms,
      nb_next_rtt_probe_ms = probe_start profile now_ms key,
      nb_origin_timestamp = None, nb_receive_timestamp = None, nb_unicast_hello_seqno = 0,
      nb_metric = new_neighbor profile (nk_interface key)\<rparr>"

definition record_in :: "bool \<Rightarrow> u16 \<Rightarrow> hello_histories \<Rightarrow> hello_histories \<times> hello_history_update" where
  "record_in unicast seqno hs =
     (if unicast
      then case record_hello seqno (unicast_history hs) of
             (h, u) \<Rightarrow> (hs\<lparr>unicast_history := h\<rparr>, u)
      else case record_hello seqno (multicast_history hs) of
             (h, u) \<Rightarrow> (hs\<lparr>multicast_history := h\<rparr>, u))"

text \<open>A neighbour whose sequence numbers jumped has restarted: everything observed is forgotten.\<close>

definition restart_neighbor ::
    "'m metric_profile \<Rightarrow> u64 \<Rightarrow> neighbor_key \<Rightarrow> bool \<Rightarrow> u16 \<Rightarrow> 'm neighbor \<Rightarrow> 'm neighbor" where
  "restart_neighbor profile now_ms key unicast seqno n =
     n\<lparr>nb_histories := fst (record_in unicast seqno hello_histories_default),
       nb_multicast_timer := None, nb_unicast_timer := None,
       nb_last_ihu_ms := None, nb_last_ihu_cost := None, nb_next_ihu_ms := now_ms,
       nb_next_rtt_probe_ms := probe_start profile now_ms key,
       nb_origin_timestamp := None, nb_receive_timestamp := None,
       nb_unicast_hello_seqno := 0, nb_metric := new_neighbor profile (nk_interface key)\<rparr>"

definition hear_hello ::
    "'m env \<Rightarrow> 'm metric_profile \<Rightarrow> neighbor_key \<Rightarrow> u64 \<Rightarrow> u32 \<Rightarrow> bool \<Rightarrow> u16 \<Rightarrow> u16 \<Rightarrow> sub_tlv list
      \<Rightarrow> 'm neighbor \<Rightarrow> bool \<times> 'm neighbor" where
  "hear_hello E profile key now_ms receive_timestamp unicast seqno interval_cs subs n =
     (let M = env_metric E;
          previous_receive_cost = receive_cost M (nb_metric n);
          (hs, update) = (if interval_cs \<noteq> 0
                          then (case record_in unicast seqno (nb_histories n) of (hs, u) \<Rightarrow> (hs, Some u))
                          else (nb_histories n, None));
          n1 = n\<lparr>nb_histories := hs\<rparr>;
          n2 = (if update = Some Restarted
                then restart_neighbor profile now_ms key unicast seqno n1 else n1);
          n3 = n2\<lparr>nb_metric := on_hello M (nb_histories n2) (nb_metric n2), nb_last_hello_ms := now_ms\<rparr>;
          timer = Some \<lparr>ht_interval_cs = interval_cs,
                        ht_next_expiry_ms = sat_add now_ms (sat_mul (ucast interval_cs) 15)\<rparr>;
          n4 = (if interval_cs \<noteq> 0
                then if unicast then n3\<lparr>nb_unicast_timer := timer\<rparr> else n3\<lparr>nb_multicast_timer := timer\<rparr>
                else n3);
          n5 = (case timestamp_hello subs of
                  None \<Rightarrow> n4
                | Some timestamp \<Rightarrow> n4\<lparr>nb_origin_timestamp := Some timestamp,
                                       nb_receive_timestamp := Some receive_timestamp\<rparr>);
          mc = multicast_history (nb_histories n5)
      in (receive_cost M (nb_metric n5) \<noteq> previous_receive_cost \<or> now_ms \<ge> nb_next_ihu_ms n5
          \<or> received_count 16 mc < observed mc, n5))"

definition receive_hello ::
    "'m env \<Rightarrow> 'm metric_profile \<Rightarrow> u16 \<Rightarrow> neighbor_key \<Rightarrow> u64 \<Rightarrow> u32 \<Rightarrow> tlv
      \<Rightarrow> bool \<times> 'm engine \<Rightarrow> bool \<times> 'm engine" where
  "receive_hello E profile hello_interval_cs key now_ms receive_timestamp = (\<lambda>tlv (send_ihu, e).
     case tlv of
       Hello unicast seqno interval_cs subs \<Rightarrow>
         (let n = get_or (fresh_neighbor profile hello_interval_cs now_ms key) (neighbours e) key;
              (due, n') = hear_hello E profile key now_ms receive_timestamp unicast seqno interval_cs subs n
          in (send_ihu \<or> due, e\<lparr>neighbours := AList.update key n' (neighbours e)\<rparr>))
     | _ \<Rightarrow> (send_ihu, e))"

definition receive_ihu ::
    "'m env \<Rightarrow> ip_addr list \<Rightarrow> neighbor_key \<Rightarrow> u64 \<Rightarrow> tlv \<Rightarrow> 'm engine \<Rightarrow> 'm engine" where
  "receive_ihu E local_addresses key now_ms = (\<lambda>tlv e.
     case tlv of
       Ihu address rxcost interval_cs subs \<Rightarrow>
         if interval_cs \<noteq> 0 \<and> ihu_applies address local_addresses
         then modify_neighbour key
                (\<lambda>n. n\<lparr>nb_metric := on_ihu (env_metric E) rxcost (nb_metric n),
                       nb_last_ihu_ms := Some now_ms, nb_last_ihu_cost := Some rxcost,
                       nb_ihu_interval_cs := interval_cs\<rparr>) e
         else e
     | _ \<Rightarrow> e)"

text \<open>The round-trip sample of a packet with a timestamped Hello and an IHU that echoes ours.\<close>

definition packet_rtt_sample :: "ip_addr list \<Rightarrow> u32 \<Rightarrow> tlv list \<Rightarrow> u32 option" where
  "packet_rtt_sample local_addresses receive_timestamp ts =
     (let hello_timestamp = find_map (\<lambda>t. case t of Hello _ _ _ subs \<Rightarrow> timestamp_hello subs | _ \<Rightarrow> None) ts;
          echoed_timestamps = find_map (\<lambda>t. case t of
              Ihu address _ _ subs \<Rightarrow> if ihu_applies address local_addresses then timestamp_ihu subs else None
            | _ \<Rightarrow> None) ts
      in case (hello_timestamp, echoed_timestamps) of
           (Some peer_sent, Some (origin, peer_received)) \<Rightarrow>
             valid_rtt_sample receive_timestamp origin peer_sent peer_received
         | _ \<Rightarrow> None)"

section \<open>A received packet\<close>

text \<open>The neighbour's part of \<open>receive\<close>: Hellos, round-trip sample, IHUs. The result says whether
  an IHU is due.\<close>

definition observe_packet ::
    "'m env \<Rightarrow> 'm interface_state \<Rightarrow> neighbor_key \<Rightarrow> packet \<Rightarrow> u64 \<Rightarrow> u32
      \<Rightarrow> 'm engine \<Rightarrow> bool \<times> 'm engine" where
  "observe_packet E state key p now_ms receive_timestamp e =
     (let profile = ip_metric (if_policy state);
          (send_ihu, e1) =
            fold (receive_hello E profile (ip_hello_interval_cs (if_policy state)) key now_ms receive_timestamp)
              (tlvs p) (False, e);
          e2 = (case packet_rtt_sample (if_local_addresses state) receive_timestamp (tlvs p) of
                  None \<Rightarrow> e1
                | Some sample \<Rightarrow>
                    if timestamps_enabled profile
                    then modify_neighbour key
                           (\<lambda>n. n\<lparr>nb_metric := on_rtt_sample (env_metric E) sample now_ms (nb_metric n)\<rparr>) e1
                    else e1)
      in (send_ihu, fold (receive_ihu E (if_local_addresses state) key now_ms) (tlvs p) e2))"

text \<open>The state of the last loop of \<open>receive\<close>.\<close>

record 'm reception =
  rx_actions :: "action list"
  rx_routes_changed :: bool
  rx_changed_router_ids :: "route_key list"
  rx_engine :: "'m engine"

definition router_id_change :: "'m engine \<Rightarrow> neighbor_key \<Rightarrow> resolved_update \<Rightarrow> route_key option" where
  "router_id_change e nk update =
     (if ru_metric update < INFINITY
      then case (ru_key update, ru_router_id update) of
             (Some key, Some router_id) \<Rightarrow>
               (case map_of (candidates e) (key, nk) of
                  None \<Rightarrow> None
                | Some c \<Rightarrow> if c_router_id c \<noteq> router_id then Some key else None)
           | _ \<Rightarrow> None
      else None)"

definition receive_tlv ::
    "'m env \<Rightarrow> neighbor_key \<Rightarrow> u64 \<Rightarrow> tlv \<Rightarrow> 'm reception \<Rightarrow> 'm reception" where
  "receive_tlv E nk now_ms t r =
     (let e = rx_engine r
      in case t of
        AckRequest nonce interval_cs \<Rightarrow>
          r\<lparr>rx_actions := rx_actions r @
              [Send (nk_interface nk) (nk_address nk) \<lparr>out_tlvs = [OutAck nonce]\<rparr>
                (by_deadline now_ms (sat_add now_ms (ucast interval_cs * 10)))]\<rparr>
      | Update update \<Rightarrow>
          (let ids = (case router_id_change e nk update of
                        None \<Rightarrow> rx_changed_router_ids r
                      | Some key \<Rightarrow> List.insert key (rx_changed_router_ids r))
           in case receive_update E nk update now_ms e of ((changed, updates), e') \<Rightarrow>
                r\<lparr>rx_actions := rx_actions r @ updates,
                  rx_routes_changed := (rx_routes_changed r \<or> changed),
                  rx_changed_router_ids := ids, rx_engine := e'\<rparr>)
      | RouteRequest (Some key) _ \<Rightarrow>
          (case reply_to_route_request key nk now_ms e of (a, e') \<Rightarrow>
             r\<lparr>rx_routes_changed := True, rx_actions := rx_actions r @ [a], rx_engine := e'\<rparr>)
      | RouteRequest None _ \<Rightarrow>
          if full_update_request_allowed e (nk_interface nk) now_ms
          then (case send_updates now_ms None (Some (nk_interface nk)) (Some (urgent now_ms)) e of
                  (updates, e') \<Rightarrow>
                    r\<lparr>rx_routes_changed := True, rx_actions := rx_actions r @ updates, rx_engine := e'\<rparr>)
          else r\<lparr>rx_routes_changed := True\<rparr>
      | SeqnoRequest key seqno hop_count router_id _ \<Rightarrow>
          (case handle_seqno_request E nk key seqno hop_count router_id now_ms e of (replies, e') \<Rightarrow>
             r\<lparr>rx_routes_changed := True, rx_actions := rx_actions r @ replies, rx_engine := e'\<rparr>)
      | _ \<Rightarrow> r)"

text \<open>A timely update for every route entry whose router identity changed.\<close>

definition announce_router_id_change ::
    "u64 \<Rightarrow> route_key \<Rightarrow> action list \<times> 'm engine \<Rightarrow> action list \<times> 'm engine" where
  "announce_router_id_change now_ms = (\<lambda>key (actions, e).
     if contains_key (originated e) key \<or> contains_key (selected e) key
     then let (updates, e') = send_updates now_ms (Some key) None (Some (urgent now_ms)) e
          in (actions @ updates, e')
     else (actions @ send_retraction e key (sequence_number e) now_ms, e))"

text \<open>The route part of \<open>receive\<close>, after the neighbour's: its TLVs in order, reselection if an
  input changed, and the announcements of changed router identities.\<close>

definition process_tlvs ::
    "'m env \<Rightarrow> neighbor_key \<Rightarrow> packet \<Rightarrow> u64 \<Rightarrow> action list \<Rightarrow> bool \<Rightarrow> 'm engine \<Rightarrow> action list \<times> 'm engine" where
  "process_tlvs E nk p now_ms actions routes_changed e =
     (let r = fold (receive_tlv E nk now_ms) (tlvs p)
            \<lparr>rx_actions = actions, rx_routes_changed = routes_changed,
             rx_changed_router_ids = [], rx_engine = e\<rparr>;
          (reselected, e1) = (if rx_routes_changed r then reselect E now_ms (rx_engine r)
                              else ([], rx_engine r))
      in fold (announce_router_id_change now_ms) (iter_key_set E (rx_changed_router_ids r))
           (rx_actions r @ reselected, e1))"

definition neighbour_link_cost :: "'m env \<Rightarrow> 'm engine \<Rightarrow> neighbor_key \<Rightarrow> u16 option" where
  "neighbour_link_cost E e nk =
     map_option (\<lambda>n. link_cost (env_metric E) (nb_metric n)) (map_of (neighbours e) nk)"

definition is_hello :: "tlv \<Rightarrow> bool" where
  "is_hello t = (case t of Hello _ _ _ _ \<Rightarrow> True | _ \<Rightarrow> False)"

definition receive ::
    "'m env \<Rightarrow> string \<Rightarrow> ip_addr \<Rightarrow> packet \<Rightarrow> u64 \<Rightarrow> u32 \<Rightarrow> 'm engine \<Rightarrow> action list \<times> 'm engine" where
  "receive E interface src p now_ms receive_timestamp e =
     (case map_of (interfaces e) interface of
        None \<Rightarrow> ([], e)
      | Some state \<Rightarrow>
          if is_ipv4 (multicast (ip_control_transport (if_policy state))) \<noteq> is_ipv4 src then ([], e)
          else
            let nk = NeighborKey interface src
            in if \<not> contains_key (neighbours e) nk
                  \<and> length (neighbours e) \<ge> max_neighbors (cfg_limits (config e))
                  \<and> list_ex is_hello (tlvs p)
               then ([], e\<lparr>resources := (resources e)\<lparr>rejected_neighbors :=
                             sat_add (rejected_neighbors (resources e)) 1\<rparr>\<rparr>)
               else
                 let previous_link_cost = neighbour_link_cost E e nk;
                     (send_ihu, e1) = observe_packet E state nk p now_ms receive_timestamp e;
                     (routes_changed, e2) =
                       (if previous_link_cost \<noteq> neighbour_link_cost E e1 nk
                        then recompute_candidate_metrics E (Some nk) e1 else (False, e1));
                     (ihu, e3) = (if send_ihu then ihu_action E nk now_ms None e2 else (None, e2))
                 in process_tlvs E nk p now_ms (case ihu of None \<Rightarrow> [] | Some a \<Rightarrow> [a]) routes_changed e3)"

end
