(* ===== verification/Babel_Timers.thy ===== *)
theory Babel_Timers
  imports Babel_Neighbors
begin

text \<open>
  \<open>engine/timers.rs\<close>, \<open>tick\<close>: expiry of neighbours, candidates, sources and requests, then the
  periodic output. Each phase of the method is one definition; \<open>tick\<close> runs them in order.
\<close>

section \<open>Expiry\<close>

text \<open>The Hello timers of one neighbour; the result says whether its receive cost changed.\<close>

definition advance_neighbour :: "'m env \<Rightarrow> u64 \<Rightarrow> 'm neighbor \<Rightarrow> bool \<times> 'm neighbor" where
  "advance_neighbour E now_ms n =
     (let M = env_metric E;
          hs = nb_histories n;
          (mt, mh) = advance_hello_timer now_ms (nb_multicast_timer n, multicast_history hs);
          (ut, uh) = advance_hello_timer now_ms (nb_unicast_timer n, unicast_history hs);
          hs' = hs\<lparr>multicast_history := mh, unicast_history := uh\<rparr>;
          n1 = n\<lparr>nb_multicast_timer := mt, nb_unicast_timer := ut, nb_histories := hs',
                 nb_metric := on_hello M hs' (nb_metric n)\<rparr>
      in if receive_cost M (nb_metric n1) \<noteq> receive_cost M (nb_metric n)
         then (True, n1\<lparr>nb_next_ihu_ms := now_ms\<rparr>) else (False, n1))"

definition tick_hellos :: "'m env \<Rightarrow> u64 \<Rightarrow> 'm engine \<Rightarrow> neighbor_key list \<times> 'm engine" where
  "tick_hellos E now_ms e =
     (table_keys (filter (\<lambda>(_, n). fst (advance_neighbour E now_ms n)) (neighbours e)),
      e\<lparr>neighbours := map_values (\<lambda>_ n. snd (advance_neighbour E now_ms n)) (neighbours e)\<rparr>)"

definition remove_neighbour :: "neighbor_key \<Rightarrow> 'm engine \<Rightarrow> 'm engine" where
  "remove_neighbour key e =
     e\<lparr>neighbours := AList.delete key (neighbours e),
       candidates := filter (\<lambda>((_, n), _). n \<noteq> key) (candidates e)\<rparr>"

definition silent :: "'m neighbor \<Rightarrow> bool" where
  "silent n \<longleftrightarrow> hello_is_empty (multicast_history (nb_histories n))
             \<and> hello_is_empty (unicast_history (nb_histories n))"

definition tick_neighbours :: "'m env \<Rightarrow> 'm engine \<Rightarrow> bool \<times> 'm engine" where
  "tick_neighbours E e =
     (let expired = table_keys (filter (\<lambda>(_, n). silent n) (iter_neighbours E (neighbours e)))
      in (expired \<noteq> [], fold remove_neighbour expired e))"

definition ihu_expired :: "u64 \<Rightarrow> 'm neighbor \<Rightarrow> bool" where
  "ihu_expired now_ms n =
     (case nb_last_ihu_ms n of
        None \<Rightarrow> False
      | Some ihu_ms \<Rightarrow> now_ms > sat_add ihu_ms (ucast (nb_ihu_interval_cs n) * 35))"

definition forget_ihu :: "'m env \<Rightarrow> 'm neighbor \<Rightarrow> 'm neighbor" where
  "forget_ihu E n =
     n\<lparr>nb_last_ihu_ms := None, nb_last_ihu_cost := None,
       nb_metric := on_ihu (env_metric E) INFINITY (nb_metric n)\<rparr>"

definition tick_ihus :: "'m env \<Rightarrow> u64 \<Rightarrow> 'm engine \<Rightarrow> neighbor_key list \<times> 'm engine" where
  "tick_ihus E now_ms e =
     (table_keys (filter (\<lambda>(_, n). ihu_expired now_ms n) (neighbours e)),
      e\<lparr>neighbours := map_values (\<lambda>_ n. if ihu_expired now_ms n then forget_ihu E n else n) (neighbours e)\<rparr>)"

text \<open>An expired route is first retracted and kept for another hold time, then removed.\<close>

definition expire_candidate :: "u64 \<Rightarrow> (route_key \<times> neighbor_key) \<times> bool \<Rightarrow> 'm engine \<Rightarrow> 'm engine" where
  "expire_candidate now_ms = (\<lambda>(key, was_retracted) e.
     if was_retracted
     then modify_neighbour (snd key) (\<lambda>n. n\<lparr>nb_candidates := nb_candidates n - 1\<rparr>)
            (e\<lparr>candidates := AList.delete key (candidates e)\<rparr>)
     else e\<lparr>candidates := modify key
            (\<lambda>route. (retracted route)\<lparr>c_expires_ms :=
                sat_add now_ms (sat_mul (ucast (c_interval_cs route)) 35)\<rparr>) (candidates e)\<rparr>)"

definition tick_candidates :: "'m env \<Rightarrow> u64 \<Rightarrow> 'm engine \<Rightarrow> bool \<times> 'm engine" where
  "tick_candidates E now_ms e =
     (let expired = map (\<lambda>(key, route). (key, c_metric route = INFINITY))
            (filter (\<lambda>(_, route). c_expires_ms route < now_ms) (iter_candidates E (candidates e)))
      in (expired \<noteq> [], fold (expire_candidate now_ms) expired e))"

text \<open>A selected route about to expire is asked for once.\<close>

definition needs_refresh :: "'m engine \<Rightarrow> u64 \<Rightarrow> (route_key \<times> neighbor_key) \<times> candidate \<Rightarrow> bool" where
  "needs_refresh e now_ms = (\<lambda>((key, _), c).
     (case map_of (selected e) key of None \<Rightarrow> False | Some route \<Rightarrow> is_selected_route c route)
     \<and> c_metric c < INFINITY \<and> \<not> c_refresh_requested c
     \<and> sat_add now_ms (sat_mul (ucast (c_interval_cs c)) 10) \<ge> c_expires_ms c)"

definition refresh_action :: "'m engine \<Rightarrow> u64 \<Rightarrow> route_key \<times> neighbor_key \<Rightarrow> action" where
  "refresh_action e now_ms = (\<lambda>(key, nk).
     Send (nk_interface nk) (nk_address nk) \<lparr>out_tlvs = [OutRouteRequest (Some key) []]\<rparr>
       (triggered now_ms (interface_hello_interval e (nk_interface nk))))"

definition tick_refresh :: "'m env \<Rightarrow> u64 \<Rightarrow> 'm engine \<Rightarrow> action list \<times> 'm engine" where
  "tick_refresh E now_ms e =
     (map (\<lambda>(key, _). refresh_action e now_ms key)
        (filter (needs_refresh e now_ms) (iter_candidates E (candidates e))),
      e\<lparr>candidates := map_values
          (\<lambda>key c. if needs_refresh e now_ms (key, c) then c\<lparr>c_refresh_requested := True\<rparr> else c)
          (candidates e)\<rparr>)"

text \<open>Garbage collection. The results say whether a tombstone and whether a source expired.\<close>

definition tick_collect :: "u64 \<Rightarrow> 'm engine \<Rightarrow> bool \<times> bool \<times> 'm engine" where
  "tick_collect now_ms e =
     (let stones = filter (\<lambda>(_, expires). expires \<ge> now_ms) (tombstones e);
          sources = filter (\<lambda>(_, entry). se_expires_ms entry \<ge> now_ms) (feasible e)
      in (length (tombstones e) \<noteq> length stones, length sources \<noteq> length (feasible e),
          e\<lparr>tombstones := stones,
            advertised_until := filter (\<lambda>(_, until). until \<ge> now_ms) (advertised_until e),
            feasible := sources,
            recent_seqno := filter (\<lambda>(_, _, expires_ms). expires_ms \<ge> now_ms) (recent_seqno e)\<rparr>))"

definition tick_recompute :: "'m env \<Rightarrow> neighbor_key \<Rightarrow> bool \<times> 'm engine \<Rightarrow> bool \<times> 'm engine" where
  "tick_recompute E = (\<lambda>key (changed, e).
     let (c, e') = recompute_candidate_metrics E (Some key) e in (changed \<or> c, e'))"

definition is_routes_changed :: "action \<Rightarrow> bool" where
  "is_routes_changed a = (case a of RoutesChanged _ _ _ \<Rightarrow> True | _ \<Rightarrow> False)"

text \<open>Everything \<open>tick\<close> does before its periodic output.\<close>

definition tick_expiry :: "'m env \<Rightarrow> u64 \<Rightarrow> 'm engine \<Rightarrow> action list \<times> 'm engine" where
  "tick_expiry E now_ms e =
     (let (heard, e1) = tick_hellos E now_ms e;
          (lost, e2) = tick_neighbours E e1;
          (unheard, e3) = tick_ihus E now_ms e2;
          (expired, e4) = tick_candidates E now_ms e3;
          (refresh_actions, e5) = tick_refresh E now_ms e4;
          (stones, sources, e6) = tick_collect now_ms e5;
          changed_neighbours = fold List.insert unheard heard;
          (changed, e7) = fold (tick_recompute E) (iter_neighbour_set E changed_neighbours)
                            (lost \<or> expired \<or> stones \<or> sources, e6);
          (actions, e8) = (if changed \<or> pending_switches e7 \<noteq> [] then reselect E now_ms e7 else ([], e7));
          (actions', e9) =
            (if length (tombstones e5) \<noteq> length (tombstones e8) \<and> \<not> list_ex is_routes_changed actions
             then let (snapshot, e') = route_snapshot e8 in (actions @ [snapshot], e')
             else (actions, e8))
      in (actions' @ refresh_actions, e9))"

section \<open>Retries and repeats\<close>

definition retry_request ::
    "u64 \<Rightarrow> (route_key \<times> router_id) \<times> pending_seqno_request
      \<Rightarrow> action list \<times> 'm engine \<Rightarrow> action list \<times> 'm engine" where
  "retry_request now_ms = (\<lambda>(pending_key, pending) (actions, e).
     if ps_retries_left pending = 0
     then (actions,
           e\<lparr>pending_seqno := AList.delete pending_key (pending_seqno e),
             recent_seqno := AList.update pending_key
               (ps_seqno pending, sat_add now_ms RECENT_REQUEST_MS) (recent_seqno e)\<rparr>)
     else (actions @ [seqno_request_action (fst pending_key) (snd pending_key) (ps_seqno pending)
                        (ps_hop_count pending) (ps_next_hop pending) now_ms],
           e\<lparr>pending_seqno := modify pending_key
               (\<lambda>p. let attempt = sat_sub REQUEST_RETRIES (ps_retries_left p)
                    in p\<lparr>ps_retries_left := ps_retries_left p - 1,
                         ps_next_retry_ms := sat_add now_ms
                           (sat_mul REQUEST_RETRY_INITIAL_MS (push_bit (unat (attempt + 1)) 1))\<rparr>)
               (pending_seqno e)\<rparr>))"

definition tick_requests :: "'m env \<Rightarrow> u64 \<Rightarrow> action list \<times> 'm engine \<Rightarrow> action list \<times> 'm engine" where
  "tick_requests E now_ms = (\<lambda>(actions, e).
     fold (retry_request now_ms)
       (filter (\<lambda>(_, pending). now_ms \<ge> ps_next_retry_ms pending) (iter_requests E (pending_seqno e)))
       (actions, e))"

definition repeat_update :: "u64 \<Rightarrow> route_key \<Rightarrow> action list \<times> 'm engine \<Rightarrow> action list \<times> 'm engine" where
  "repeat_update now_ms = (\<lambda>key (actions, e).
     case map_of (pending_advertisements e) key of
       None \<Rightarrow> (actions, e)
     | Some (_, left) \<Rightarrow>
         let e1 = e\<lparr>pending_advertisements := AList.delete key (pending_advertisements e)\<rparr>;
             (updates, e2) = send_updates now_ms (Some key) None (Some (urgent now_ms)) e1;
             e3 = (if left > 1
                   then e2\<lparr>pending_advertisements :=
                          bt_insert key (sat_add now_ms 1000, left - 1) (pending_advertisements e2)\<rparr>
                   else e2)
         in (actions @ updates, e3))"

definition tick_repeats :: "u64 \<Rightarrow> action list \<times> 'm engine \<Rightarrow> action list \<times> 'm engine" where
  "tick_repeats now_ms = (\<lambda>(actions, e).
     fold (repeat_update now_ms)
       (table_keys (filter (\<lambda>(_, deadline, _). now_ms \<ge> deadline) (pending_advertisements e)))
       (actions, e))"

section \<open>Periodic output\<close>

definition ihus_due :: "'m env \<Rightarrow> u64 \<Rightarrow> 'm engine \<Rightarrow> (neighbor_key \<times> u64 option) list" where
  "ihus_due E now_ms e =
     (let ns = iter_neighbours E (neighbours e);
          regular = map (\<lambda>(key, n). (key, Some (nb_next_ihu_ms n)))
            (filter (\<lambda>(_, n). periodic_window_open now_ms (nb_next_ihu_ms n)) ns);
          probes = map (\<lambda>(key, _). (key, None))
            (filter (\<lambda>(key, n). key \<notin> fst ` set regular
                \<and> (case nb_next_rtt_probe_ms n of None \<Rightarrow> False | Some deadline \<Rightarrow> now_ms \<ge> deadline)) ns)
      in regular @ take MAX_RTT_PROBES_PER_TICK probes)"

definition send_ihu :: "'m env \<Rightarrow> u64 \<Rightarrow> neighbor_key \<times> u64 option
    \<Rightarrow> action list \<times> 'm engine \<Rightarrow> action list \<times> 'm engine" where
  "send_ihu E now_ms = (\<lambda>(key, deadline) (actions, e).
     case ihu_action E key now_ms deadline e of
       (None, e') \<Rightarrow> (actions, e')
     | (Some a, e') \<Rightarrow> (actions @ [a], e'))"

definition tick_send_ihus :: "'m env \<Rightarrow> u64 \<Rightarrow> action list \<times> 'm engine \<Rightarrow> action list \<times> 'm engine" where
  "tick_send_ihus E now_ms = (\<lambda>(actions, e). fold (send_ihu E now_ms) (ihus_due E now_ms e) (actions, e))"

text \<open>The deadlines of one interface: which of its Hello and its full update is due.\<close>

definition advance_interface ::
    "u64 \<Rightarrow> 'm interface_state \<Rightarrow> u64 option \<times> u64 option \<times> 'm interface_state" where
  "advance_interface now_ms s =
     (let (hello_deadline, s1) =
        (if periodic_window_open now_ms (if_next_hello_ms s)
         then (Some (if_next_hello_ms s),
               s\<lparr>if_hello_seqno := if_hello_seqno s + 1,
                 if_next_hello_ms := next_periodic_deadline (if_next_hello_ms s) now_ms
                                       (ip_hello_interval_cs (if_policy s))\<rparr>)
         else (None, s));
          (update_deadline, s2) =
        (if periodic_window_open now_ms (if_next_update_ms s1)
         then (Some (if_next_update_ms s1),
               s1\<lparr>if_next_update_ms := next_periodic_deadline (if_next_update_ms s1) now_ms
                                        (ip_update_interval_cs (if_policy s1))\<rparr>)
         else (None, s1))
      in (hello_deadline, update_deadline, s2))"

definition tick_interface :: "u64 \<Rightarrow> string \<Rightarrow> action list \<times> 'm engine \<Rightarrow> action list \<times> 'm engine" where
  "tick_interface now_ms = (\<lambda>interface (actions, e).
     case map_of (interfaces e) interface of
       None \<Rightarrow> (actions, e)
     | Some s \<Rightarrow>
         let (hello_deadline, update_deadline, s') = advance_interface now_ms s;
             e1 = e\<lparr>interfaces := modify interface (\<lambda>_. s') (interfaces e)\<rparr>;
             policy = if_policy s';
             actions1 =
               (case hello_deadline of
                  None \<Rightarrow> actions
                | Some deadline \<Rightarrow>
                    actions @ [Send interface (multicast (ip_control_transport policy))
                      \<lparr>out_tlvs = [OutHello False (if_hello_seqno s') (ip_hello_interval_cs policy)
                         (if timestamps_enabled (ip_metric policy)
                          then [TimestampHello (timestamp_us now_ms)] else [])]\<rparr>
                      (by_deadline now_ms deadline)])
         in case update_deadline of
              None \<Rightarrow> (actions1, e1)
            | Some deadline \<Rightarrow>
                let (updates, e2) = send_updates now_ms None (Some interface)
                      (Some (by_deadline now_ms deadline)) e1
                in (actions1 @ updates, e2))"

definition tick_interfaces :: "u64 \<Rightarrow> action list \<times> 'm engine \<Rightarrow> action list \<times> 'm engine" where
  "tick_interfaces now_ms = (\<lambda>(actions, e).
     fold (tick_interface now_ms) (table_keys (interfaces e)) (actions, e))"

definition tick :: "'m env \<Rightarrow> u64 \<Rightarrow> 'm engine \<Rightarrow> action list \<times> 'm engine" where
  "tick E now_ms e =
     tick_interfaces now_ms
       (tick_send_ihus E now_ms
         (tick_repeats now_ms
           (tick_requests E now_ms
             (tick_expiry E now_ms e))))"

end
