(* ===== verification/Babel_Engine.thy ===== *)
theory Babel_Engine
  imports Babel_Timers
begin

text \<open>
  The events of the engine: interface lifecycle (\<open>engine/interfaces.rs\<close>), replacement of the
  route policy (\<open>engine/policy.rs\<close>), local origins and the dispatcher (\<open>engine.rs\<close>).
\<close>

section \<open>Interfaces\<close>

definition default_interface_policy :: "'m engine \<Rightarrow> 'm interface_policy" where
  "default_interface_policy e =
     \<lparr>ip_control_transport = TransportIpv6, ip_ipv4_next_hop = NextHopAuto,
      ip_metric = cfg_metric (config e), ip_hello_interval_cs = cfg_hello_interval_cs (config e),
      ip_update_interval_cs = cfg_update_interval_cs (config e), ip_split_horizon = True\<rparr>"

text \<open>The request for all routes that is sent on an interface.\<close>

definition wildcard_request :: "string \<Rightarrow> 'm interface_state \<Rightarrow> u64 \<Rightarrow> action" where
  "wildcard_request interface state now_ms =
     Send interface (multicast (ip_control_transport (if_policy state)))
       \<lparr>out_tlvs = [OutRouteRequest None []]\<rparr> (urgent now_ms)"

definition interface_up ::
    "'m env \<Rightarrow> string \<Rightarrow> ip_addr list \<Rightarrow> 'm interface_policy \<Rightarrow> u64
      \<Rightarrow> 'm engine \<Rightarrow> action list \<times> 'm engine" where
  "interface_up E interface local_addresses policy now_ms e =
     (let state = \<lparr>if_local_addresses = local_addresses, if_policy = policy, if_hello_seqno = 0,
                   if_next_hello_ms = now_ms, if_next_update_ms = now_ms,
                   if_last_full_update_ms = None\<rparr>;
          e1 = (if contains_key (interfaces e) interface then e
                else e\<lparr>interfaces := bt_insert interface state (interfaces e)\<rparr>);
          (actions, e2) = tick E now_ms e1
      in (actions @ [wildcard_request interface (get_or state (interfaces e2) interface) now_ms], e2))"

definition rebuild_metric ::
    "'m env \<Rightarrow> 'm interface_policy \<Rightarrow> string \<Rightarrow> u64 \<Rightarrow> neighbor_key \<Rightarrow> 'm neighbor \<Rightarrow> 'm neighbor" where
  "rebuild_metric E policy interface now_ms key n =
     (if nk_interface key \<noteq> interface then n
      else
        let M = env_metric E;
            m1 = on_hello M (nb_histories n) (new_neighbor (ip_metric policy) interface);
            m2 = (case nb_last_ihu_cost n of None \<Rightarrow> m1 | Some cost \<Rightarrow> on_ihu M cost m1)
        in n\<lparr>nb_metric := m2, nb_next_ihu_ms := now_ms,
             nb_next_rtt_probe_ms := probe_start (ip_metric policy) now_ms key,
             nb_origin_timestamp := None, nb_receive_timestamp := None\<rparr>)"

text \<open>Everything learned on an interface is dropped.\<close>

definition drop_interface_state :: "string \<Rightarrow> 'm engine \<Rightarrow> 'm engine" where
  "drop_interface_state interface e =
     e\<lparr>neighbours := filter (\<lambda>(key, _). nk_interface key \<noteq> interface) (neighbours e),
       candidates := filter (\<lambda>(_, route). c_interface route \<noteq> interface) (candidates e)\<rparr>"

definition interface_policy_changed ::
    "'m env \<Rightarrow> string \<Rightarrow> 'm interface_policy \<Rightarrow> bool \<Rightarrow> u64
      \<Rightarrow> 'm engine \<Rightarrow> action list \<times> 'm engine" where
  "interface_policy_changed E interface policy reset_metric now_ms e =
     (case map_of (interfaces e) interface of
        None \<Rightarrow> ([], e)
      | Some state \<Rightarrow>
          let transport_changed =
                (ip_control_transport (if_policy state) \<noteq> ip_control_transport policy);
              e1 = e\<lparr>interfaces := modify interface
                      (\<lambda>s. s\<lparr>if_policy := policy, if_next_hello_ms := now_ms,
                             if_next_update_ms := now_ms, if_last_full_update_ms := None\<rparr>)
                      (interfaces e)\<rparr>;
              (actions1, e2) = (if transport_changed
                                then reselect E now_ms (drop_interface_state interface e1)
                                else ([], e1));
              (actions2, e3) =
                (if reset_metric
                 then let (changed, e') = recompute_candidate_metrics E None
                            (e2\<lparr>neighbours := map_values (rebuild_metric E policy interface now_ms)
                                                (neighbours e2)\<rparr>)
                      in if changed then reselect E now_ms e' else ([], e')
                 else ([], e2));
              (updates, e4) = send_updates now_ms None (Some interface) (Some (urgent now_ms)) e3;
              (ticked, e5) = tick E now_ms e4
          in (actions1 @ actions2 @ updates @ ticked, e5))"

definition interface_addresses_changed ::
    "string \<Rightarrow> ip_addr list \<Rightarrow> u64 \<Rightarrow> 'm engine \<Rightarrow> action list \<times> 'm engine" where
  "interface_addresses_changed interface local_addresses now_ms e =
     (case map_of (interfaces e) interface of
        None \<Rightarrow> send_updates now_ms None (Some interface) (Some (urgent now_ms)) e
      | Some state \<Rightarrow>
          if if_local_addresses state = local_addresses then ([], e)
          else send_updates now_ms None (Some interface) (Some (urgent now_ms))
                 (e\<lparr>interfaces := modify interface
                     (\<lambda>s. s\<lparr>if_local_addresses := local_addresses, if_last_full_update_ms := None\<rparr>)
                     (interfaces e)\<rparr>))"

definition interface_down :: "'m env \<Rightarrow> string \<Rightarrow> u64 \<Rightarrow> 'm engine \<Rightarrow> action list \<times> 'm engine" where
  "interface_down E interface now_ms e =
     reselect E now_ms
       (drop_interface_state interface (e\<lparr>interfaces := AList.delete interface (interfaces e)\<rparr>))"

section \<open>Replacement of the route policy\<close>

definition candidate_context :: "neighbor_key \<Rightarrow> candidate \<Rightarrow> import_context" where
  "candidate_context nk c =
     \<lparr>ic_key = c_key c, ic_interface = nk_interface nk, ic_neighbor = nk_address nk,
      ic_next_hop = c_next_hop c, ic_router_id = c_router_id c, ic_seqno = c_seqno c,
      ic_advertised_metric = c_advertised_metric c\<rparr>"

definition apply_import_policy :: "'m engine \<Rightarrow> 'm engine" where
  "apply_import_policy e =
     (let cs = filter (\<lambda>((_, nk), c). c_advertised_metric c \<noteq> INFINITY
                   \<and> accept (cfg_route_policy (config e)) (candidate_context nk c)) (candidates e)
      in e\<lparr>candidates := cs,
           neighbours := fold (\<lambda>((_, nk), _). modify nk (\<lambda>n. n\<lparr>nb_candidates := nb_candidates n + 1\<rparr>)) cs
             (map_values (\<lambda>_ n. n\<lparr>nb_candidates := 0\<rparr>) (neighbours e)),
           pending_seqno := filter (\<lambda>((key, _), pending). contains_key cs (key, ps_next_hop pending))
             (pending_seqno e)\<rparr>)"

definition replace_route_policy ::
    "'m env \<Rightarrow> route_policy \<Rightarrow> u64 \<Rightarrow> 'm engine \<Rightarrow> action list \<times> 'm engine" where
  "replace_route_policy E policy now_ms e =
     (let e1 = apply_import_policy (e\<lparr>config := (config e)\<lparr>cfg_route_policy := policy\<rparr>\<rparr>);
          (actions, e2) = reselect E now_ms e1;
          keys = table_keys (originated e2) @ table_keys (selected e2) @ table_keys (tombstones e2);
          e3 = fold (\<lambda>key. repeat_advertisement key now_ms) keys e2;
          (updates, e4) = send_updates now_ms None None (Some (urgent now_ms)) e3
      in (InvalidatePendingSends # actions @ updates
            @ map (\<lambda>(interface, state). wildcard_request interface state now_ms) (interfaces e4), e4))"

section \<open>Local origins\<close>

definition originate :: "'m env \<Rightarrow> route_key \<Rightarrow> u16 \<Rightarrow> u64 \<Rightarrow> 'm engine \<Rightarrow> action list \<times> 'm engine" where
  "originate E key metric now_ms e =
     (if (case map_of (originated e) key of None \<Rightarrow> False | Some origin \<Rightarrow> o_metric origin = metric)
      then ([], e)
      else
        let (actions1, e1) =
              (if contains_key (tombstones e) key
               then let (snapshot, e') = route_snapshot
                          (e\<lparr>tombstones := AList.delete key (tombstones e)\<rparr>)
                    in ([snapshot], e')
               else ([], e));
            e2 = repeat_advertisement key now_ms e1;
            (actions2, e3) =
              (if (case map_of (originated e2) key of None \<Rightarrow> False | Some origin \<Rightarrow> metric > o_metric origin)
               then let e' = bump_sequence_number e2
                    in ([SequenceNumberChanged (sequence_number e')], e')
               else ([], e2));
            e4 = e3\<lparr>originated := bt_insert key
                     \<lparr>o_metric = metric, o_seqno = sequence_number e3\<rparr> (originated e3)\<rparr>;
            (reselected, e5) = reselect E now_ms e4;
            (updates, e6) = send_updates now_ms (Some key) None None e5
        in (actions1 @ actions2 @ reselected @ updates, e6))"

definition withdraw :: "'m env \<Rightarrow> route_key \<Rightarrow> u64 \<Rightarrow> 'm engine \<Rightarrow> action list \<times> 'm engine" where
  "withdraw E key now_ms e =
     (let existed = contains_key (originated e) key;
          (reselected, e1) = reselect E now_ms
             (e\<lparr>originated := AList.delete key (originated e)\<rparr>);
          (actions, e2) =
            (if existed \<and> \<not> contains_key (selected e1) key
             then let (snapshot, e') = route_snapshot (hold_withdrawal key now_ms e1)
                  in ([snapshot], e')
             else ([], e1))
      in if existed
         then let (updates, e3) = send_updates now_ms (Some key) None (Some (urgent now_ms))
                    (repeat_advertisement key now_ms e2)
              in (reselected @ actions @ updates, e3)
         else (reselected @ actions, e2))"

definition withdraw_removed :: "u64 \<Rightarrow> route_key \<Rightarrow> action list \<times> 'm engine \<Rightarrow> action list \<times> 'm engine" where
  "withdraw_removed now_ms = (\<lambda>key (actions, e).
     let e1 = (if contains_key (selected e) key then e else hold_withdrawal key now_ms e);
         (updates, e2) = send_updates now_ms (Some key) None (Some (urgent now_ms))
           (repeat_advertisement key now_ms e1)
     in (actions @ updates, e2))"

definition announce_origin :: "u64 \<Rightarrow> route_key \<Rightarrow> 'm engine \<Rightarrow> 'm engine" where
  "announce_origin now_ms key e =
     repeat_advertisement key now_ms (e\<lparr>tombstones := AList.delete key (tombstones e)\<rparr>)"

definition replace_origins ::
    "'m env \<Rightarrow> (route_key, u16) table \<Rightarrow> u64 \<Rightarrow> 'm engine \<Rightarrow> action list \<times> 'm engine" where
  "replace_origins E origins now_ms e =
     (let unchanged =
            (length (originated e) = length origins
             \<and> list_all (\<lambda>(key, metric).
                 case map_of (originated e) key of
                   None \<Rightarrow> False | Some origin \<Rightarrow> o_metric origin = metric) origins)
      in if unchanged then ([], e)
         else
           let removed = filter (\<lambda>key. \<not> contains_key origins key) (table_keys (originated e));
               changes_existing = list_ex (\<lambda>(key, origin).
                 case map_of origins key of None \<Rightarrow> False | Some metric \<Rightarrow> metric > o_metric origin)
                 (originated e);
               (actions1, e1) =
                 (if changes_existing
                  then let e' = bump_sequence_number e
                       in ([SequenceNumberChanged (sequence_number e')], e')
                  else ([], e));
               e2 = e1\<lparr>originated :=
                   map_values (\<lambda>_ metric. \<lparr>o_metric = metric, o_seqno = sequence_number e1\<rparr>) origins\<rparr>;
               (reselected, e3) = reselect E now_ms e2;
               (actions2, e4) = fold (withdraw_removed now_ms) removed (actions1 @ reselected, e3);
               e5 = fold (announce_origin now_ms) (table_keys (originated e4)) e4;
               (snapshot, e6) = route_snapshot e5;
               (updates, e7) = send_updates now_ms None None None e6
           in (actions2 @ [snapshot] @ updates, e7))"

section \<open>The dispatcher\<close>

definition handle_validated :: "'m env \<Rightarrow> 'm event \<Rightarrow> 'm engine \<Rightarrow> action list \<times> 'm engine" where
  "handle_validated E event e =
     (case event of
        InterfaceUp interface local_addresses now_ms \<Rightarrow>
          interface_up E interface local_addresses (default_interface_policy e) now_ms e
      | InterfaceUpWithPolicy interface local_addresses policy now_ms \<Rightarrow>
          interface_up E interface local_addresses policy now_ms e
      | InterfacePolicyChanged interface policy reset_metric now_ms \<Rightarrow>
          interface_policy_changed E interface policy reset_metric now_ms e
      | InterfaceAddressesChanged interface local_addresses now_ms \<Rightarrow>
          interface_addresses_changed interface local_addresses now_ms e
      | InterfaceDown interface now_ms \<Rightarrow> interface_down E interface now_ms e
      | PacketReceived interface src p now_ms \<Rightarrow>
          receive E interface src p now_ms (timestamp_us now_ms) e
      | PacketReceivedWithTimestamp interface src p now_ms received_timestamp_us \<Rightarrow>
          receive E interface src p now_ms received_timestamp_us e
      | Originate key metric now_ms \<Rightarrow> originate E key metric now_ms e
      | Withdraw key now_ms \<Rightarrow> withdraw E key now_ms e
      | ReplaceOrigins origins now_ms \<Rightarrow> replace_origins E origins now_ms e
      | ReplaceRoutePolicy policy now_ms \<Rightarrow> replace_route_policy E policy now_ms e
      | Tick now_ms \<Rightarrow> tick E now_ms e)"

text \<open>How long a neighbour may remember an update that was sent.\<close>

definition note_update ::
    "send_timing \<Rightarrow> outbound_tlv \<Rightarrow> (route_key, u64) table \<Rightarrow> (route_key, u64) table" where
  "note_update timing tlv m =
     (case tlv of
        OutUpdate update \<Rightarrow>
          (if ou_metric update \<noteq> INFINITY
           then case ou_key update of
                  None \<Rightarrow> m
                | Some key \<Rightarrow>
                    bt_insert key
                      (max (get_or 0 m key)
                           (sat_add (deadline_ms timing) (ucast (ou_interval_cs update) * 35))) m
           else m)
      | _ \<Rightarrow> m)"

definition note_action :: "action \<Rightarrow> (route_key, u64) table \<Rightarrow> (route_key, u64) table" where
  "note_action a m =
     (case a of Send _ _ p timing \<Rightarrow> fold (note_update timing) (out_tlvs p) m | _ \<Rightarrow> m)"

definition try_handle ::
    "'m env \<Rightarrow> 'm event \<Rightarrow> 'm engine \<Rightarrow> (config_error + action list) \<times> 'm engine" where
  "try_handle E event e =
     (case validate_event (env_ipnet E) event of
        Inl err \<Rightarrow> (Inl err, e)
      | Inr _ \<Rightarrow>
          (case handle_validated E event e of (actions, e') \<Rightarrow>
             (Inr actions, e'\<lparr>advertised_until := fold note_action actions (advertised_until e')\<rparr>)))"

end
