(* ===== verification/Babel_Frame.thy ===== *)
theory Babel_Frame
  imports Babel_Engine
begin

text \<open>
  What the output functions of the engine leave alone. Sending updates, retractions and requests
  touches the feasibility history, the pending requests and the repeat counters, but neither the
  learned tables nor the selection (\<open>kept\<close>); it keeps the shape of what it does touch (\<open>out_ok\<close>);
  and every finite update it emits has passed the export policy (\<open>allowed\<close>). The three are one
  relation, \<open>quiet\<close>, which composes, so that the invariants of the following theories only
  have to look at the functions that learn and select.
\<close>

section \<open>Definitions\<close>

definition interface_config ::
    "'m engine \<Rightarrow> (string, 'm interface_policy \<times> ip_addr list) table" where
  "interface_config e = map_values (\<lambda>_ s. (if_policy s, if_local_addresses s)) (interfaces e)"

definition kept :: "'m engine \<Rightarrow> 'm engine \<Rightarrow> bool" where
  "kept e e' \<longleftrightarrow>
     resources e' = resources e \<and> config e' = config e \<and> interface_config e' = interface_config e
     \<and> neighbours e' = neighbours e \<and> candidates e' = candidates e \<and> selected e' = selected e
     \<and> tombstones e' = tombstones e \<and> advertised_until e' = advertised_until e
     \<and> pending_switches e' = pending_switches e \<and> settling_since e' = settling_since e
     \<and> settled_routes e' = settled_routes e \<and> generation e' = generation e"

text \<open>Recorded feasibility distances are finite; pending requests have hops and retries left to
  use; origins carry the local sequence number and a finite metric; an advertisement is repeated
  at most twice.\<close>

definition out_ok :: "'m engine \<Rightarrow> bool" where
  "out_ok e \<longleftrightarrow>
     distinct (table_keys (feasible e)) \<and> distinct (table_keys (pending_seqno e))
     \<and> distinct (table_keys (recent_seqno e)) \<and> sorted_wrt (<) (table_keys (originated e))
     \<and> sorted_wrt (<) (table_keys (pending_advertisements e))
     \<and> (\<forall>(_, entry) \<in> set (feasible e). d_metric (se_distance entry) \<noteq> INFINITY)
     \<and> (\<forall>(_, p) \<in> set (pending_seqno e). 1 \<le> ps_hop_count p \<and> ps_retries_left p \<le> REQUEST_RETRIES)
     \<and> (\<forall>(_, o1) \<in> set (originated e). o_seqno o1 = sequence_number e \<and> o_metric o1 \<noteq> INFINITY)
     \<and> (\<forall>(_, _, left) \<in> set (pending_advertisements e). 1 \<le> left \<and> left \<le> 2)"

definition announced_by :: "'m engine_config \<Rightarrow> string \<Rightarrow> outbound_tlv \<Rightarrow> bool" where
  "announced_by c interface t =
     (case t of
        OutUpdate u \<Rightarrow>
          ou_metric u \<noteq> INFINITY \<longrightarrow>
            (case (ou_key u, ou_router_id u) of
               (Some key, Some router_id) \<Rightarrow>
                 announce (cfg_route_policy c)
                   \<lparr>ec_key = key, ec_interface = interface, ec_router_id = router_id,
                    ec_locally_originated = (router_id = cfg_router_id c)\<rparr>
             | _ \<Rightarrow> False)
      | _ \<Rightarrow> True)"

text \<open>Every finite update of the action may be announced on the interface it is sent on.\<close>

definition allowed :: "'m engine_config \<Rightarrow> action \<Rightarrow> bool" where
  "allowed c a =
     (case a of Send interface _ p _ \<Rightarrow> list_all (announced_by c interface) (out_tlvs p) | _ \<Rightarrow> True)"

definition quiet :: "'m engine \<Rightarrow> action list \<times> 'm engine \<Rightarrow> bool" where
  "quiet e r \<longleftrightarrow> kept e (snd r) \<and> (out_ok e \<longrightarrow> out_ok (snd r))
     \<and> list_all (\<lambda>a. \<not> is_routes_changed a \<and> allowed (config e) a) (fst r)"

section \<open>The relation composes\<close>

lemma kept_refl [simp, intro]: "kept e e"
  by (simp add: kept_def)

lemma kept_trans: "kept e e' \<Longrightarrow> kept e' e'' \<Longrightarrow> kept e e''"
  by (simp add: kept_def)

lemma quiet_nil [simp, intro]: "quiet e ([], e)"
  by (simp add: quiet_def)

lemma quiet_trans:
  assumes "quiet e (actions, e')" and "quiet e' (actions', e'')"
  shows "quiet e (actions @ actions', e'')"
  using assms by (auto simp: quiet_def kept_def)

lemma quiet_keep:
  assumes "quiet e (actions, e')" and "kept e' e''" and "out_ok e' \<Longrightarrow> out_ok e''"
  shows "quiet e (actions, e'')"
  using assms by (auto simp: quiet_def kept_def)

lemma quiet_action:
  assumes "kept e e'" "out_ok e \<Longrightarrow> out_ok e'" "\<not> is_routes_changed a" "allowed (config e) a"
  shows "quiet e ([a], e')"
  using assms by (simp add: quiet_def)

text \<open>A loop whose body appends to the actions.\<close>

lemma quiet_fold:
  assumes "quiet e (actions, e1)"
    and "\<And>x acts s. x \<in> set xs \<Longrightarrow> quiet e (acts, s) \<Longrightarrow> quiet e (f x (acts, s))"
  shows "quiet e (fold f xs (actions, e1))"
  using assms by (induction xs arbitrary: actions e1) (simp, metis fold_simps(2) list.set_intros prod.collapse)

section \<open>Advertisements\<close>

lemma advertisement_simps [simp]:
  "ou_key (advertisement e interface key router_id seqno metric) = Some key"
  "ou_router_id (advertisement e interface key router_id seqno metric) = Some router_id"
  "ou_seqno (advertisement e interface key router_id seqno metric) = seqno"
  "ou_sub_tlvs (advertisement e interface key router_id seqno metric) = []"
  "ou_interval_cs (advertisement e interface key router_id seqno metric) = interface_update_interval e interface"
  by (simp_all add: advertisement_def Let_def)

lemma advertisement_metric:
  assumes "ou_metric (advertisement e interface key router_id seqno metric) \<noteq> INFINITY"
  shows "ou_metric (advertisement e interface key router_id seqno metric) = metric"
    and "metric \<noteq> INFINITY"
    and "announce (cfg_route_policy (config e))
           \<lparr>ec_key = key, ec_interface = interface, ec_router_id = router_id,
            ec_locally_originated = (router_id = cfg_router_id (config e))\<rparr>"
  using assms by (auto simp: advertisement_def Let_def split: if_splits)

lemma advertisement_allowed [simp]:
  "config e = c \<Longrightarrow> announced_by c interface (OutUpdate (advertisement e interface key router_id seqno metric))"
  using advertisement_metric(3) by (fastforce simp: announced_by_def)

lemma announced_retraction [simp]: "ou_metric u = INFINITY \<Longrightarrow> announced_by c interface (OutUpdate u)"
  by (simp add: announced_by_def)

lemma announced_other [simp]:
  "announced_by c interface (OutSeqnoRequest key seqno hops i ss)"
  "announced_by c interface (OutRouteRequest k ss)" "announced_by c interface (OutAck nonce)"
  "announced_by c interface (OutHello b seqno interval ss)"
  "announced_by c interface (OutIhu address rxcost interval ss)"
  by (simp_all add: announced_by_def)

lemma allowed_simps [simp]:
  "allowed c (Send interface dest p timing) \<longleftrightarrow> list_all (announced_by c interface) (out_tlvs p)"
  "allowed c (RoutesChanged g rs us)" "allowed c (SequenceNumberChanged s)"
  "allowed c InvalidatePendingSends"
  by (simp_all add: allowed_def)

lemma is_routes_changed_simps [simp]:
  "is_routes_changed (RoutesChanged g rs us)" "\<not> is_routes_changed (Send interface dest p timing)"
  "\<not> is_routes_changed (SequenceNumberChanged s)" "\<not> is_routes_changed InvalidatePendingSends"
  by (simp_all add: is_routes_changed_def)

lemma maintain_source_kept [simp, intro]: "kept e (maintain_source key router_id d now_ms e)"
  by (simp add: kept_def maintain_source_def Let_def interface_config_def)

lemma maintain_source_out_ok:
  assumes "out_ok e" "d_metric d \<noteq> INFINITY"
  shows "out_ok (maintain_source key router_id d now_ms e)"
proof -
  have old: "d_metric (se_distance (get_or \<lparr>se_distance = d, se_expires_ms = t\<rparr> (feasible e) k)) \<noteq> INFINITY"
    for t k
    using assms by (auto simp: get_or_def out_ok_def split: option.splits dest!: map_of_SomeD)
  show ?thesis
    using assms old
    by (auto simp: out_ok_def maintain_source_def Let_def hash_table.set_ins distinct_update)
qed

lemma maintain_advertised:
  assumes "out_ok e" "ou_metric (advertisement e' interface key router_id seqno metric) \<noteq> INFINITY"
  shows "out_ok (maintain_source key' router_id' \<lparr>d_seqno = s, d_metric = metric\<rparr> now_ms e)"
  using assms advertisement_metric(2) [OF assms(2)] by (simp add: maintain_source_out_ok)

lemma update_action_quiet:
  "update_action_to_candidate key router_id seqno metric dest now_ms e = (a, e') \<Longrightarrow> quiet e ([a], e')"
  by (auto simp: update_action_to_candidate_def Let_def
      intro!: quiet_action maintain_source_out_ok split: if_splits)

lemma retraction_quiet [simp]: "quiet e ([retraction_action e key seqno dest now_ms], e)"
  by (auto simp: retraction_action_def intro!: quiet_action)

lemma reply_quiet: "reply_to_route_request key dest now_ms e = (a, e') \<Longrightarrow> quiet e ([a], e')"
  by (auto simp: reply_to_route_request_def Let_def dest: update_action_quiet split: option.splits)

section \<open>Updates on the interfaces\<close>

text \<open>The loops of \<open>send_updates\<close> build TLVs for one interface; \<open>building\<close> is \<open>quiet\<close> for them.\<close>

definition building :: "'m engine \<Rightarrow> string \<Rightarrow> outbound_tlv list \<times> 'm engine \<Rightarrow> bool" where
  "building e interface r \<longleftrightarrow> kept e (snd r) \<and> (out_ok e \<longrightarrow> out_ok (snd r))
     \<and> interfaces (snd r) = interfaces e
     \<and> list_all (announced_by (config e) interface) (fst r)"

lemma push_origin_building: "building e interface s \<Longrightarrow> building e interface (push_origin interface only now_ms x s)"
  by (cases s; cases x)
    (auto simp: push_origin_def building_def Let_def kept_def intro: maintain_advertised;
     simp add: maintain_source_def Let_def interface_config_def)

lemma push_selected_building:
  "building e interface s \<Longrightarrow> building e interface (push_selected interface sh only now_ms x s)"
  by (cases s)
    (auto simp: push_selected_def building_def Let_def kept_def intro: maintain_advertised;
     simp add: maintain_source_def Let_def interface_config_def)

lemma push_tombstone_building:
  "building e interface s \<Longrightarrow> building e interface (push_tombstone interface only x s)"
  by (cases s) (auto simp: push_tombstone_def building_def kept_def)

lemma fold_keeps: "P s \<Longrightarrow> (\<And>x s. P s \<Longrightarrow> P (f x s)) \<Longrightarrow> P (fold f xs s)"
  by (induction xs arbitrary: s) auto

lemma interface_updates_building:
  "building e interface (interface_updates origins routes withdrawn interface sh only now_ms e)"
proof -
  have "building e interface ([], e)" by (simp add: building_def)
  then show ?thesis
    unfolding interface_updates_def
    by (intro fold_keeps [where P = "building e interface"] push_tombstone_building
        push_selected_building push_origin_building)
qed

lemma interface_config_touch [simp]:
  "map_values (\<lambda>_ s. (if_policy s, if_local_addresses s))
     (modify interface (\<lambda>s. s\<lparr>if_last_full_update_ms := t\<rparr>) m) =
   map_values (\<lambda>_ s. (if_policy s, if_local_addresses s)) m"
  by (induction m) (auto simp: map_values_def modify_def)

lemma send_updates_on_quiet:
  assumes "quiet e0 (actions, e)"
  shows "quiet e0 (send_updates_on origins routes withdrawn now_ms only timing interface (actions, e))"
proof (cases "map_of (interfaces e) interface")
  case None
  then show ?thesis using assms by (simp add: send_updates_on_def)
next
  case (Some state)
  obtain out e' where out: "interface_updates origins routes withdrawn interface
      (ip_split_horizon (if_policy state)) only now_ms e = (out, e')" by fastforce
  have b: "building e interface (out, e')" using interface_updates_building out by metis
  have touch: "kept e (e'\<lparr>interfaces := modify interface (\<lambda>s. s\<lparr>if_last_full_update_ms := t\<rparr>) (interfaces e')\<rparr>)" for t
    using b by (simp add: building_def kept_def interface_config_def)
  have ok: "out_ok (e'\<lparr>interfaces := i\<rparr>) = out_ok e'" for i by (simp add: out_ok_def)
  from b have "quiet e ([Send interface dest \<lparr>out_tlvs = out\<rparr> t], if only = None
      then e'\<lparr>interfaces := modify interface (\<lambda>s. s\<lparr>if_last_full_update_ms := Some now_ms\<rparr>) (interfaces e')\<rparr>
      else e')" for dest t
    using touch by (auto intro!: quiet_action simp: building_def ok)
  moreover have "quiet e ([], e')" using b by (simp add: quiet_def building_def)
  ultimately show ?thesis
    using Some out assms quiet_trans [OF assms]
    by (auto simp: send_updates_on_def Let_def dest: quiet_trans [OF assms, of "[]"])
qed

lemma send_updates_quiet: "quiet e (send_updates now_ms only interface timing e)"
  by (simp add: send_updates_def Let_def quiet_fold send_updates_on_quiet)

lemma send_updates_quiet':
  "send_updates now_ms only interface timing e = (actions, e') \<Longrightarrow> quiet e (actions, e')"
  by (metis send_updates_quiet)

lemma send_retraction_quiet: "config e' = config e \<Longrightarrow>
    list_all (\<lambda>a. \<not> is_routes_changed a \<and> allowed (config e') a) (send_retraction e key seqno now_ms)"
  by (auto simp: send_retraction_def list_all_iff)

lemma advertise_learned_quiet:
  "config e' = config e \<Longrightarrow>
     list_all (\<lambda>a. \<not> is_routes_changed a \<and> allowed (config e') a)
       (advertise_learned e route metric learned now_ms)"
  by (auto simp: advertise_learned_def list_all_iff List.map_filter_def Let_def split: if_splits)

section \<open>Requests\<close>

lemma originate_seqno_request_quiet:
  assumes "originate_seqno_request request now_ms e = (actions, e')" "1 \<le> sq_hop_count request"
  shows "quiet e (actions, e')"
proof -
  have "out_ok e \<Longrightarrow> out_ok e'"
    using assms by (auto simp: originate_seqno_request_def out_ok_def hash_table.set_ins distinct_update)
  moreover have "kept e e'"
    using assms(1) by (auto simp: originate_seqno_request_def kept_def interface_config_def)
  ultimately show ?thesis
    using assms by (auto simp: originate_seqno_request_def seqno_request_action_def intro!: quiet_action)
qed

lemma recovery_request_hops [simp]: "1 \<le> sq_hop_count (recovery_request key router_id seqno nk)"
  by (simp add: recovery_request_def)

lemma repeat_advertisement_kept [simp, intro]: "kept e (repeat_advertisement key now_ms e)"
  by (simp add: repeat_advertisement_def kept_def interface_config_def)

lemma repeat_advertisement_out_ok: "out_ok e \<Longrightarrow> out_ok (repeat_advertisement key now_ms e)"
  by (auto simp: repeat_advertisement_def out_ok_def btree.shape_ins btree.set_ins)

lemma bump_kept [simp, intro]: "kept e (bump_sequence_number e)"
  by (simp add: bump_sequence_number_def kept_def interface_config_def Let_def)

lemma bump_out_ok: "out_ok e \<Longrightarrow> out_ok (bump_sequence_number e)"
  by (auto simp: bump_sequence_number_def out_ok_def Let_def set_map_values) blast

lemma forward_quiet:
  "forward_seqno_request E requester key seqno hop_count router_id now_ms e = (actions, e') \<Longrightarrow>
     quiet e (actions, e')"
proof (simp add: forward_seqno_request_def split: if_splits option.splits)
  fix nh
  assume "\<not> hop_count \<le> 1"
    and "originate_seqno_request \<lparr>sq_key = key, sq_router_id = router_id, sq_seqno = seqno,
      sq_hop_count = hop_count - 1, sq_next_hop = nh, sq_requester = Some requester\<rparr> now_ms e = (actions, e')"
  moreover have "1 \<le> hop_count - 1" if "\<not> hop_count \<le> 1"
    using that by (simp add: word_le_nat_alt unat_sub)
  ultimately show "quiet e (actions, e')" by (auto intro: originate_seqno_request_quiet)
qed

lemma handle_seqno_request_quiet:
  "handle_seqno_request E requester key seqno hop_count router_id now_ms e = (actions, e') \<Longrightarrow>
     quiet e (actions, e')"
proof -
  have bump: "quiet e ([SequenceNumberChanged (sequence_number (bump_sequence_number e))], bump_sequence_number e)"
    by (auto intro!: quiet_action bump_out_ok)
  assume "handle_seqno_request E requester key seqno hop_count router_id now_ms e = (actions, e')"
  then show ?thesis
    by (auto simp: handle_seqno_request_def Let_def split: if_splits option.splits prod.splits
        dest: reply_quiet update_action_quiet forward_quiet send_updates_quiet' quiet_trans [OF bump, simplified])
qed

end
