(* ===== verification/Babel_Selection.thy ===== *)
theory Babel_Selection
  imports Babel_Frame
begin

text \<open>
  Route selection. The loop of \<open>reselect\<close> threads the hysteresis state through all keys; the
  specification \<open>selection\<close> decides one key alone, from the state before the loop. They agree
  (\<open>select_keys_lookup\<close>), so the properties of a selected route are those of \<open>choose_route\<close> on its
  own key: only feasible finite candidates are selected, a key with such a candidate is, the
  choice has the least metric except while hysteresis holds the current route, and a switch away
  from a usable route needs a significant improvement that lasted.
\<close>

section \<open>Specification\<close>

definition routes_for :: "'m env \<Rightarrow> 'm engine \<Rightarrow> route_key \<Rightarrow> candidate list" where
  "routes_for E e key = filter (\<lambda>c. c_key c = key) (usable_candidates E e)"

definition current_route :: "'m env \<Rightarrow> 'm engine \<Rightarrow> route_key \<Rightarrow> candidate option" where
  "current_route E e key =
     Option.bind (map_of (selected e) key)
       (\<lambda>route. List.find (\<lambda>c. is_selected_route c route) (routes_for E e key))"

definition selection :: "'m env \<Rightarrow> u64 \<Rightarrow> 'm engine \<Rightarrow> route_key \<Rightarrow> candidate option" where
  "selection E now_ms e key =
     map_option (\<lambda>best. fst (choose_route key (current_route E e key) best now_ms e))
       (min_by_key candidate_order (routes_for E e key))"

section \<open>Grouping\<close>

lemma push_group_sorted:
  "sorted_wrt (<) (table_keys m) \<Longrightarrow> sorted_wrt (<) (table_keys (push_group c m))"
  unfolding push_group_def by (rule btree.shape_ins)

lemma push_group_lookup:
  "sorted_wrt (<) (table_keys m) \<Longrightarrow>
     map_of (push_group c m) = (map_of m)(c_key c \<mapsto> get_or [] m (c_key c) @ [c])"
  unfolding push_group_def by (rule btree.map_of_ins)

lemma fold_push_group:
  assumes "sorted_wrt (<) (table_keys m)"
  shows "sorted_wrt (<) (table_keys (fold push_group cs m))"
    and "map_of (fold push_group cs m) key =
      (case filter (\<lambda>c. c_key c = key) cs of
         [] \<Rightarrow> map_of m key
       | new \<Rightarrow> Some (get_or [] m key @ new))"
  using assms
proof (induction cs arbitrary: m)
  case Nil
  { case 1 then show ?case by simp next case 2 then show ?case by simp }
next
  case (Cons c cs)
  let ?m = "push_group c m"
  { case 1
    then show ?case using Cons.IH(1) [OF push_group_sorted] by simp
  next
    case 2
    then show ?case using Cons.IH(2) [OF push_group_sorted [OF 2]]
      by (auto simp: push_group_lookup get_or_def split: list.splits option.splits) }
qed

lemma grouped_sorted: "sorted_wrt (<) (table_keys (grouped_candidates E e))"
  by (simp add: grouped_candidates_def fold_push_group(1))

lemma grouped_lookup:
  "map_of (grouped_candidates E e) key =
     (case routes_for E e key of [] \<Rightarrow> None | rs \<Rightarrow> Some rs)"
  by (simp add: grouped_candidates_def fold_push_group(2) routes_for_def get_or_def split: list.splits)

lemma usable_candidates_iff:
  "c \<in> set (usable_candidates E e) \<longleftrightarrow>
     (\<exists>k. (k, c) \<in> set (candidates e)) \<and> c_metric c < INFINITY \<and> candidate_is_feasible e c"
  by (force simp: usable_candidates_def iter_candidates_def)

section \<open>The choice for one key\<close>

text \<open>Two engines that a choice for \<open>key\<close> cannot tell apart.\<close>

definition hyst_agree :: "route_key \<Rightarrow> 'm engine \<Rightarrow> 'm engine \<Rightarrow> bool" where
  "hyst_agree key e e' \<longleftrightarrow> config e' = config e
     \<and> (key \<in> set (settled_routes e') \<longleftrightarrow> key \<in> set (settled_routes e))
     \<and> map_of (settling_since e') key = map_of (settling_since e) key
     \<and> map_of (pending_switches e') key = map_of (pending_switches e) key"

lemma hyst_agree_refl [simp]: "hyst_agree key e e"
  by (simp add: hyst_agree_def)

lemma hyst_agree_trans: "hyst_agree key e e' \<Longrightarrow> hyst_agree key e' e'' \<Longrightarrow> hyst_agree key e e''"
  by (simp add: hyst_agree_def)

text \<open>Everything but the hysteresis tables, and the shape of those.\<close>

definition base :: "'m engine \<Rightarrow> 'm engine" where
  "base e = e\<lparr>pending_switches := [], settling_since := [], settled_routes := []\<rparr>"

definition hyst_ok :: "'m engine \<Rightarrow> bool" where
  "hyst_ok e \<longleftrightarrow> distinct (table_keys (pending_switches e))
     \<and> distinct (table_keys (settling_since e)) \<and> distinct (settled_routes e)"

lemma base_fields:
  assumes "base e' = base e"
  shows "resources e' = resources e" "config e' = config e" "interfaces e' = interfaces e"
    "neighbours e' = neighbours e" "candidates e' = candidates e" "feasible e' = feasible e"
    "originated e' = originated e" "selected e' = selected e" "pending_seqno e' = pending_seqno e"
    "recent_seqno e' = recent_seqno e" "tombstones e' = tombstones e"
    "advertised_until e' = advertised_until e"
    "pending_advertisements e' = pending_advertisements e" "generation e' = generation e"
    "sequence_number e' = sequence_number e"
  using assms by (cases e; cases e'; simp add: base_def)+

text \<open>A step that only touches the hysteresis entries of \<open>key\<close>.\<close>

definition touches :: "route_key \<Rightarrow> 'm engine \<Rightarrow> 'm engine \<Rightarrow> bool" where
  "touches key e e' \<longleftrightarrow> base e' = base e \<and> (hyst_ok e \<longrightarrow> hyst_ok e')
     \<and> (\<forall>key'. key' \<noteq> key \<longrightarrow> hyst_agree key' e e')"

lemma touches_trans: "touches key e e' \<Longrightarrow> touches key e' e'' \<Longrightarrow> touches key e e''"
  unfolding touches_def by (metis hyst_agree_trans)

lemma touches_refl [simp]: "touches key e e"
  by (simp add: touches_def)

lemma touches_pending:
  assumes "\<And>key'. key' \<noteq> key \<Longrightarrow> map_of ps key' = map_of (pending_switches e) key'"
    "distinct (table_keys (pending_switches e)) \<Longrightarrow> distinct (table_keys ps)"
  shows "touches key e (e\<lparr>pending_switches := ps\<rparr>)"
  using assms by (simp add: touches_def base_def hyst_ok_def hyst_agree_def)

lemma touches_forget [simp]:
  "touches key e (e\<lparr>pending_switches := AList.delete key (pending_switches e)\<rparr>)"
  "touches key e (e\<lparr>pending_switches := AList.update key p (pending_switches e)\<rparr>)"
  by (rule touches_pending; simp add: distinct_delete distinct_update update_conv' table)+

lemma touches_settling [simp]:
  "touches key e (e\<lparr>settling_since := AList.update key t (settling_since e)\<rparr>)"
  by (simp add: touches_def base_def hyst_ok_def hyst_agree_def distinct_update update_conv')

lemma touches_settled [simp]:
  "touches key e (e\<lparr>settled_routes := List.insert key (settled_routes e)\<rparr>)"
  by (simp add: touches_def base_def hyst_ok_def hyst_agree_def)

lemma settle_touches: "touches key e (snd (settle key now_ms e))"
proof -
  let ?e = "e\<lparr>settling_since := AList.update key (get_or now_ms (settling_since e) key) (settling_since e)\<rparr>"
  have "touches key e (?e\<lparr>settled_routes := List.insert key (settled_routes ?e)\<rparr>)"
    by (rule touches_trans [OF touches_settling touches_settled])
  then show ?thesis by (auto simp: settle_def Let_def List.insert_def)
qed

lemma settle_fields: "pending_switches (snd (settle key now_ms e)) = pending_switches e"
  "config (snd (settle key now_ms e)) = config e"
  by (simp_all add: settle_def Let_def)

lemma settle_cong: "hyst_agree key e e' \<Longrightarrow> fst (settle key now_ms e') = fst (settle key now_ms e)"
  by (simp add: hyst_agree_def settle_def Let_def get_or_def)

lemma dwell_touches: "touches key e (snd (dwell key best current now_ms e))"
  by (simp add: dwell_def Let_def)

lemma dwell_cong:
  "config e' = config e \<Longrightarrow> map_of (pending_switches e') key = map_of (pending_switches e) key \<Longrightarrow>
     fst (dwell key best current now_ms e') = fst (dwell key best current now_ms e)"
  by (simp add: dwell_def Let_def get_or_def)

lemma dwell_cases: "fst (dwell key best current now_ms e) \<in> {best, current}"
  by (simp add: dwell_def Let_def)

lemma choose_route_fst:
  "fst (choose_route key current best now_ms e) =
     (case current of
        None \<Rightarrow> best
      | Some cur \<Rightarrow>
          if same_candidate best cur \<or> \<not> sufficiently_better best cur (cfg_route_selection (config e)) then cur
          else if \<not> fst (settle key now_ms e) then best
          else fst (dwell key best cur now_ms (snd (settle key now_ms e))))"
proof -
  obtain settled e1 where s: "settle key now_ms e = (settled, e1)" by fastforce
  then have "config e1 = config e" using settle_fields(2) [of key now_ms e] by simp
  with s show ?thesis by (cases current) (simp_all add: choose_route_def)
qed

lemma choose_route_touches: "touches key e (snd (choose_route key current best now_ms e))"
proof -
  obtain settled e1 where s: "settle key now_ms e = (settled, e1)" by fastforce
  then have t: "touches key e e1" using settle_touches [of key e now_ms] by simp
  let ?f = "e1\<lparr>pending_switches := AList.delete key (pending_switches e1)\<rparr>"
  have f: "touches key e ?f" by (rule touches_trans [OF t]) simp
  have "touches key e (?f\<lparr>settling_since := AList.update key now_ms (settling_since ?f)\<rparr>)"
    by (rule touches_trans [OF f touches_settling])
  moreover have "touches key e (snd (dwell key best cur now_ms e1))" for cur
    by (rule touches_trans [OF t dwell_touches])
  ultimately show ?thesis using f by (simp add: choose_route_def s Let_def split: option.splits)
qed

lemma choose_route_cong:
  "hyst_agree key e e' \<Longrightarrow>
     fst (choose_route key current best now_ms e') = fst (choose_route key current best now_ms e)"
proof -
  assume a: "hyst_agree key e e'"
  have "fst (dwell key best cur now_ms (snd (settle key now_ms e'))) =
      fst (dwell key best cur now_ms (snd (settle key now_ms e)))" for cur
    using a by (intro dwell_cong) (simp_all add: settle_fields hyst_agree_def)
  moreover have "config e' = config e" using a by (simp add: hyst_agree_def)
  ultimately show ?thesis by (simp only: choose_route_fst settle_cong [OF a])
qed

lemma choose_route_cases:
  "fst (choose_route key current best now_ms e) \<in> insert best (set_option current)"
  using dwell_cases by (fastforce simp: choose_route_fst split: option.splits)

section \<open>The loop agrees with the specification\<close>

definition pick ::
    "(route_key, selected_route) table \<Rightarrow> u64 \<Rightarrow> 'm engine \<Rightarrow> route_key \<Rightarrow> candidate list
      \<Rightarrow> selected_route option" where
  "pick before now_ms e key routes =
     map_option (\<lambda>best. selected_from_candidate
         (fst (choose_route key
            (Option.bind (map_of before key) (\<lambda>route. List.find (\<lambda>c. is_selected_route c route) routes))
            best now_ms e)))
       (min_by_key candidate_order routes)"

lemma pick_cong: "hyst_agree key e e' \<Longrightarrow> pick before now_ms e' key routes = pick before now_ms e key routes"
  by (simp add: pick_def choose_route_cong cong: map_option_cong)

lemma select_key_step:
  assumes "routes \<noteq> []"
  obtains r e' where "select_key before now_ms (key, routes) (next, e) = (bt_insert key r next, e')"
    "pick before now_ms e key routes = Some r" "touches key e e'"
proof -
  obtain best where best: "min_by_key candidate_order routes = Some best"
    using assms by (meson min_by_key_None not_None_eq)
  let ?c = "Option.bind (map_of before key) (\<lambda>route. List.find (\<lambda>c. is_selected_route c route) routes)"
  obtain chosen e' where ch: "choose_route key ?c best now_ms e = (chosen, e')" by fastforce
  show ?thesis
  proof (rule that)
    show "select_key before now_ms (key, routes) (next, e) = (bt_insert key (selected_from_candidate chosen) next, e')"
      using best ch by (simp add: select_key_def Let_def)
    show "pick before now_ms e key routes = Some (selected_from_candidate chosen)"
      using best ch by (simp add: pick_def)
    show "touches key e e'" using choose_route_touches [of key e ?c best now_ms] ch by simp
  qed
qed

lemma select_keys_lookup:
  assumes "distinct (table_keys gs)" "\<And>k rs. (k, rs) \<in> set gs \<Longrightarrow> rs \<noteq> []"
    "sorted_wrt (<) (table_keys next)"
    "fold (select_key before now_ms) gs (next, e) = (next', e')"
  shows "sorted_wrt (<) (table_keys next') \<and> base e' = base e \<and> (hyst_ok e \<longrightarrow> hyst_ok e') \<and>
    map_of next' key = (case map_of gs key of None \<Rightarrow> map_of next key
                        | Some routes \<Rightarrow> pick before now_ms e key routes)"
  using assms
proof (induction gs arbitrary: "next" e)
  case Nil
  then show ?case by simp
next
  case (Cons g gs)
  obtain k rs where g: "g = (k, rs)" by fastforce
  have "rs \<noteq> []" using Cons.prems(2) g by auto
  then obtain r e1 where st: "select_key before now_ms (k, rs) (next, e) = (bt_insert k r next, e1)"
    and p: "pick before now_ms e k rs = Some r" and h: "\<And>key'. key' \<noteq> k \<Longrightarrow> hyst_agree key' e e1"
    and b: "base e1 = base e" "hyst_ok e \<Longrightarrow> hyst_ok e1"
    by (rule select_key_step [of rs before now_ms k "next" e]) (auto simp: touches_def)
  have IH: "sorted_wrt (<) (table_keys next') \<and> base e' = base e1 \<and> (hyst_ok e1 \<longrightarrow> hyst_ok e') \<and>
    map_of next' key = (case map_of gs key of None \<Rightarrow> map_of (bt_insert k r next) key
                        | Some routes \<Rightarrow> pick before now_ms e1 key routes)"
    by (rule Cons.IH) (use Cons.prems g st in \<open>auto simp: btree.shape_ins\<close>)
  show ?case
  proof (cases "key = k")
    case True
    then have "map_of gs key = None" using Cons.prems(1) g by (simp add: map_of_eq_None_iff)
    then show ?thesis using IH True g p b Cons.prems(3) by (simp add: btree.map_of_ins)
  next
    case False
    then show ?thesis using IH g b Cons.prems(3) pick_cong [OF h [OF False]]
      by (simp add: btree.map_of_ins split: option.splits)
  qed
qed

lemma selected_select_keys:
  assumes "fold (select_key (selected e) now_ms) (grouped_candidates E e) ([], e) = (next, e1)"
  shows "sorted_wrt (<) (table_keys next)" "base e1 = base e" "hyst_ok e \<Longrightarrow> hyst_ok e1"
    "map_of next key = map_option selected_from_candidate (selection E now_ms e key)"
proof -
  have d: "distinct (table_keys (grouped_candidates E e))"
    by (rule strict_sorted_distinct [OF grouped_sorted])
  have ne: "rs \<noteq> []" if "(k, rs) \<in> set (grouped_candidates E e)" for k rs
  proof -
    have "map_of (grouped_candidates E e) k = Some rs" by (rule map_of_is_SomeI [OF d that])
    then show ?thesis by (auto simp: grouped_lookup split: list.splits)
  qed
  have "sorted_wrt (<) (table_keys next) \<and> base e1 = base e \<and> (hyst_ok e \<longrightarrow> hyst_ok e1) \<and>
    map_of next key = (case map_of (grouped_candidates E e) key of None \<Rightarrow> map_of [] key
                        | Some routes \<Rightarrow> pick (selected e) now_ms e key routes)"
    by (rule select_keys_lookup [OF d ne _ assms]) simp_all
  moreover have "(case map_of (grouped_candidates E e) key of None \<Rightarrow> map_of [] key
      | Some routes \<Rightarrow> pick (selected e) now_ms e key routes)
    = map_option selected_from_candidate (selection E now_ms e key)"
  proof (cases "routes_for E e key")
    case Nil
    then show ?thesis by (simp add: grouped_lookup selection_def)
  next
    case (Cons c cs)
    then have "map_of (grouped_candidates E e) key = Some (routes_for E e key)"
      by (simp add: grouped_lookup)
    then show ?thesis
      by (simp add: selection_def pick_def current_route_def option.map_comp comp_def)
  qed
  ultimately show "sorted_wrt (<) (table_keys next)" "base e1 = base e" "hyst_ok e \<Longrightarrow> hyst_ok e1"
    "map_of next key = map_option selected_from_candidate (selection E now_ms e key)"
    by (simp_all only:)
qed

section \<open>Reselection\<close>

text \<open>What selection does not touch.\<close>

definition learned_same :: "'m engine \<Rightarrow> 'm engine \<Rightarrow> bool" where
  "learned_same e e' \<longleftrightarrow>
     resources e' = resources e \<and> config e' = config e \<and> interface_config e' = interface_config e
     \<and> neighbours e' = neighbours e \<and> candidates e' = candidates e
     \<and> advertised_until e' = advertised_until e"

lemma learned_same_refl [simp]: "learned_same e e"
  by (simp add: learned_same_def)

lemma learned_same_trans: "learned_same e e' \<Longrightarrow> learned_same e' e'' \<Longrightarrow> learned_same e e''"
  by (simp add: learned_same_def)

lemma kept_learned_same: "kept e e' \<Longrightarrow> learned_same e e'"
  by (simp add: kept_def learned_same_def)

definition tables_sorted :: "'m engine \<Rightarrow> bool" where
  "tables_sorted e \<longleftrightarrow> sorted_wrt (<) (table_keys (selected e)) \<and> sorted_wrt (<) (table_keys (tombstones e))"

text \<open>The hysteresis tables mention selected keys only, and no selected key is unreachable.\<close>

definition selection_ok :: "'m engine \<Rightarrow> bool" where
  "selection_ok e \<longleftrightarrow>
     set (table_keys (pending_switches e)) \<subseteq> set (table_keys (selected e))
     \<and> set (table_keys (settling_since e)) \<subseteq> set (table_keys (selected e))
     \<and> set (settled_routes e) \<subseteq> set (table_keys (selected e))
     \<and> set (table_keys (selected e)) \<inter> set (table_keys (tombstones e)) = {}"

lemma fold_delete_keys:
  "set (table_keys (fold AList.delete ks m)) = set (table_keys m) - set ks"
  by (induction ks arbitrary: m) (auto simp: delete_table_eq)

lemma fold_delete_sorted:
  "sorted_wrt (<) (table_keys m) \<Longrightarrow> sorted_wrt (<) (table_keys (fold AList.delete ks m))"
  by (rule fold_keeps) (auto intro: sorted_keys_delete)

lemma fold_bt_insert_keys:
  "set (table_keys (fold (\<lambda>key. bt_insert key (f key)) ks m)) = set (table_keys m) \<union> set ks"
proof (induction ks arbitrary: m)
  case Nil
  then show ?case by simp
next
  case (Cons k ks)
  show ?case by (simp only: fold_simps Cons.IH set_keys_bt_insert) auto
qed

lemma fold_bt_insert_sorted:
  "sorted_wrt (<) (table_keys m) \<Longrightarrow> sorted_wrt (<) (table_keys (fold (\<lambda>key. bt_insert key (f key)) ks m))"
  by (rule fold_keeps) (auto intro: sorted_bt_insert)

lemma hold_removed_eq:
  "hold_removed E removed now_ms e =
     (if removed = [] then e
      else e\<lparr>tombstones := fold (\<lambda>key. bt_insert key
        (max (max (get_or now_ms (fold (note_expiry removed) (table_values (iter_candidates E (candidates e))) []) key)
               (sat_add now_ms (ucast (longest_update_interval e) * 35)))
             (get_or 0 (advertised_until e) key))) (iter_key_set E removed) (tombstones e)\<rparr>)"
  by (simp add: hold_removed_def Let_def)

lemma set_iter_key_set [simp]: "set (iter_key_set E ks) = set ks"
  by (simp add: iter_key_set_def)

lemma hold_removed_frame:
  "\<exists>stones. hold_removed E removed now_ms e = e\<lparr>tombstones := stones\<rparr>
     \<and> set (table_keys stones) = set (table_keys (tombstones e)) \<union> set removed
     \<and> (sorted_wrt (<) (table_keys (tombstones e)) \<longrightarrow> sorted_wrt (<) (table_keys stones))"
proof (cases "removed = []")
  case True
  then show ?thesis by (intro exI [of _ "tombstones e"]) (simp add: hold_removed_def)
next
  case False
  let ?f = "\<lambda>key. max (max (get_or now_ms (fold (note_expiry removed)
      (table_values (iter_candidates E (candidates e))) []) key)
    (sat_add now_ms (ucast (longest_update_interval e) * 35))) (get_or 0 (advertised_until e) key)"
  from False have "hold_removed E removed now_ms e = e\<lparr>tombstones :=
      fold (\<lambda>key. bt_insert key (?f key)) (iter_key_set E removed) (tombstones e)\<rparr>"
    by (simp add: hold_removed_eq)
  then show ?thesis
    using fold_bt_insert_keys [of ?f "iter_key_set E removed" "tombstones e"]
      fold_bt_insert_sorted [of "tombstones e" ?f "iter_key_set E removed"]
    unfolding set_iter_key_set by blast
qed

lemma filter_keys_subset: "set (table_keys (filter (\<lambda>(k, _). contains_key m k) t)) \<subseteq> set (table_keys m)"
  by (force dest: map_of_SomeD)

lemma retain_selected_fields:
  "pending_switches (retain_selected e) = filter (\<lambda>(key, _). contains_key (selected e) key) (pending_switches e)"
  "settling_since (retain_selected e) = filter (\<lambda>(key, _). contains_key (selected e) key) (settling_since e)"
  "settled_routes (retain_selected e) = filter (contains_key (selected e)) (settled_routes e)"
  "selected (retain_selected e) = selected e" "tombstones (retain_selected e) = tombstones e"
  by (simp_all add: retain_selected_def Let_def)

lemma retain_selected_ok:
  assumes "set (table_keys (selected e)) \<inter> set (table_keys (tombstones e)) = {}"
  shows "selection_ok (retain_selected e)"
proof -
  have "set (filter (contains_key (selected e)) ks) \<subseteq> set (table_keys (selected e))" for ks
    by (force dest: map_of_SomeD)
  then show ?thesis
    using assms filter_keys_subset [of "selected e" "pending_switches e"]
      filter_keys_subset [of "selected e" "settling_since e"]
    unfolding selection_ok_def retain_selected_fields by blast
qed

lemma retain_selected_hyst_ok: "hyst_ok e \<Longrightarrow> hyst_ok (retain_selected e)"
  by (simp add: hyst_ok_def retain_selected_def Let_def)

lemma retain_selected_base: "base (retain_selected e) = base e"
  by (simp add: base_def retain_selected_def Let_def)

lemma select_routes_facts:
  assumes "select_routes E now_ms e = e'"
  shows "map_of (selected e') key = map_option selected_from_candidate (selection E now_ms e key)"
    and "selection_ok e'" and "hyst_ok e \<Longrightarrow> hyst_ok e'" and "tables_sorted e \<Longrightarrow> tables_sorted e'"
    and "learned_same e e'" and "out_ok e \<Longrightarrow> out_ok e'"
    and "feasible e' = feasible e" "pending_seqno e' = pending_seqno e" "interfaces e' = interfaces e"
    and "generation e' = generation e"
    and "set (table_keys (tombstones e')) =
      set (table_keys (tombstones e)) - set (table_keys (selected e'))
      \<union> (set (table_keys (selected e)) - set (table_keys (selected e')))"
proof -
  obtain "next" e1 where f: "fold (select_key (selected e) now_ms) (grouped_candidates E e) ([], e) = (next, e1)"
    by fastforce
  note sel = selected_select_keys [OF f]
  note base = base_fields [OF sel(2)]
  define e2 where "e2 = e1\<lparr>selected := next, tombstones := fold AList.delete (table_keys next) (tombstones e1)\<rparr>"
  define removed where "removed = filter (\<lambda>key. \<not> contains_key next key) (table_keys (selected e))"
  obtain stones where h: "hold_removed E removed now_ms e2 = e2\<lparr>tombstones := stones\<rparr>"
    and st: "set (table_keys stones) = set (table_keys (tombstones e2)) \<union> set removed"
    and so: "sorted_wrt (<) (table_keys (tombstones e2)) \<Longrightarrow> sorted_wrt (<) (table_keys stones)"
    using hold_removed_frame [of E removed now_ms e2] by auto
  have e': "e' = retain_selected (e2\<lparr>tombstones := stones\<rparr>)"
    using assms f h by (simp add: select_routes_def Let_def e2_def removed_def)
  note fields = base_fields [OF retain_selected_base [of "e2\<lparr>tombstones := stones\<rparr>"]]
  have rem: "set removed = set (table_keys (selected e)) - set (table_keys next)"
    by (auto simp: removed_def map_of_eq_None_iff)
  have stones: "set (table_keys stones) = set (table_keys (tombstones e)) - set (table_keys next)
      \<union> (set (table_keys (selected e)) - set (table_keys next))"
    using st rem base by (simp add: e2_def fold_delete_keys del: set_map)
  show "map_of (selected e') key = map_option selected_from_candidate (selection E now_ms e key)"
    using sel(4) unfolding e' fields by (simp add: e2_def)
  show "selection_ok e'"
    unfolding e' by (rule retain_selected_ok) (use stones in \<open>auto simp: e2_def\<close>)
  show "hyst_ok e \<Longrightarrow> hyst_ok e'"
    unfolding e' by (rule retain_selected_hyst_ok) (use sel(3) in \<open>simp add: hyst_ok_def e2_def\<close>)
  show "tables_sorted e \<Longrightarrow> tables_sorted e'"
    using so sel(1) base unfolding tables_sorted_def e' fields by (simp add: e2_def fold_delete_sorted)
  show "learned_same e e'"
    using base unfolding learned_same_def e' interface_config_def fields by (simp add: e2_def)
  show "out_ok e \<Longrightarrow> out_ok e'"
    using base unfolding out_ok_def e' fields by (simp add: e2_def)
  show "feasible e' = feasible e" "pending_seqno e' = pending_seqno e" "interfaces e' = interfaces e"
    "generation e' = generation e"
    using base unfolding e' fields by (simp_all add: e2_def)
  show "set (table_keys (tombstones e')) = set (table_keys (tombstones e)) - set (table_keys (selected e'))
      \<union> (set (table_keys (selected e)) - set (table_keys (selected e')))"
    using stones unfolding e' fields by (simp add: e2_def)
qed

section \<open>The output of a reselection\<close>

lemma retract_lost_quiet: "quiet e0 (actions, e) \<Longrightarrow> quiet e0 (retract_lost targets now_ms x (actions, e))"
proof -
  assume q: "quiet e0 (actions, e)"
  obtain key previous where x: "x = (key, previous)" by fastforce
  let ?e = "repeat_advertisement key now_ms e"
  have "quiet e (send_retraction ?e key (sel_seqno previous) now_ms, ?e)"
    by (auto simp: quiet_def repeat_advertisement_out_ok)
      (simp add: send_retraction_quiet repeat_advertisement_def)
  then have r: "quiet e0 (actions @ send_retraction ?e key (sel_seqno previous) now_ms, ?e)"
    by (rule quiet_trans [OF q])
  show ?thesis
    using q r quiet_trans [OF r originate_seqno_request_quiet]
    by (auto simp: retract_lost_def x Let_def split: option.splits prod.splits)
qed

lemma set_urgent_quiet:
  "list_all (\<lambda>a. \<not> is_routes_changed a \<and> allowed c a) acts \<Longrightarrow>
     list_all (\<lambda>a. \<not> is_routes_changed a \<and> allowed c a) (map (set_urgent now_ms) acts)"
  by (auto simp: list_all_iff set_urgent_def split: action.splits)

lemma finite_advertised:
  assumes "list_ex sends_finite_update (advertise_learned e route metric learned now_ms)"
  shows "metric \<noteq> INFINITY"
  using assms advertisement_metric(2)
  by (fastforce simp: list_ex_iff advertise_learned_def List.map_filter_def Let_def
      sends_finite_update_def finite_update_def split: if_splits)

lemma sends_finite_set_urgent [simp]: "sends_finite_update (set_urgent now_ms a) = sends_finite_update a"
  by (auto simp: sends_finite_update_def set_urgent_def split: action.splits)

lemma list_ex_set_urgent [simp]:
  "list_ex sends_finite_update (map (set_urgent now_ms) acts) = list_ex sends_finite_update acts"
  by (auto simp: list_ex_iff)

lemma advertise_changed_quiet:
  "quiet e0 (actions, e) \<Longrightarrow> quiet e0 (advertise_changed before now_ms route (actions, e))"
proof -
  assume q: "quiet e0 (actions, e)"
  let ?e = "repeat_advertisement (sel_key route) now_ms e"
  let ?s = "advertise_learned ?e route (sel_metric route) (Some (sel_interface route)) now_ms"
  let ?d = "\<lparr>d_seqno = sel_seqno route, d_metric = sel_metric route\<rparr>"
  have s: "list_all (\<lambda>a. \<not> is_routes_changed a \<and> allowed (config e) a) ?s"
    by (rule advertise_learned_quiet) (simp add: repeat_advertisement_def)
  have k: "kept e ?e" "kept e (maintain_source (sel_key route) (sel_router_id route) ?d now_ms ?e)"
    by (auto intro: kept_trans)
  have ok: "out_ok e \<Longrightarrow> list_ex sends_finite_update ?s \<Longrightarrow>
      out_ok (maintain_source (sel_key route) (sel_router_id route) ?d now_ms ?e)"
    by (simp add: finite_advertised maintain_source_out_ok repeat_advertisement_out_ok)
  define sends where "sends = (if (case map_of before (sel_key route) of None \<Rightarrow> True
      | Some previous \<Rightarrow> sel_router_id previous \<noteq> sel_router_id route)
    then map (set_urgent now_ms) ?s else ?s)"
  define e' where "e' = (if list_ex sends_finite_update sends
    then maintain_source (sel_key route) (sel_router_id route) ?d now_ms ?e else ?e)"
  have "list_ex sends_finite_update sends = list_ex sends_finite_update ?s" by (simp add: sends_def)
  then have "quiet e (sends, e')"
    using s set_urgent_quiet [OF s] k ok by (auto simp: quiet_def sends_def e'_def repeat_advertisement_out_ok)
  moreover have "advertise_changed before now_ms route (actions, e) = (actions @ sends, e')"
    by (simp add: advertise_changed_def Let_def sends_def e'_def)
  ultimately show ?thesis using quiet_trans [OF q] by simp
qed

lemma selected_delta_quiet: "quiet e (selected_delta E before now_ms e)"
proof -
  obtain actions e1 where a: "fold (retract_lost (request_targets E before e) now_ms) before ([], e) = (actions, e1)"
    by fastforce
  have "quiet e (fold (retract_lost (request_targets E before e) now_ms) before ([], e))"
    by (rule quiet_fold) (simp_all add: retract_lost_quiet)
  then have "quiet e (actions, e1)" using a by simp
  then show ?thesis
    by (simp add: selected_delta_def Let_def a quiet_fold advertise_changed_quiet)
qed

section \<open>The effect of a reselection on the state and on the host\<close>

text \<open>The selected routes and unreachable keys a host knows after executing actions in order.\<close>

definition host_step :: "action \<Rightarrow> selected_route list \<times> route_key list \<Rightarrow> selected_route list \<times> route_key list" where
  "host_step a view = (case a of RoutesChanged _ routes unreachable \<Rightarrow> (routes, unreachable) | _ \<Rightarrow> view)"

definition host_view ::
    "action list \<Rightarrow> selected_route list \<times> route_key list \<Rightarrow> selected_route list \<times> route_key list" where
  "host_view actions view = fold host_step actions view"

definition rib :: "'m engine \<Rightarrow> selected_route list \<times> route_key list" where
  "rib e = (selected_routes e, unreachable_routes e)"

lemma host_view_append [simp]: "host_view (xs @ ys) v = host_view ys (host_view xs v)"
  by (simp add: host_view_def)

lemma host_view_simps [simp]:
  "host_view [] v = v" "host_view (RoutesChanged g rs us # xs) v = host_view xs (rs, us)"
  "host_view (Send i d p t # xs) v = host_view xs v"
  "host_view (SequenceNumberChanged s # xs) v = host_view xs v"
  "host_view (InvalidatePendingSends # xs) v = host_view xs v"
  by (simp_all add: host_view_def host_step_def)

lemma host_view_quiet: "list_all (\<lambda>a. \<not> is_routes_changed a \<and> P a) xs \<Longrightarrow> host_view xs v = v"
proof (induction xs arbitrary: v)
  case (Cons a xs)
  then show ?case by (cases a) auto
qed simp

lemma quiet_host_view: "quiet e (actions, e') \<Longrightarrow> host_view actions (rib e) = rib e'"
  using host_view_quiet [of "allowed (config e)" actions "rib e"]
  by (simp add: quiet_def kept_def rib_def selected_routes_def unreachable_routes_def)

lemma reselect_unchanged:
  assumes "reselect E now_ms e = (actions, e')"
    "selected (select_routes E now_ms e) = selected e"
    "table_keys (tombstones (select_routes E now_ms e)) = table_keys (tombstones e)"
  shows "actions = []" "e' = select_routes E now_ms e"
  using assms by (simp_all add: reselect_def Let_def)

lemma reselect_changed:
  assumes "reselect E now_ms e = (actions, e')"
    "selected (select_routes E now_ms e) \<noteq> selected e
     \<or> table_keys (tombstones (select_routes E now_ms e)) \<noteq> table_keys (tombstones e)"
  obtains acts e1 where "e1 = (select_routes E now_ms e)\<lparr>generation := generation e + 1\<rparr>"
    "actions = RoutesChanged (generation e + 1) (selected_routes e1) (unreachable_routes e1) # acts"
    "selected_delta E (selected e) now_ms e1 = (acts, e')" "quiet e1 (acts, e')"
proof -
  let ?e = "(select_routes E now_ms e)\<lparr>generation := generation e + 1\<rparr>"
  obtain acts e3 where d: "selected_delta E (selected e) now_ms ?e = (acts, e3)" by fastforce
  have g: "generation (select_routes E now_ms e) = generation e" by (rule select_routes_facts(10)) simp
  show ?thesis
    by (rule that [of ?e acts])
      (use assms g d selected_delta_quiet [of ?e E "selected e" now_ms] in
        \<open>auto simp: reselect_def Let_def route_snapshot_def\<close>)
qed

lemma reselect_facts:
  assumes r: "reselect E now_ms e = (actions, e')"
  shows "map_of (selected e') key = map_option selected_from_candidate (selection E now_ms e key)"
    and "selection_ok e'" and "hyst_ok e \<Longrightarrow> hyst_ok e'" and "tables_sorted e \<Longrightarrow> tables_sorted e'"
    and "learned_same e e'" and "out_ok e \<Longrightarrow> out_ok e'"
    and "list_all (allowed (config e)) actions"
    and "host_view actions (rib e) = rib e'"
    and "\<not> list_ex is_routes_changed actions \<Longrightarrow> actions = [] \<and> selected e' = selected e \<and>
           table_keys (tombstones e') = table_keys (tombstones e)"
proof -
  note s = select_routes_facts [OF refl, where E = E and now_ms = now_ms and e = e]
  have "map_of (selected e') key = map_option selected_from_candidate (selection E now_ms e key) \<and>
      selection_ok e' \<and> (hyst_ok e \<longrightarrow> hyst_ok e') \<and> (tables_sorted e \<longrightarrow> tables_sorted e') \<and>
      learned_same e e' \<and> (out_ok e \<longrightarrow> out_ok e') \<and> list_all (allowed (config e)) actions \<and>
      host_view actions (rib e) = rib e' \<and>
      (\<not> list_ex is_routes_changed actions \<longrightarrow> actions = [] \<and> selected e' = selected e \<and>
           table_keys (tombstones e') = table_keys (tombstones e))"
  proof (cases "selected (select_routes E now_ms e) = selected e
      \<and> table_keys (tombstones (select_routes E now_ms e)) = table_keys (tombstones e)")
    case True
    then have "rib (select_routes E now_ms e) = rib e"
      by (simp add: rib_def selected_routes_def unreachable_routes_def)
    then show ?thesis using s True reselect_unchanged [OF r] by simp
  next
    case False
    then obtain acts e1 where e1: "e1 = (select_routes E now_ms e)\<lparr>generation := generation e + 1\<rparr>"
      and a: "actions = RoutesChanged (generation e + 1) (selected_routes e1) (unreachable_routes e1) # acts"
      and q: "quiet e1 (acts, e')"
      using reselect_changed [OF r] by blast
    have k: "kept e1 e'" "out_ok e1 \<Longrightarrow> out_ok e'" "list_all (allowed (config e1)) acts"
      using q by (auto simp: quiet_def list_all_iff)
    have f: "config e1 = config e" "learned_same e e1" "out_ok e1 = out_ok (select_routes E now_ms e)"
      using s(5) by (simp_all add: e1 learned_same_def interface_config_def out_ok_def)
    have "host_view actions (rib e) = rib e'"
      using quiet_host_view [OF q] by (simp add: a rib_def)
    then show ?thesis
      using s(1-4,6) k f learned_same_trans [OF f(2) kept_learned_same [OF k(1)]]
      by (auto simp: a e1 kept_def selection_ok_def hyst_ok_def tables_sorted_def)
  qed
  then show "map_of (selected e') key = map_option selected_from_candidate (selection E now_ms e key)"
    and "selection_ok e'" and "hyst_ok e \<Longrightarrow> hyst_ok e'" and "tables_sorted e \<Longrightarrow> tables_sorted e'"
    and "learned_same e e'" and "out_ok e \<Longrightarrow> out_ok e'"
    and "list_all (allowed (config e)) actions"
    and "host_view actions (rib e) = rib e'"
    and "\<not> list_ex is_routes_changed actions \<Longrightarrow> actions = [] \<and> selected e' = selected e \<and>
           table_keys (tombstones e') = table_keys (tombstones e)"
    by blast+
qed

end
