(* ===== verification/Babel_Invariants.thy ===== *)
theory Babel_Invariants
  imports Babel_Selection
begin

text \<open>
  The invariant of the engine and the proof that every event keeps it.

  \<open>learn_ok\<close> is about the learned tables: limits, counters, and what admission guarantees of a
  candidate. \<open>selection_ok\<close> and \<open>backed\<close> are about the selection: they fail between a change of the
  candidates and the reselection that follows, so the proofs carry \<open>pre_ok\<close>, the part that always
  holds, through an event, and re-establish the rest where the code reselects.
\<close>

section \<open>The invariant\<close>

text \<open>The number of candidates from one neighbour.\<close>

definition candidates_of :: "(route_key \<times> neighbor_key, candidate) table \<Rightarrow> neighbor_key \<Rightarrow> nat" where
  "candidates_of cs nk = card {k \<in> set (table_keys cs). snd k = nk}"

text \<open>A candidate is filed under its key and neighbour, comes from another router, is unreachable
  or costs more than its neighbour advertised, and was admitted by the fixed checks and by the
  import policy in force.\<close>

definition candidate_ok :: "ipnet \<Rightarrow> 'm engine_config \<Rightarrow> route_key \<Rightarrow> neighbor_key \<Rightarrow> candidate \<Rightarrow> bool" where
  "candidate_ok N cfg key nk c \<longleftrightarrow>
     c_key c = key \<and> c_interface c = nk_interface nk \<and> c_router_id c \<noteq> cfg_router_id cfg
     \<and> (c_metric c = INFINITY \<or> c_advertised_metric c < c_metric c)
     \<and> \<not> forbidden_destination N (destination key)
     \<and> (is_ipv4 (net_addr (destination key)) \<and> is_ipv6 (c_next_hop c) \<longrightarrow> cfg_ipv4_via_ipv6 cfg)
     \<and> (c_advertised_metric c \<noteq> INFINITY \<longrightarrow> accept (cfg_route_policy cfg) (candidate_context nk c))"

text \<open>A neighbour is on an attached interface, in the address family of its control transport.\<close>

definition on_interface :: "(string, 'm interface_policy \<times> ip_addr list) table \<Rightarrow> neighbor_key \<Rightarrow> bool" where
  "on_interface ifs nk =
     (case map_of ifs (nk_interface nk) of
        None \<Rightarrow> False
      | Some (p, _) \<Rightarrow> is_ipv4 (nk_address nk) = is_ipv4 (multicast (ip_control_transport p)))"

definition learn_ok :: "ipnet \<Rightarrow> 'm engine \<Rightarrow> bool" where
  "learn_ok N e \<longleftrightarrow>
     sorted_wrt (<) (table_keys (interface_config e)) \<and> distinct (table_keys (neighbours e))
     \<and> distinct (table_keys (candidates e))
     \<and> length (neighbours e) \<le> max_neighbors (cfg_limits (config e))
     \<and> length (candidates e) \<le> max_candidates (cfg_limits (config e))
     \<and> (\<forall>((key, nk), c) \<in> set (candidates e).
          candidate_ok N (config e) key nk c \<and> contains_key (neighbours e) nk)
     \<and> (\<forall>(nk, n) \<in> set (neighbours e).
          on_interface (interface_config e) nk \<and> nb_candidates n = candidates_of (candidates e) nk
          \<and> nb_candidates n \<le> max_candidates_per_neighbor (cfg_limits (config e)))"

text \<open>Every selected route is a current candidate with a finite metric.\<close>

definition backed :: "'m engine \<Rightarrow> bool" where
  "backed e \<longleftrightarrow> (\<forall>(key, r) \<in> set (selected e). \<exists>nk c.
     ((key, nk), c) \<in> set (candidates e) \<and> r = selected_from_candidate c \<and> c_metric c \<noteq> INFINITY)"

definition pre_ok :: "ipnet \<Rightarrow> 'm engine \<Rightarrow> bool" where
  "pre_ok N e \<longleftrightarrow> learn_ok N e \<and> tables_sorted e \<and> hyst_ok e \<and> out_ok e"

definition sel_ok :: "'m engine \<Rightarrow> bool" where
  "sel_ok e \<longleftrightarrow> selection_ok e \<and> backed e"

definition engine_ok :: "ipnet \<Rightarrow> 'm engine \<Rightarrow> bool" where
  "engine_ok N e \<longleftrightarrow> pre_ok N e \<and> sel_ok e"

section \<open>What the invariant depends on\<close>

lemma learn_ok_cong: "learned_same e e' \<Longrightarrow> learn_ok N e' = learn_ok N e"
  by (simp add: learned_same_def learn_ok_def)

lemma pre_ok_kept: "pre_ok N e \<Longrightarrow> kept e e' \<Longrightarrow> out_ok e' \<Longrightarrow> pre_ok N e'"
  using learn_ok_cong [OF kept_learned_same, of e e' N]
  by (simp add: pre_ok_def kept_def tables_sorted_def hyst_ok_def)

lemma sel_ok_kept: "kept e e' \<Longrightarrow> sel_ok e' = sel_ok e"
  by (simp add: kept_def sel_ok_def selection_ok_def backed_def)

lemma learn_okD:
  assumes "learn_ok N e"
  shows "sorted_wrt (<) (table_keys (interface_config e))" "distinct (table_keys (neighbours e))"
    "distinct (table_keys (candidates e))"
    "((key, nk), c) \<in> set (candidates e) \<Longrightarrow> candidate_ok N (config e) key nk c"
    "((key, nk), c) \<in> set (candidates e) \<Longrightarrow> contains_key (neighbours e) nk"
    "(nk, n) \<in> set (neighbours e) \<Longrightarrow> on_interface (interface_config e) nk"
    "(nk, n) \<in> set (neighbours e) \<Longrightarrow> nb_candidates n = candidates_of (candidates e) nk"
    "(nk, n) \<in> set (neighbours e) \<Longrightarrow>
       nb_candidates n \<le> max_candidates_per_neighbor (cfg_limits (config e))"
    "length (neighbours e) \<le> max_neighbors (cfg_limits (config e))"
    "length (candidates e) \<le> max_candidates (cfg_limits (config e))"
  using assms unfolding learn_ok_def by blast+

lemma learn_okI:
  assumes "sorted_wrt (<) (table_keys (interface_config e))" "distinct (table_keys (neighbours e))"
    "distinct (table_keys (candidates e))"
    "length (neighbours e) \<le> max_neighbors (cfg_limits (config e))"
    "length (candidates e) \<le> max_candidates (cfg_limits (config e))"
    "\<And>key nk c. ((key, nk), c) \<in> set (candidates e) \<Longrightarrow>
       candidate_ok N (config e) key nk c \<and> contains_key (neighbours e) nk"
    "\<And>nk n. (nk, n) \<in> set (neighbours e) \<Longrightarrow>
       on_interface (interface_config e) nk \<and> nb_candidates n = candidates_of (candidates e) nk
       \<and> nb_candidates n \<le> max_candidates_per_neighbor (cfg_limits (config e))"
  shows "learn_ok N e"
  unfolding learn_ok_def using assms by blast

lemma learned_updates:
  "interface_config (e\<lparr>neighbours := ns\<rparr>) = interface_config e"
  "config (e\<lparr>neighbours := ns\<rparr>) = config e" "neighbours (e\<lparr>neighbours := ns\<rparr>) = ns"
  "candidates (e\<lparr>neighbours := ns\<rparr>) = candidates e"
  "interface_config (e\<lparr>candidates := cs\<rparr>) = interface_config e"
  "config (e\<lparr>candidates := cs\<rparr>) = config e" "neighbours (e\<lparr>candidates := cs\<rparr>) = neighbours e"
  "candidates (e\<lparr>candidates := cs\<rparr>) = cs"
  by (simp_all add: interface_config_def)

section \<open>Changes of the learned tables\<close>

lemma contains_key_iff: "contains_key m k \<longleftrightarrow> k \<in> set (table_keys m)"
  by (simp add: map_of_eq_None_iff)

lemma candidates_of_map_values [simp]: "candidates_of (map_values f cs) nk = candidates_of cs nk"
  unfolding candidates_of_def keys_map_values ..

lemma candidates_of_update:
  assumes "distinct (table_keys cs)"
  shows "candidates_of (AList.update k c cs) nk =
    (if snd k = nk \<and> \<not> contains_key cs k then Suc (candidates_of cs nk) else candidates_of cs nk)"
proof -
  have "{k' \<in> set (table_keys (AList.update k c cs)). snd k' = nk} =
      (if snd k = nk then insert k {k' \<in> set (table_keys cs). snd k' = nk}
       else {k' \<in> set (table_keys cs). snd k' = nk})"
    unfolding hash_table.keys_ins [OF assms] by auto
  then show ?thesis
    unfolding candidates_of_def contains_key_iff by (simp add: card_insert_if del: set_map)
qed

lemma candidates_of_delete:
  "candidates_of (AList.delete k cs) nk =
     (if snd k = nk \<and> contains_key cs k then candidates_of cs nk - 1 else candidates_of cs nk)"
proof -
  have "{k' \<in> set (table_keys (AList.delete k cs)). snd k' = nk} = {k' \<in> set (table_keys cs). snd k' = nk} - {k}"
    by (auto simp: delete_table_eq)
  then show ?thesis
    unfolding candidates_of_def contains_key_iff by (simp add: card_Diff_singleton_if del: set_map)
qed

lemma learn_ok_neighbours:
  assumes "learn_ok N e" "table_keys ns = table_keys (neighbours e)"
    and "\<And>nk n. (nk, n) \<in> set ns \<Longrightarrow> \<exists>m. (nk, m) \<in> set (neighbours e) \<and> nb_candidates n = nb_candidates m"
  shows "learn_ok N (e\<lparr>neighbours := ns\<rparr>)"
proof -
  have l: "length ns = length (neighbours e)" using assms(2) by (metis length_map)
  have c: "contains_key ns nk = contains_key (neighbours e) nk" for nk
    using assms(2) by (metis map_of_eq_None_iff list.set_map)
  have "on_interface (interface_config e) nk \<and> nb_candidates n = candidates_of (candidates e) nk
      \<and> nb_candidates n \<le> max_candidates_per_neighbor (cfg_limits (config e))" if "(nk, n) \<in> set ns" for nk n
    using assms(3) [OF that] learn_okD(6-8) [OF assms(1)] by metis
  with learn_okD [OF assms(1)] l c show ?thesis
    by (intro learn_okI; unfold learned_updates) (simp_all only: assms(2), blast+)
qed

lemma learn_ok_modify_neighbour:
  "learn_ok N e \<Longrightarrow> (\<And>n. nb_candidates (f n) = nb_candidates n) \<Longrightarrow> learn_ok N (modify_neighbour nk f e)"
  unfolding modify_neighbour_def by (rule learn_ok_neighbours) (auto simp: set_modify)

lemma learn_ok_map_neighbours:
  "learn_ok N e \<Longrightarrow> (\<And>k n. nb_candidates (f k n) = nb_candidates n) \<Longrightarrow>
     learn_ok N (e\<lparr>neighbours := map_values f (neighbours e)\<rparr>)"
  by (rule learn_ok_neighbours) (auto simp: set_map_values)

lemma learn_ok_map_candidates:
  assumes "learn_ok N e"
    and "\<And>key nk c. ((key, nk), c) \<in> set (candidates e) \<Longrightarrow> candidate_ok N (config e) key nk c \<Longrightarrow>
           candidate_ok N (config e) key nk (f (key, nk) c)"
  shows "learn_ok N (e\<lparr>candidates := map_values f (candidates e)\<rparr>)"
proof (rule learn_okI; unfold learned_updates)
  note d = learn_okD [OF assms(1)]
  show "candidate_ok N (config e) key nk c \<and> contains_key (neighbours e) nk"
    if "((key, nk), c) \<in> set (map_values f (candidates e))" for key nk c
    using that assms(2) d(4,5) by (auto simp: set_map_values)
qed (use learn_okD [OF assms(1)] in \<open>simp_all\<close>)

lemma modify_map_values: "modify k f m = map_values (\<lambda>k' v. if k' = k then f v else v) m"
  by (simp add: modify_def map_values_def)

lemma learn_ok_modify_candidate:
  assumes "learn_ok N e"
    and "\<And>key nk c. ((key, nk), c) \<in> set (candidates e) \<Longrightarrow> candidate_ok N (config e) key nk c \<Longrightarrow>
           candidate_ok N (config e) key nk (f c)"
  shows "learn_ok N (e\<lparr>candidates := modify k f (candidates e)\<rparr>)"
  unfolding modify_map_values by (rule learn_ok_map_candidates) (use assms in auto)

lemma candidate_ok_retracted: "candidate_ok N cfg key nk c \<Longrightarrow> candidate_ok N cfg key nk (retracted c)"
  by (simp add: candidate_ok_def retracted_def)

text \<open>Removing a set of candidates while keeping the counters exact.\<close>

lemma learn_ok_delete_candidate:
  assumes "learn_ok N e" "contains_key (candidates e) (key, nk)"
  shows "learn_ok N (modify_neighbour nk (\<lambda>n. n\<lparr>nb_candidates := nb_candidates n - 1\<rparr>)
      (e\<lparr>candidates := AList.delete (key, nk) (candidates e)\<rparr>))"
proof -
  let ?cs = "AList.delete (key, nk) (candidates e)"
  let ?ns = "modify nk (\<lambda>n. n\<lparr>nb_candidates := nb_candidates n - 1\<rparr>) (neighbours e)"
  note d = learn_okD [OF assms(1)]
  have "on_interface (interface_config e) m \<and> nb_candidates n = candidates_of ?cs m
      \<and> nb_candidates n \<le> max_candidates_per_neighbor (cfg_limits (config e))" if "(m, n) \<in> set ?ns" for m n
  proof -
    obtain n' where n': "(m, n') \<in> set (neighbours e)"
      "n = (if m = nk then n'\<lparr>nb_candidates := nb_candidates n' - 1\<rparr> else n')"
      using \<open>(m, n) \<in> set ?ns\<close> by (auto simp: set_modify)
    then show ?thesis using d(6) [OF n'(1)] d(7) [OF n'(1)] d(8) [OF n'(1)] assms(2)
      by (auto simp: candidates_of_delete)
  qed
  moreover have "length ?cs \<le> max_candidates (cfg_limits (config e))"
    using length_delete_le [of "(key, nk)" "candidates e"] d(10) by linarith
  moreover have "distinct (table_keys ?cs)" using d(3) by (simp add: distinct_delete)
  moreover have "candidate_ok N (config e) key' m c \<and> contains_key ?ns m"
    if "((key', m), c) \<in> set ?cs" for key' m c
    using that d(4,5) by (auto simp: set_delete_table table)
  moreover have "distinct (table_keys ?ns)" using d(2) by simp
  moreover have "length ?ns \<le> max_neighbors (cfg_limits (config e))" using d(9) by simp
  ultimately show ?thesis
    unfolding modify_neighbour_def
    by (intro learn_okI; unfold learned_updates) (use d(1) in \<open>blast\<close>)+
qed

lemma learn_ok_insert_candidate:
  assumes "learn_ok N e" "map_of (neighbours e) nk = Some n" "candidate_ok N (config e) key nk c"
    and "contains_key (candidates e) (key, nk) \<or> \<not> candidate_refused e n"
  shows "learn_ok N (insert_candidate key nk c e)"
proof -
  let ?new = "\<not> contains_key (candidates e) (key, nk)"
  let ?cs = "AList.update (key, nk) c (candidates e)"
  let ?f = "\<lambda>n. if ?new then n\<lparr>nb_candidates := nb_candidates n + 1\<rparr> else n"
  let ?ns = "modify nk ?f (neighbours e)"
  note d = learn_okD [OF assms(1)]
  have ins: "insert_candidate key nk c e = e\<lparr>neighbours := ?ns, candidates := ?cs\<rparr>"
    by (cases ?new) (simp_all add: insert_candidate_def modify_neighbour_def modify_def case_prod_unfold)
  have "on_interface (interface_config e) m \<and> nb_candidates n1 = candidates_of ?cs m
      \<and> nb_candidates n1 \<le> max_candidates_per_neighbor (cfg_limits (config e))" if n1: "(m, n1) \<in> set ?ns" for m n1
  proof -
    obtain n' where n': "(m, n') \<in> set (neighbours e)" "n1 = (if m = nk then ?f n' else n')"
      using n1 by (auto simp: set_modify)
    moreover have "n' = n" if "m = nk"
      using map_of_is_SomeI [OF d(2) n'(1)] assms(2) that by simp
    ultimately show ?thesis using d(6) [OF n'(1)] d(7) [OF n'(1)] d(8) [OF n'(1)] assms(4) d(3)
      by (auto simp: candidates_of_update candidate_refused_def per_neighbor_full_def)
  qed
  moreover have "length ?cs \<le> max_candidates (cfg_limits (config e))"
    using assms(1,4) d(3) by (auto simp: hash_table.length_ins learn_ok_def candidate_refused_def)
  moreover have "contains_key ?ns m = contains_key (neighbours e) m" for m by (simp add: table)
  moreover have "distinct (table_keys ?cs)" using d(3) by (simp add: distinct_update)
  moreover have "candidate_ok N (config e) key' m c' \<and> contains_key (neighbours e) m"
    if "((key', m), c') \<in> set ?cs" for key' m c'
    using that assms(2,3) d(4,5) by (auto simp: hash_table.set_ins [OF d(3)])
  moreover have "distinct (table_keys ?ns)" "length ?ns = length (neighbours e)" using d(2) by simp_all
  ultimately show ?thesis
    unfolding ins by (intro learn_okI; unfold learned_updates) (use d in \<open>blast | presburger\<close>)+
qed

lemma candidates_of_absent:
  assumes "learn_ok N e" "\<not> contains_key (neighbours e) nk"
  shows "candidates_of (candidates e) nk = 0"
proof -
  have "{k \<in> set (table_keys (candidates e)). snd k = nk} = {}"
    using learn_okD(5) [OF assms(1)] assms(2) by fastforce
  then show ?thesis by (simp add: candidates_of_def del: set_map)
qed

lemma learn_ok_insert_neighbour:
  assumes "learn_ok N e" "on_interface (interface_config e) nk"
    and "nb_candidates n = (case map_of (neighbours e) nk of None \<Rightarrow> 0 | Some m \<Rightarrow> nb_candidates m)"
    and "contains_key (neighbours e) nk \<or> length (neighbours e) < max_neighbors (cfg_limits (config e))"
  shows "learn_ok N (e\<lparr>neighbours := AList.update nk n (neighbours e)\<rparr>)"
proof -
  let ?ns = "AList.update nk n (neighbours e)"
  note d = learn_okD [OF assms(1)]
  have "on_interface (interface_config e) m \<and> nb_candidates n1 = candidates_of (candidates e) m
      \<and> nb_candidates n1 \<le> max_candidates_per_neighbor (cfg_limits (config e))"
    if "(m, n1) \<in> set ?ns" for m n1
  proof (cases "m = nk \<and> n1 = n")
    case True
    show ?thesis
    proof (cases "map_of (neighbours e) nk")
      case None
      then show ?thesis using True assms(2,3) candidates_of_absent [OF assms(1), of nk] by simp
    next
      case (Some m')
      then show ?thesis
        using True assms(2,3) d(7,8) [OF map_of_SomeD [OF Some]] by simp
    qed
  next
    case False
    then have "(m, n1) \<in> set (neighbours e)" using that by (auto simp: hash_table.set_ins [OF d(2)])
    then show ?thesis using d(6-8) by blast
  qed
  moreover have "length ?ns \<le> max_neighbors (cfg_limits (config e))"
    using assms(1,4) d(2) by (auto simp: hash_table.length_ins learn_ok_def)
  moreover have "contains_key ?ns m" if "contains_key (neighbours e) m" for m
    using that by (simp add: update_conv')
  moreover have "distinct (table_keys ?ns)" using d(2) by (simp add: distinct_update)
  ultimately show ?thesis
    by (intro learn_okI; unfold learned_updates) (use d in metis)+
qed

text \<open>Dropping a set of neighbours together with their candidates.\<close>

lemma learn_ok_drop:
  assumes "learn_ok N e"
    and "ns = filter (\<lambda>(nk, _). P nk) (neighbours e)"
    and "cs = filter (\<lambda>((_, nk), _). P nk) (candidates e)"
  shows "learn_ok N (e\<lparr>neighbours := ns, candidates := cs\<rparr>)"
proof -
  note d = learn_okD [OF assms(1)]
  have "candidates_of cs nk = candidates_of (candidates e) nk" if "P nk" for nk
  proof -
    have "{k \<in> set (table_keys cs). snd k = nk} = {k \<in> set (table_keys (candidates e)). snd k = nk}"
      using that by (force simp: assms(3))
    then show ?thesis by (simp add: candidates_of_def)
  qed
  moreover have "contains_key ns nk" if "P nk" "contains_key (neighbours e) nk" for nk
    using that by (simp add: assms(2) map_of_filter_keys case_prod_unfold)
  moreover have "length ns \<le> length (neighbours e)" "length cs \<le> length (candidates e)"
    by (simp_all add: assms(2,3))
  moreover have "distinct (table_keys ns)" "distinct (table_keys cs)" using d(2,3) by (simp_all add: assms(2,3))
  moreover have "(nk, n) \<in> set ns \<Longrightarrow> (nk, n) \<in> set (neighbours e) \<and> P nk" for nk n by (simp add: assms(2))
  moreover have "((key, nk), c) \<in> set cs \<Longrightarrow> ((key, nk), c) \<in> set (candidates e) \<and> P nk" for key nk c
    by (simp add: assms(3))
  ultimately show ?thesis
    by (intro learn_okI; unfold learned_updates) (use d le_trans in \<open>metis\<close>)+
qed

section \<open>Steps\<close>

text \<open>What learning does not touch.\<close>

definition rest_same :: "'m engine \<Rightarrow> 'm engine \<Rightarrow> bool" where
  "rest_same e e' \<longleftrightarrow> config e' = config e \<and> selected e' = selected e \<and> tombstones e' = tombstones e
     \<and> pending_switches e' = pending_switches e \<and> settling_since e' = settling_since e
     \<and> settled_routes e' = settled_routes e \<and> feasible e' = feasible e
     \<and> pending_seqno e' = pending_seqno e \<and> recent_seqno e' = recent_seqno e
     \<and> originated e' = originated e \<and> pending_advertisements e' = pending_advertisements e
     \<and> sequence_number e' = sequence_number e"

lemma rest_same_refl [simp]: "rest_same e e"
  by (simp add: rest_same_def)

lemma rest_same_trans: "rest_same e e' \<Longrightarrow> rest_same e' e'' \<Longrightarrow> rest_same e e''"
  by (simp add: rest_same_def)

lemma pre_ok_learn: "pre_ok N e \<Longrightarrow> learn_ok N e' \<Longrightarrow> rest_same e e' \<Longrightarrow> pre_ok N e'"
  by (simp add: pre_ok_def rest_same_def tables_sorted_def hyst_ok_def out_ok_def)

lemma sel_ok_candidates: "rest_same e e' \<Longrightarrow> candidates e' = candidates e \<Longrightarrow> sel_ok e' = sel_ok e"
  by (simp add: rest_same_def sel_ok_def selection_ok_def backed_def)

text \<open>A step of the engine: it keeps the configuration and the invariant, its updates are allowed,
  and its snapshots bring the host up to date.\<close>

definition step_ok :: "ipnet \<Rightarrow> 'm engine \<Rightarrow> action list \<times> 'm engine \<Rightarrow> bool" where
  "step_ok N e r \<longleftrightarrow> config (snd r) = config e \<and> list_all (allowed (config e)) (fst r)
     \<and> host_view (fst r) (rib e) = rib (snd r) \<and> (pre_ok N e \<longrightarrow> pre_ok N (snd r))"

lemma step_ok_nil [simp, intro]: "step_ok N e ([], e)"
  by (simp add: step_ok_def)

lemma step_ok_trans:
  "step_ok N e (actions, e') \<Longrightarrow> step_ok N e' (actions', e'') \<Longrightarrow> step_ok N e (actions @ actions', e'')"
  by (simp add: step_ok_def)

lemma quiet_step_ok: "quiet e (actions, e') \<Longrightarrow> step_ok N e (actions, e')"
  using quiet_host_view [of e actions e'] pre_ok_kept [of N e e']
  by (auto simp: step_ok_def quiet_def list_all_iff kept_def pre_ok_def)

lemma quiet_sel_ok: "quiet e (actions, e') \<Longrightarrow> sel_ok e' = sel_ok e"
  by (simp add: quiet_def sel_ok_kept)

lemma learn_step_ok:
  assumes "rest_same e e'" "pre_ok N e \<Longrightarrow> learn_ok N e'"
  shows "step_ok N e ([], e')"
  using assms pre_ok_learn [of N e e']
  by (auto simp: step_ok_def rest_same_def rib_def selected_routes_def unreachable_routes_def)

lemma backed_reselect:
  assumes "learn_ok N e" "reselect E now_ms e = (actions, e')" "tables_sorted e'"
  shows "backed e'"
  unfolding backed_def
proof (clarify)
  fix key r assume "(key, r) \<in> set (selected e')"
  then have "map_of (selected e') key = Some r"
    using assms(3) by (intro map_of_is_SomeI strict_sorted_distinct) (simp_all add: tables_sorted_def)
  then obtain c where c: "selection E now_ms e key = Some c" "r = selected_from_candidate c"
    using reselect_facts(1) [OF assms(2), of key] by auto
  then obtain best where b: "min_by_key candidate_order (routes_for E e key) = Some best"
    and ch: "c = fst (choose_route key (current_route E e key) best now_ms e)"
    by (auto simp: selection_def)
  have "c \<in> insert best (set_option (current_route E e key))" unfolding ch by (rule choose_route_cases)
  moreover have "best \<in> set (routes_for E e key)" using min_by_key_SomeD(1) [OF b] .
  moreover have "cur \<in> set (routes_for E e key)" if "current_route E e key = Some cur" for cur
    using that by (auto simp: current_route_def find_Some_iff bind_eq_Some_conv)
  ultimately have "c \<in> set (routes_for E e key)" by auto
  then obtain k where k: "(k, c) \<in> set (candidates e)" "c_metric c < INFINITY" "c_key c = key"
    by (auto simp: routes_for_def usable_candidates_iff)
  obtain key' nk where "k = (key', nk)" by fastforce
  with k learn_okD(4) [OF assms(1), of key' nk c] have "((key, nk), c) \<in> set (candidates e')"
    using reselect_facts(5) [OF assms(2)] by (auto simp: candidate_ok_def learned_same_def)
  with c(2) k(2) show "\<exists>nk c. ((key, nk), c) \<in> set (candidates e') \<and> r = selected_from_candidate c \<and> c_metric c \<noteq> INFINITY"
    by (metis less_irrefl)
qed

lemma reselect_step_ok:
  assumes "reselect E now_ms e = (actions, e')"
  shows "step_ok N e (actions, e')" and "pre_ok N e \<Longrightarrow> sel_ok e'"
proof -
  note f = reselect_facts [OF assms]
  have c: "config e' = config e" using f(5) by (simp add: learned_same_def)
  have p: "pre_ok N e \<Longrightarrow> pre_ok N e'"
    using f(3,4,6) learn_ok_cong [OF f(5), of N] by (simp add: pre_ok_def)
  show "step_ok N e (actions, e')" using f(7,8) c p by (simp add: step_ok_def)
  show "pre_ok N e \<Longrightarrow> sel_ok e'"
    using f(2) backed_reselect [OF _ assms] p by (auto simp: sel_ok_def pre_ok_def)
qed

section \<open>Received updates\<close>

lemma safe_extend_gt: "safe_extend algebra a l = INFINITY \<or> a < safe_extend algebra a l"
  by (auto simp: safe_extend_def Let_def not_le)

lemma retracted_unreachable: "\<not> is_reachable c \<Longrightarrow> retracted c = c"
  by (cases c) (simp add: is_reachable_def retracted_def)

lemma map_values_id: "(\<And>k v. (k, v) \<in> set m \<Longrightarrow> f k v = v) \<Longrightarrow> map_values f m = m"
  by (induction m) (auto simp: map_values_def)

lemma retract_all_ok:
  assumes "retract_all nk e = (changed, e')"
  shows "step_ok N e ([], e')" and "changed \<or> e' = e"
proof -
  have e': "e' = e\<lparr>candidates := map_values (\<lambda>(_, n) c. if n = nk then retracted c else c) (candidates e)\<rparr>"
    and ch: "changed = list_ex (\<lambda>((_, n), c). n = nk \<and> is_reachable c) (candidates e)"
    using assms by (auto simp: retract_all_def)
  show "step_ok N e ([], e')"
    unfolding e' by (rule learn_step_ok)
      (auto simp: rest_same_def pre_ok_def candidate_ok_retracted intro!: learn_ok_map_candidates)
  have "map_values (\<lambda>(_, n) c. if n = nk then retracted c else c) (candidates e) = candidates e" if "\<not> changed"
  proof (rule map_values_id)
    fix k v assume kv: "(k, v) \<in> set (candidates e)"
    obtain key n where k: "k = (key, n)" by fastforce
    have "\<not> (n = nk \<and> is_reachable v)" using that kv k unfolding ch list_ex_iff by force
    then show "(case k of (_, n) \<Rightarrow> \<lambda>c. if n = nk then retracted c else c) v = v"
      by (auto simp: k retracted_unreachable)
  qed
  then have "\<not> changed \<Longrightarrow> e' = e" by (simp add: e')
  then show "changed \<or> e' = e" by blast
qed

lemma retract_one_ok:
  assumes "retract_one k e = (changed, e')" "distinct (table_keys (candidates e))"
  shows "step_ok N e ([], e')" and "changed \<or> e' = e"
proof -
  have "rest_same e (e\<lparr>candidates := cs\<rparr>)" for cs by (simp add: rest_same_def)
  then show "step_ok N e ([], e')"
    using assms by (auto simp: retract_one_def pre_ok_def candidate_ok_retracted split: option.splits
        intro!: learn_step_ok learn_ok_modify_candidate)
  have "modify k retracted (candidates e) = candidates e" if "map_of (candidates e) k = Some c" "\<not> is_reachable c" for c
    unfolding modify_map_values
  proof (rule map_values_id)
    fix k' v assume "(k', v) \<in> set (candidates e)"
    then have "map_of (candidates e) k' = Some v" by (rule map_of_is_SomeI [OF assms(2)])
    with that show "(if k' = k then retracted v else v) = v" by (auto simp: retracted_unreachable)
  qed
  then show "changed \<or> e' = e" using assms by (auto simp: retract_one_def split: option.splits)
qed

lemma reject_candidate_ok:
  assumes "reject_candidate key nk e = (changed, e')"
  shows "step_ok N e ([], e')" and "changed \<or> e' = e"
proof -
  show "step_ok N e ([], e')"
  proof (cases "contains_key (candidates e) (key, nk)")
    case True
    then show ?thesis
      using assms learn_ok_delete_candidate [of N e key nk]
      by (intro learn_step_ok) (auto simp: reject_candidate_def pre_ok_def rest_same_def modify_neighbour_def)
  next
    case False
    then show ?thesis using assms by (simp add: reject_candidate_def)
  qed
  show "changed \<or> e' = e" using assms by (auto simp: reject_candidate_def split: if_splits)
qed

lemma learn_ok_resources [simp]: "learn_ok N (e\<lparr>resources := r\<rparr>) = learn_ok N e"
  by (simp add: learn_ok_def interface_config_def)

lemma count_refusal_ok: "step_ok N e ([], count_refusal nk n e)" "sel_ok (count_refusal nk n e) = sel_ok e"
proof -
  have r: "rest_same e (count_refusal nk n e)" "candidates (count_refusal nk n e) = candidates e"
    by (simp_all add: count_refusal_def rest_same_def modify_neighbour_def Let_def)
  show "step_ok N e ([], count_refusal nk n e)"
    using r(1) by (rule learn_step_ok)
      (auto simp: count_refusal_def Let_def pre_ok_def intro!: learn_ok_modify_neighbour)
  show "sel_ok (count_refusal nk n e) = sel_ok e" using sel_ok_candidates [OF r] .
qed

lemma satisfy_request_quiet:
  "quiet e0 (actions, e) \<Longrightarrow> quiet e0 (satisfy_request key router_id seqno metric now_ms x (actions, e))"
proof -
  assume q: "quiet e0 (actions, e)"
  let ?e1 = "e\<lparr>pending_seqno := AList.delete x (pending_seqno e)\<rparr>"
  have k1: "quiet e ([], ?e1)"
    by (auto simp: quiet_def kept_def interface_config_def out_ok_def distinct_delete set_delete_table)
  have k2: "quiet e ([], e\<lparr>recent_seqno := AList.update x v (recent_seqno e)\<rparr>)" for v and e :: "'a engine"
    by (auto simp: quiet_def kept_def interface_config_def out_ok_def distinct_update)
  have q1: "quiet e0 (actions, ?e1)" using quiet_trans [OF q k1] by simp
  have k3: "quiet e0 (acts, e2\<lparr>recent_seqno := AList.update x v (recent_seqno e2)\<rparr>)" if "quiet e0 (acts, e2)" for acts e2 v
    using quiet_trans [OF that k2] by simp
  show ?thesis
  proof (cases "map_of (pending_seqno e) x")
    case None
    then show ?thesis using q by (simp add: satisfy_request_def)
  next
    case (Some pending)
    show ?thesis
    proof (cases "ps_requester pending")
      case None
      then show ?thesis using Some k3 [OF q1] by (simp add: satisfy_request_def Let_def)
    next
      case (Some requester)
      obtain a e2 where a: "update_action_to_candidate key router_id seqno metric requester now_ms ?e1 = (a, e2)"
        by fastforce
      show ?thesis
        using \<open>map_of (pending_seqno e) x = Some pending\<close> Some a
          k3 [OF quiet_trans [OF q1 update_action_quiet [OF a]]]
        by (simp add: satisfy_request_def Let_def)
    qed
  qed
qed

lemma satisfy_requests_quiet: "quiet e (satisfy_requests E key router_id seqno metric now_ms e)"
  unfolding satisfy_requests_def by (rule quiet_fold) (auto intro: satisfy_request_quiet)

text \<open>A step that reports whether the inputs of route selection changed.\<close>

definition learns :: "ipnet \<Rightarrow> 'm engine \<Rightarrow> (bool \<times> action list) \<times> 'm engine \<Rightarrow> bool" where
  "learns N e r \<longleftrightarrow> step_ok N e (snd (fst r), snd r)
     \<and> (pre_ok N e \<longrightarrow> sel_ok e \<longrightarrow> fst (fst r) \<or> sel_ok (snd r))"

lemma learns_nothing [simp, intro]: "learns N e ((False, []), e)"
  by (simp add: learns_def)

lemma learns_step: "step_ok N e ([], e') \<Longrightarrow> changed \<or> e' = e \<Longrightarrow> learns N e ((changed, []), e')"
  by (auto simp: learns_def)

lemma learns_quiet: "quiet e (actions, e') \<Longrightarrow> learns N e ((False, actions), e')"
  by (simp add: learns_def quiet_step_ok quiet_sel_ok)

lemma candidate_unchanged:
  assumes "\<not> candidate_changed (Some c) c'" "c_key c = c_key c'" "c_interface c = c_interface c'"
  shows "selected_from_candidate c' = selected_from_candidate c" "c_metric c' = c_metric c"
  using assms by (simp_all add: candidate_changed_def selected_from_candidate_def)

lemma insert_candidate_fields:
  "rest_same e (insert_candidate key nk c e)"
  "candidates (insert_candidate key nk c e) = AList.update (key, nk) c (candidates e)"
  by (simp_all add: insert_candidate_def rest_same_def modify_neighbour_def)

lemma insert_candidate_ok:
  assumes "map_of (neighbours e) nk = Some n" "candidate_ok N (config e) key nk c"
    and "contains_key (candidates e) (key, nk) \<or> \<not> candidate_refused e n"
  shows "learns N e ((candidate_changed (map_of (candidates e) (key, nk)) c, []), insert_candidate key nk c e)"
proof -
  let ?e = "insert_candidate key nk c e"
  have "step_ok N e ([], ?e)"
    by (rule learn_step_ok [OF insert_candidate_fields(1)])
      (simp add: pre_ok_def learn_ok_insert_candidate [OF _ assms])
  moreover have "sel_ok ?e" if p: "pre_ok N e" and s: "sel_ok e"
    and u: "\<not> candidate_changed (map_of (candidates e) (key, nk)) c"
  proof -
    have d: "distinct (table_keys (candidates e))" using p by (simp add: pre_ok_def learn_ok_def)
    obtain c0 where c0: "map_of (candidates e) (key, nk) = Some c0"
      using u by (cases "map_of (candidates e) (key, nk)") (auto simp: candidate_changed_def)
    have "candidate_ok N (config e) key nk c0"
      using learn_okD(4) map_of_SomeD [OF c0] p by (auto simp: pre_ok_def)
    then have same: "selected_from_candidate c = selected_from_candidate c0" "c_metric c = c_metric c0"
      using candidate_unchanged [of c0 c] u c0 assms(2) by (simp_all add: candidate_ok_def)
    have "backed ?e"
      unfolding backed_def
    proof (clarify)
      fix k r assume "(k, r) \<in> set (selected ?e)"
      then have "(k, r) \<in> set (selected e)" using insert_candidate_fields(1) [of e key nk c] by (simp add: rest_same_def)
      then obtain m c1 where c1: "((k, m), c1) \<in> set (candidates e)" "r = selected_from_candidate c1" "c_metric c1 \<noteq> INFINITY"
        using s unfolding sel_ok_def backed_def by blast
      show "\<exists>nk' c'. ((k, nk'), c') \<in> set (candidates ?e) \<and> r = selected_from_candidate c' \<and> c_metric c' \<noteq> INFINITY"
      proof (cases "(k, m) = (key, nk)")
        case True
        then have "c1 = c0" using map_of_is_SomeI [OF d c1(1)] c0 by simp
        then show ?thesis using True c1 same
          by (intro exI [of _ nk] exI [of _ c]) (simp add: insert_candidate_fields(2) hash_table.set_ins [OF d])
      next
        case False
        then show ?thesis using c1
          by (intro exI [of _ m] exI [of _ c1]) (auto simp: insert_candidate_fields(2) hash_table.set_ins [OF d])
      qed
    qed
    then show ?thesis
      using s insert_candidate_fields(1) [of e key nk c] by (simp add: sel_ok_def selection_ok_def rest_same_def)
  qed
  ultimately show ?thesis by (auto simp: learns_def)
qed

lemma learns_after_quiet:
  assumes "quiet e (actions, e1)" "learns N e1 ((changed, []), e2)"
  shows "learns N e ((changed, actions), e2)"
  using assms quiet_step_ok [OF assms(1), of N] quiet_sel_ok [OF assms(1)]
    step_ok_trans [of N e actions e1 "[]" e2]
  by (auto simp: learns_def step_ok_def)

lemma admit_update_ok:
  assumes "map_of (neighbours e) nk = Some n"
    and "candidate_ok N (config e) key nk (update_candidate key nk router_id next_hop metric update now_ms)"
    and "contains_key (candidates e) (key, nk) \<or> \<not> candidate_refused e n"
  shows "learns N e (admit_update E key nk router_id next_hop metric update now_ms e)"
proof -
  let ?c = "update_candidate key nk router_id next_hop metric update now_ms"
  have ins: "learns N e ((candidate_changed (map_of (candidates e1) (key, nk)) ?c, actions), insert_candidate key nk ?c e1)"
    if q: "quiet e (actions, e1)" for actions e1
  proof (rule learns_after_quiet [OF q insert_candidate_ok])
    show "map_of (neighbours e1) nk = Some n" "candidate_ok N (config e1) key nk ?c"
      "contains_key (candidates e1) (key, nk) \<or> \<not> candidate_refused e1 n"
      using q assms by (simp_all add: quiet_def kept_def candidate_refused_def per_neighbor_full_def)
  qed
  obtain actions e1 where s: "satisfy_requests E key router_id (ru_seqno update) metric now_ms e = (actions, e1)"
    by fastforce
  then have qs: "quiet e (actions, e1)" using satisfy_requests_quiet by metis
  have qr: "quiet e (originate_seqno_request (recovery_request key router_id i nk) now_ms e)" for i
    by (metis originate_seqno_request_quiet recovery_request_hops surj_pair)
  show ?thesis
    using ins [OF qs] ins [OF quiet_nil] learns_quiet [of e _ _ N] qr
    unfolding admit_update_def Let_def s
    by (auto split: option.splits prod.splits intro!: ins) metis+
qed

lemma receive_finite_update_ok:
  assumes "env_ipnet E = N" "\<not> forbidden_destination N (destination key)" "ru_metric update \<noteq> INFINITY"
  shows "learns N e (receive_finite_update E nk key update now_ms e)"
proof (cases "ru_router_id update")
  case None
  then show ?thesis by (simp add: receive_finite_update_def)
next
  case (Some router_id)
  note rid = this
  show ?thesis
  proof (cases "ru_next_hop update")
    case None
    then show ?thesis by (simp add: receive_finite_update_def rid)
  next
    case (Some next_hop)
    note nh = this
    show ?thesis
    proof (cases "map_of (neighbours e) nk")
      case None
      then show ?thesis by (simp add: receive_finite_update_def rid nh)
    next
      case (Some n)
      define metric where "metric = safe_extend (cfg_metric_algebra (config e)) (ru_metric update)
        (link_cost (env_metric E) (nb_metric n))"
      let ?c = "update_candidate key nk router_id next_hop metric update now_ms"
      let ?ctx = "\<lparr>ic_key = key, ic_interface = nk_interface nk, ic_neighbor = nk_address nk,
        ic_next_hop = next_hop, ic_router_id = router_id, ic_seqno = ru_seqno update,
        ic_advertised_metric = ru_metric update\<rparr>"
      have ok: "candidate_ok N (config e) key nk ?c"
        if "router_id \<noteq> cfg_router_id (config e)"
          "\<not> (is_ipv4 (net_addr (destination key)) \<and> is_ipv6 next_hop \<and> \<not> cfg_ipv4_via_ipv6 (config e))"
          "accept (cfg_route_policy (config e)) ?ctx"
        using that assms(2) safe_extend_gt [of "cfg_metric_algebra (config e)" "ru_metric update"]
        by (auto simp: candidate_ok_def update_candidate_def candidate_context_def metric_def)
      obtain removed e1 where rej: "reject_candidate key nk e = (removed, e1)" by fastforce
      have r: "learns N e ((removed, []), e1)" by (rule learns_step [OF reject_candidate_ok [OF rej]])
      have cr: "learns N e ((False, []), count_refusal nk n e)"
        by (simp add: learns_def count_refusal_ok)
      show ?thesis
        unfolding receive_finite_update_def rid nh Some option.case Let_def metric_def [symmetric] rej prod.case
        using r cr admit_update_ok [OF Some ok] by auto
    qed
  qed
qed

lemma receive_update_ok:
  assumes "env_ipnet E = N" "learn_ok N e"
  shows "learns N e (receive_update E nk update now_ms e)"
proof -
  have d: "distinct (table_keys (candidates e))" using assms(2) by (rule learn_okD(3))
  have "learns N e (case retract_all nk e of (changed, e') \<Rightarrow> ((changed, []), e'))"
    by (auto split: prod.splits intro!: learns_step [OF retract_all_ok(1) retract_all_ok(2)])
  moreover have "learns N e (case retract_one (key, nk) e of (changed, e') \<Rightarrow> ((changed, []), e'))" for key
    using d by (auto split: prod.splits intro!: learns_step [OF retract_one_ok(1) retract_one_ok(2)])
  ultimately show ?thesis
    using receive_finite_update_ok [OF assms(1)] assms(1)
    by (auto simp: receive_update_def Let_def split: option.splits)
qed

section \<open>Observations of neighbours\<close>

text \<open>A step that learns nothing about routes.\<close>

definition observes :: "ipnet \<Rightarrow> 'm engine \<Rightarrow> 'm engine \<Rightarrow> bool" where
  "observes N e e' \<longleftrightarrow> rest_same e e' \<and> candidates e' = candidates e
     \<and> interface_config e' = interface_config e \<and> (learn_ok N e \<longrightarrow> learn_ok N e')"

lemma observes_refl [simp, intro]: "observes N e e"
  by (simp add: observes_def)

lemma observes_trans: "observes N e e' \<Longrightarrow> observes N e' e'' \<Longrightarrow> observes N e e''"
  by (auto simp: observes_def rest_same_def)

lemma observes_step: "observes N e e' \<Longrightarrow> step_ok N e ([], e')" "observes N e e' \<Longrightarrow> sel_ok e' = sel_ok e"
  by (auto simp: observes_def pre_ok_def intro!: learn_step_ok sel_ok_candidates)

lemma observes_modify:
  "(\<And>n. nb_candidates (f n) = nb_candidates n) \<Longrightarrow> observes N e (modify_neighbour nk f e)"
  using learn_ok_modify_neighbour [of N e f nk]
  by (auto simp: observes_def rest_same_def modify_neighbour_def interface_config_def)

lemma observes_map:
  "(\<And>k n. nb_candidates (f k n) = nb_candidates n) \<Longrightarrow>
     observes N e (e\<lparr>neighbours := map_values f (neighbours e)\<rparr>)"
  using learn_ok_map_neighbours [of N e f]
  by (auto simp: observes_def rest_same_def interface_config_def)

lemma observes_set:
  assumes "map_of (neighbours e) nk = Some n" "nb_candidates n' = nb_candidates n"
  shows "observes N e (modify_neighbour nk (\<lambda>_. n') e)"
proof -
  have "learn_ok N (modify_neighbour nk (\<lambda>_. n') e)" if "learn_ok N e"
    unfolding modify_neighbour_def
    by (rule learn_ok_neighbours [OF that])
      (use assms map_of_SomeD [OF assms(1)] in \<open>auto simp: set_modify split: if_splits\<close>)
  then show ?thesis by (auto simp: observes_def rest_same_def modify_neighbour_def interface_config_def)
qed

lemma schedule_ihu_candidates [simp]:
  "nb_candidates (snd (schedule_ihu policy nk now_ms deadline n)) = nb_candidates n"
  by (simp add: schedule_ihu_def Let_def)

lemma ihu_action_cases:
  assumes "ihu_action E nk now_ms deadline e = (a, e')"
  obtains "a = None" "e' = e"
  | n n' dest hello subs timing rxcost interval where "map_of (neighbours e) nk = Some n"
    "nb_candidates n' = nb_candidates n" "e' = modify_neighbour nk (\<lambda>_. n') e"
    "a = Some (Send (nk_interface nk) dest \<lparr>out_tlvs = hello @ [OutIhu None rxcost interval subs]\<rparr> timing)"
    "hello = [] \<or> (\<exists>seqno ss. hello = [OutHello True seqno 0 ss])"
proof (cases "map_of (interfaces e) (nk_interface nk)")
  case None
  then show ?thesis using assms that(1) by (simp add: ihu_action_def)
next
  case (Some state)
  note i = this
  show ?thesis
  proof (cases "map_of (neighbours e) nk")
    case None
    then show ?thesis using assms that(1) by (simp add: ihu_action_def i)
  next
    case (Some n)
    obtain h n' where sch: "schedule_ihu (if_policy state) nk now_ms deadline n = (h, n')" by fastforce
    have c: "nb_candidates n' = nb_candidates n"
      using schedule_ihu_candidates [of "if_policy state" nk now_ms deadline n] sch by simp
    let ?hello = "if h then [OutHello True (nb_unicast_hello_seqno n') 0 [TimestampHello (timestamp_us now_ms)]] else []"
    have "\<exists>subs timing. a = Some (Send (nk_interface nk) (nk_address nk) \<lparr>out_tlvs = ?hello @
          [OutIhu None (valid_cost (receive_cost (env_metric E) (nb_metric n)))
            (sat_mul (ip_hello_interval_cs (if_policy state)) 3) subs]\<rparr> timing)
        \<and> e' = modify_neighbour nk (\<lambda>_. n') e"
      using assms by (simp only: ihu_action_def i Some sch Let_def option.case prod.case prod.inject) blast
    then obtain subs timing where "a = Some (Send (nk_interface nk) (nk_address nk) \<lparr>out_tlvs = ?hello @
          [OutIhu None (valid_cost (receive_cost (env_metric E) (nb_metric n)))
            (sat_mul (ip_hello_interval_cs (if_policy state)) 3) subs]\<rparr> timing)"
      "e' = modify_neighbour nk (\<lambda>_. n') e" by blast
    then show ?thesis by (intro that(2) [OF Some c]) auto
  qed
qed

lemma ihu_action_ok:
  assumes "ihu_action E nk now_ms deadline e = (a, e')"
  shows "observes N e e'" and "case a of None \<Rightarrow> True | Some x \<Rightarrow> \<not> is_routes_changed x \<and> allowed c x"
  using assms by (rule ihu_action_cases; auto intro: observes_set)+

lemma ihu_step_ok:
  assumes "ihu_action E nk now_ms deadline e = (a, e')"
  shows "step_ok N e (case a of None \<Rightarrow> [] | Some x \<Rightarrow> [x], e')"
  using observes_step(1) [OF ihu_action_ok(1) [OF assms, of N]] ihu_action_ok(2) [OF assms, of "config e"]
    host_view_quiet [of "\<lambda>_. True" "case a of None \<Rightarrow> [] | Some x \<Rightarrow> [x]" "rib e"]
  by (auto simp: step_ok_def split: option.splits)

lemma hear_hello_candidates [simp]:
  "nb_candidates (snd (hear_hello E profile nk now_ms ts unicast seqno interval subs n)) = nb_candidates n"
  by (auto simp: hear_hello_def restart_neighbor_def Let_def split: option.splits prod.splits)

lemma receive_hello_ok:
  assumes "on_interface (interface_config e) nk"
    and "is_hello t \<Longrightarrow> contains_key (neighbours e) nk \<or> length (neighbours e) < max_neighbors (cfg_limits (config e))"
    and "receive_hello E profile interval nk now_ms ts t (ihu, e) = (ihu', e')"
  shows "observes N e e'"
    and "contains_key (neighbours e') nk \<or> length (neighbours e') = length (neighbours e)"
proof -
  show "observes N e e'"
  proof (cases t)
    case (Hello u q i ss)
    define n where "n = get_or (fresh_neighbor profile interval now_ms nk) (neighbours e) nk"
    define n' where "n' = snd (hear_hello E profile nk now_ms ts u q i ss n)"
    have e': "e' = e\<lparr>neighbours := AList.update nk n' (neighbours e)\<rparr>"
      using assms(3) by (simp add: receive_hello_def Hello n_def n'_def split: prod.splits)
    have "nb_candidates n' = (case map_of (neighbours e) nk of None \<Rightarrow> 0 | Some m \<Rightarrow> nb_candidates m)"
      by (simp add: n'_def n_def get_or_def fresh_neighbor_def split: option.splits)
    then have "learn_ok N e'" if "learn_ok N e"
      unfolding e' using assms(2) that Hello
      by (intro learn_ok_insert_neighbour [OF that assms(1)]) (auto simp: is_hello_def)
    then show ?thesis by (simp add: observes_def rest_same_def interface_config_def e')
  qed (use assms(3) in \<open>simp_all add: receive_hello_def\<close>)
  show "contains_key (neighbours e') nk \<or> length (neighbours e') = length (neighbours e)"
    using assms(3) by (auto simp: receive_hello_def update_conv' split: tlv.splits prod.splits)
qed

end
