(* ===== verification/Babel_Safety.thy ===== *)
theory Babel_Safety
  imports Babel_Invariants
begin

text \<open>
  Every event keeps the invariant of \<open>Babel_Invariants\<close>, brings the host up to date and
  announces only what the policy allows: packets, ticks, interface changes, policy replacement
  and local origins, then the dispatcher and everything reachable from a new engine.
\<close>

section \<open>Received packets\<close>

text \<open>A completed step: the whole invariant holds again.\<close>

definition completes :: "ipnet \<Rightarrow> 'm engine \<Rightarrow> action list \<times> 'm engine \<Rightarrow> bool" where
  "completes N e r \<longleftrightarrow> step_ok N e r \<and> pre_ok N (snd r) \<and> sel_ok (snd r)"

lemma completes_nil [simp, intro]: "engine_ok N e \<Longrightarrow> completes N e ([], e)"
  by (simp add: completes_def engine_ok_def)

lemma completes_trans:
  "completes N e (actions, e') \<Longrightarrow> completes N e' (actions', e'') \<Longrightarrow> completes N e (actions @ actions', e'')"
  by (auto simp: completes_def intro: step_ok_trans)

lemma completes_quiet:
  assumes "completes N e (actions, e')" "quiet e' (actions', e'')"
  shows "completes N e (actions @ actions', e'')"
  using assms quiet_step_ok [OF assms(2), of N] quiet_sel_ok [OF assms(2)]
  by (auto simp: completes_def step_ok_def)

lemma completes_engine_ok: "completes N e (actions, e') \<Longrightarrow> engine_ok N e'"
  by (simp add: completes_def engine_ok_def)

lemma quiet_completes: "engine_ok N e \<Longrightarrow> quiet e (actions, e') \<Longrightarrow> completes N e (actions, e')"
  using completes_quiet [of N e "[]" e actions e'] by simp

lemma reselect_completes:
  assumes "pre_ok N e" "reselect E now_ms e = (actions, e')"
  shows "completes N e (actions, e')"
  using reselect_step_ok [OF assms(2), of N] assms(1) by (auto simp: completes_def step_ok_def)

lemma completes_reselect:
  assumes "step_ok N e (actions, e1)" "pre_ok N e1" "reselect E now_ms e1 = (actions', e2)"
  shows "completes N e (actions @ actions', e2)"
  using reselect_completes [OF assms(2,3)] step_ok_trans [OF assms(1)] by (auto simp: completes_def)

lemma completes_fold:
  assumes "completes N e s" "\<And>x acts s. completes N e (acts, s) \<Longrightarrow> completes N e (f x (acts, s))"
  shows "completes N e (fold f xs s)"
  using assms(1) by (rule fold_keeps) (metis assms(2) surj_pair)

lemma on_interface_lookup:
  "map_of (interfaces e) (nk_interface nk) = Some state \<Longrightarrow>
     on_interface (interface_config e) nk \<longleftrightarrow>
       is_ipv4 (nk_address nk) = is_ipv4 (multicast (ip_control_transport (if_policy state)))"
  by (simp add: on_interface_def interface_config_def table)

lemma receive_ihu_observes: "observes N e (receive_ihu E addresses nk now_ms t e)"
  by (auto simp: receive_ihu_def split: tlv.splits intro!: observes_modify)

lemma receive_hellos_observe:
  assumes "on_interface (interface_config e) nk"
    and "\<And>t. t \<in> set ts \<Longrightarrow> is_hello t \<Longrightarrow>
      contains_key (neighbours e) nk \<or> length (neighbours e) < max_neighbors (cfg_limits (config e))"
  shows "observes N e (snd (fold (receive_hello E profile interval nk now_ms rts) ts (ihu, e)))"
  using assms
proof (induction ts arbitrary: ihu e)
  case Nil
  then show ?case by simp
next
  case (Cons t ts)
  obtain ihu' e' where r: "receive_hello E profile interval nk now_ms rts t (ihu, e) = (ihu', e')" by fastforce
  have o: "observes N e e'" and c: "contains_key (neighbours e') nk \<or> length (neighbours e') = length (neighbours e)"
    using receive_hello_ok [OF Cons.prems(1) _ r] Cons.prems(2) [of t] by auto
  have k: "contains_key (neighbours e) nk \<Longrightarrow> contains_key (neighbours e') nk"
    using r by (auto simp: receive_hello_def update_conv' split: tlv.splits prod.splits if_splits)
  have "observes N e' (snd (fold (receive_hello E profile interval nk now_ms rts) ts (ihu', e')))"
  proof (rule Cons.IH)
    have same: "interface_config e' = interface_config e" "config e' = config e"
      using o by (simp_all add: observes_def rest_same_def)
    then show "on_interface (interface_config e') nk" using Cons.prems(1) by simp
    fix t' assume "t' \<in> set ts" "is_hello t'"
    with Cons.prems(2) [of t'] c k same
    show "contains_key (neighbours e') nk \<or> length (neighbours e') < max_neighbors (cfg_limits (config e'))"
      by (metis list.set_intros(2))
  qed
  with o r show ?case by (auto intro: observes_trans)
qed

lemma observe_packet_ok:
  assumes "on_interface (interface_config e) nk"
    and "list_ex is_hello (tlvs p) \<Longrightarrow>
      contains_key (neighbours e) nk \<or> length (neighbours e) < max_neighbors (cfg_limits (config e))"
    and "observe_packet E state nk p now_ms rts e = (ihu, e')"
  shows "observes N e e'"
proof -
  let ?r = "fold (receive_hello E (ip_metric (if_policy state)) (ip_hello_interval_cs (if_policy state)) nk now_ms rts)
    (tlvs p) (False, e)"
  have "observes N e (snd ?r)"
    by (rule receive_hellos_observe [OF assms(1)]) (use assms(2) in \<open>auto simp: list_ex_iff\<close>)
  moreover have "observes N e1 (modify_neighbour nk (\<lambda>n. n\<lparr>nb_metric := f (nb_metric n)\<rparr>) e1)" for e1 f
    by (rule observes_modify) simp
  ultimately have "observes N e (case packet_rtt_sample (if_local_addresses state) rts (tlvs p) of
      None \<Rightarrow> snd ?r
    | Some sample \<Rightarrow> if timestamps_enabled (ip_metric (if_policy state))
        then modify_neighbour nk (\<lambda>n. n\<lparr>nb_metric := on_rtt_sample (env_metric E) sample now_ms (nb_metric n)\<rparr>) (snd ?r)
        else snd ?r)"
    by (auto split: option.splits intro: observes_trans)
  then have "observes N e (fold (receive_ihu E (if_local_addresses state) nk now_ms) (tlvs p) \<dots>)"
    by (rule fold_keeps) (auto intro: observes_trans receive_ihu_observes)
  then show ?thesis
    using assms(3) by (auto simp: observe_packet_def Let_def split: prod.splits option.splits)
qed

lemma recompute_ok:
  assumes "recompute_candidate_metrics E only e = (changed, e')"
  shows "step_ok N e ([], e')" and "changed \<or> e' = e"
proof -
  define f where "f = (\<lambda>(k :: route_key, nk) (c :: candidate).
    case map_of (map_values (\<lambda>_ n. link_cost (env_metric E) (nb_metric n))
        (filter (\<lambda>(nk, _). case only of None \<Rightarrow> True | Some k \<Rightarrow> k = nk) (neighbours e))) nk of
      None \<Rightarrow> c
    | Some cost \<Rightarrow> c\<lparr>c_metric := safe_extend (cfg_metric_algebra (config e)) (c_advertised_metric c) cost\<rparr>)"
  have r: "changed = list_ex (\<lambda>(k, c). c_metric c \<noteq> c_metric (f k c)) (candidates e)"
    "e' = e\<lparr>candidates := map_values f (candidates e)\<rparr>"
    using assms by (auto simp: recompute_candidate_metrics_def Let_def f_def)
  have "candidate_ok N (config e) key nk (f (key, nk) c)" if "candidate_ok N (config e) key nk c" for key nk c
    using that safe_extend_gt by (auto simp: f_def candidate_ok_def candidate_context_def split: option.splits)
  then show "step_ok N e ([], e')"
    unfolding r by (intro learn_step_ok) (auto simp: rest_same_def pre_ok_def intro!: learn_ok_map_candidates)
  have "map_values f (candidates e) = candidates e" if n: "\<not> changed"
  proof (rule map_values_id)
    fix k c assume "(k, c) \<in> set (candidates e)"
    then have m: "c_metric (f k c) = c_metric c" using n unfolding r list_ex_iff by auto
    have "f k c = c\<lparr>c_metric := c_metric (f k c)\<rparr>"
      by (cases k) (auto simp: f_def split: option.splits)
    then show "f k c = c" unfolding m by simp
  qed
  then have "\<not> changed \<Longrightarrow> e' = e" by (simp add: r)
  then show "changed \<or> e' = e" by blast
qed

text \<open>The state of the loop over the TLVs of a packet.\<close>

definition rx_ok :: "ipnet \<Rightarrow> 'm engine \<Rightarrow> 'm reception \<Rightarrow> bool" where
  "rx_ok N e r \<longleftrightarrow> step_ok N e (rx_actions r, rx_engine r) \<and> pre_ok N (rx_engine r)
     \<and> (rx_routes_changed r \<or> sel_ok (rx_engine r))"

lemma rx_ok_quiet:
  assumes "rx_ok N e r" "quiet (rx_engine r) (acts, e')"
  shows "rx_ok N e (r\<lparr>rx_routes_changed := b \<or> rx_routes_changed r, rx_actions := rx_actions r @ acts, rx_engine := e'\<rparr>)"
  using assms quiet_step_ok [OF assms(2), of N] quiet_sel_ok [OF assms(2)]
    step_ok_trans [of N e "rx_actions r" "rx_engine r" acts e']
  by (auto simp: rx_ok_def step_ok_def)

lemma receive_tlv_ok:
  assumes "rx_ok N e r" "env_ipnet E = N"
  shows "rx_ok N e (receive_tlv E nk now_ms t r)"
proof (cases t)
  case (AckRequest nonce interval)
  have "quiet (rx_engine r) ([Send i d \<lparr>out_tlvs = [OutAck nonce]\<rparr> tm], rx_engine r)" for i d tm
    by (rule quiet_action) auto
  from rx_ok_quiet [OF assms(1) this, where b = False] show ?thesis by (simp add: receive_tlv_def AckRequest Let_def)
next
  case (Update update)
  have p: "pre_ok N (rx_engine r)" using assms(1) by (simp add: rx_ok_def)
  obtain changed acts e' where u: "receive_update E nk update now_ms (rx_engine r) = ((changed, acts), e')"
    by (metis surj_pair)
  have "learns N (rx_engine r) ((changed, acts), e')"
    using receive_update_ok [OF assms(2), of "rx_engine r"] p u by (metis pre_ok_def)
  then show ?thesis
    using assms(1) p step_ok_trans [of N e "rx_actions r" "rx_engine r" acts e']
    by (auto simp: receive_tlv_def Update Let_def u rx_ok_def learns_def step_ok_def)
next
  case (RouteRequest key subs)
  show ?thesis
  proof (cases key)
    case None
    obtain acts e' where s: "send_updates now_ms None (Some (nk_interface nk)) (Some (urgent now_ms)) (rx_engine r) = (acts, e')"
      by fastforce
    show ?thesis
      using rx_ok_quiet [OF assms(1) send_updates_quiet' [OF s], where b = True] rx_ok_quiet [OF assms(1) quiet_nil, where b = True]
      by (simp add: receive_tlv_def RouteRequest None Let_def s)
  next
    case (Some k)
    obtain a e' where s: "reply_to_route_request k nk now_ms (rx_engine r) = (a, e')" by fastforce
    show ?thesis
      using rx_ok_quiet [OF assms(1) reply_quiet [OF s], where b = True]
      by (simp add: receive_tlv_def RouteRequest Some Let_def s)
  qed
next
  case (SeqnoRequest k seqno hops i subs)
  obtain acts e' where s: "handle_seqno_request E nk k seqno hops i now_ms (rx_engine r) = (acts, e')" by fastforce
  show ?thesis
    using rx_ok_quiet [OF assms(1) handle_seqno_request_quiet [OF s], where b = True]
    by (simp add: receive_tlv_def SeqnoRequest Let_def s)
qed (use assms(1) in \<open>simp_all add: receive_tlv_def Let_def\<close>)

lemma announce_router_id_change_completes:
  "completes N e (acts, s) \<Longrightarrow> completes N e (announce_router_id_change now_ms key (acts, s))"
proof -
  assume c: "completes N e (acts, s)"
  have "quiet s (send_retraction s key i now_ms, s)" for i
    using send_retraction_quiet [of s s key i now_ms] by (simp add: quiet_def)
  then show ?thesis
    using completes_quiet [OF c]
    by (auto simp: announce_router_id_change_def split: prod.splits dest!: send_updates_quiet')
qed

lemma process_tlvs_ok:
  assumes "step_ok N e0 (actions, e)" "pre_ok N e" "changed \<or> sel_ok e" "env_ipnet E = N"
  shows "completes N e0 (process_tlvs E nk p now_ms actions changed e)"
proof -
  define r where "r = fold (receive_tlv E nk now_ms) (tlvs p)
    \<lparr>rx_actions = actions, rx_routes_changed = changed, rx_changed_router_ids = [], rx_engine = e\<rparr>"
  have "rx_ok N e0 \<lparr>rx_actions = actions, rx_routes_changed = changed, rx_changed_router_ids = [], rx_engine = e\<rparr>"
    using assms(1-3) by (simp add: rx_ok_def)
  then have "rx_ok N e0 r"
    unfolding r_def by (rule fold_keeps) (rule receive_tlv_ok [OF _ assms(4)])
  then have s: "step_ok N e0 (rx_actions r, rx_engine r)" "pre_ok N (rx_engine r)"
    "rx_routes_changed r \<or> sel_ok (rx_engine r)" by (simp_all add: rx_ok_def)
  obtain acts e1 where a: "(if rx_routes_changed r then reselect E now_ms (rx_engine r) else ([], rx_engine r)) = (acts, e1)"
    by fastforce
  then have "completes N e0 (rx_actions r @ acts, e1)"
    using s completes_reselect [OF s(1,2), of E now_ms acts e1] by (auto simp: completes_def split: if_splits)
  then show ?thesis
    by (simp add: process_tlvs_def Let_def r_def [symmetric] a completes_fold announce_router_id_change_completes)
qed

lemma receive_completes:
  assumes "engine_ok N e" "env_ipnet E = N"
  shows "completes N e (receive E interface src p now_ms rts e)"
proof (cases "map_of (interfaces e) interface")
  case None
  then show ?thesis using assms by (simp add: receive_def)
next
  case (Some state)
  let ?nk = "NeighborKey interface src"
  show ?thesis
  proof (cases "is_ipv4 (multicast (ip_control_transport (if_policy state))) \<noteq> is_ipv4 src")
    case True
    then show ?thesis using Some assms by (simp add: receive_def)
  next
    case False
    show ?thesis
    proof (cases "\<not> contains_key (neighbours e) ?nk \<and>
        length (neighbours e) \<ge> max_neighbors (cfg_limits (config e)) \<and> list_ex is_hello (tlvs p)")
      case True
      let ?e = "e\<lparr>resources := (resources e)\<lparr>rejected_neighbors := sat_add (rejected_neighbors (resources e)) 1\<rparr>\<rparr>"
      have "observes N e ?e" by (simp add: observes_def rest_same_def interface_config_def)
      then have "completes N e ([], ?e)"
        using assms(1) observes_step [of N e ?e] by (auto simp: completes_def engine_ok_def step_ok_def)
      then show ?thesis using Some False True by (simp add: receive_def)
    next
      case guard: False
      obtain ihu e1 where o: "observe_packet E state ?nk p now_ms rts e = (ihu, e1)" by fastforce
      have "on_interface (interface_config e) ?nk" using Some False by (simp add: on_interface_lookup)
      then have obs: "observes N e e1"
        by (rule observe_packet_ok [OF _ _ o]) (use guard in auto)
      obtain changed e2 where rc: "(if neighbour_link_cost E e ?nk \<noteq> neighbour_link_cost E e1 ?nk
          then recompute_candidate_metrics E (Some ?nk) e1 else (False, e1)) = (changed, e2)" by fastforce
      have s2: "step_ok N e1 ([], e2)" "changed \<or> e2 = e1"
        using rc recompute_ok [of E "Some ?nk" e1 changed e2] by (auto split: if_splits)
      obtain a e3 where ia: "(if ihu then ihu_action E ?nk now_ms None e2 else (None, e2)) = (a, e3)" by fastforce
      have s3: "step_ok N e2 (case a of None \<Rightarrow> [] | Some x \<Rightarrow> [x], e3)" "observes N e2 e3"
        using ia ihu_step_ok [of E ?nk now_ms None e2 a e3] ihu_action_ok(1) [of E ?nk now_ms None e2 a e3]
        by (auto split: if_splits)
      have st: "step_ok N e (case a of None \<Rightarrow> [] | Some x \<Rightarrow> [x], e3)"
        using step_ok_trans [OF observes_step(1) [OF obs] step_ok_trans [OF s2(1) s3(1)]] by simp
      have p: "pre_ok N e3" using st assms(1) by (auto simp: step_ok_def engine_ok_def)
      have "changed \<or> sel_ok e3"
        using s2(2) observes_step(2) [OF obs] observes_step(2) [OF s3(2)] assms(1) by (auto simp: engine_ok_def)
      from process_tlvs_ok [OF st p this assms(2), of ?nk p now_ms] show ?thesis
        using Some False guard by (auto simp: receive_def o rc ia Let_def)
    qed
  qed
qed

section \<open>Ticks\<close>

lemma advance_neighbour_candidates [simp]: "nb_candidates (snd (advance_neighbour E now_ms n)) = nb_candidates n"
  by (simp add: advance_neighbour_def Let_def split: prod.splits)

lemma tick_hellos_observes: "tick_hellos E now_ms e = (ks, e') \<Longrightarrow> observes N e e'"
  using observes_map [of "\<lambda>_ n. snd (advance_neighbour E now_ms n)" N e] by (auto simp: tick_hellos_def)

lemma tick_ihus_observes: "tick_ihus E now_ms e = (ks, e') \<Longrightarrow> observes N e e'"
  using observes_map [of "\<lambda>_ n. if ihu_expired now_ms n then forget_ihu E n else n" N e]
  by (auto simp: tick_ihus_def forget_ihu_def)

lemma remove_neighbour_ok: "step_ok N e ([], remove_neighbour nk e)"
proof (rule learn_step_ok)
  show "rest_same e (remove_neighbour nk e)" by (simp add: remove_neighbour_def rest_same_def)
  assume "pre_ok N e"
  then show "learn_ok N (remove_neighbour nk e)"
    unfolding remove_neighbour_def
    by (intro learn_ok_drop [where P = "\<lambda>k. k \<noteq> nk"]) (auto simp: pre_ok_def delete_table_eq case_prod_unfold)
qed

lemma step_ok_fold:
  assumes "\<And>x s. step_ok N s ([], f x s)"
  shows "step_ok N e ([], fold f xs e)"
  by (rule fold_keeps [where P = "\<lambda>s. step_ok N e ([], s)"]) (use step_ok_trans [OF _ assms] in \<open>auto\<close>)

lemma tick_neighbours_ok:
  "tick_neighbours E e = (lost, e') \<Longrightarrow> step_ok N e ([], e') \<and> (lost \<or> e' = e)"
  by (auto simp: tick_neighbours_def Let_def intro: step_ok_fold remove_neighbour_ok)

lemma expire_candidates_learn_ok:
  assumes "pre_ok N e" "distinct (map fst expired)" "\<And>k b. (k, b) \<in> set expired \<Longrightarrow> contains_key (candidates e) k"
  shows "pre_ok N (fold (expire_candidate now_ms) expired e) \<and> rest_same e (fold (expire_candidate now_ms) expired e)"
  using assms
proof (induction expired arbitrary: e)
  case Nil
  then show ?case by simp
next
  case (Cons x xs)
  obtain key nk b where x: "x = ((key, nk), b)" by (metis surj_pair)
  let ?e = "expire_candidate now_ms x e"
  have r: "rest_same e ?e" by (simp add: x expire_candidate_def rest_same_def modify_neighbour_def)
  have l: "learn_ok N e" using Cons.prems(1) by (simp add: pre_ok_def)
  have "learn_ok N ?e"
  proof (cases b)
    case True
    have "contains_key (candidates e) (key, nk)" using Cons.prems(3) [of "(key, nk)" b] x by simp
    then show ?thesis using learn_ok_delete_candidate [OF l] True by (simp add: x expire_candidate_def)
  next
    case False
    have ok: "candidate_ok N cfg k m (c\<lparr>c_expires_ms := t\<rparr>) = candidate_ok N cfg k m c" for cfg :: "'a engine_config" and k m c t
      by (simp add: candidate_ok_def candidate_context_def)
    show ?thesis using False l candidate_ok_retracted
      by (auto simp: x expire_candidate_def ok intro!: learn_ok_modify_candidate)
  qed
  then have p: "pre_ok N ?e" using pre_ok_learn [OF Cons.prems(1) _ r] by blast
  have "contains_key (candidates ?e) k" if "(k, b') \<in> set xs" for k b'
  proof -
    have "k \<noteq> (key, nk)" using that Cons.prems(2) x by force
    then show ?thesis using Cons.prems(3) [of k b'] that
      by (cases b) (auto simp: x expire_candidate_def modify_neighbour_def table)
  qed
  from Cons.IH [OF p _ this] Cons.prems(2) rest_same_trans [OF r] show ?case by auto
qed

lemma tick_candidates_ok:
  assumes "tick_candidates E now_ms e = (expired, e')"
  shows "step_ok N e ([], e')" and "expired \<or> e' = e"
proof -
  let ?xs = "map (\<lambda>(key, route). (key, c_metric route = INFINITY))
    (filter (\<lambda>(_, route). c_expires_ms route < now_ms) (iter_candidates E (candidates e)))"
  have r: "expired = (?xs \<noteq> [])" "e' = fold (expire_candidate now_ms) ?xs e"
    using assms by (auto simp: tick_candidates_def Let_def)
  have k: "map fst ?xs = table_keys (filter (\<lambda>(_, route). c_expires_ms route < now_ms) (iter_candidates E (candidates e)))"
    by (simp add: comp_def case_prod_unfold)
  have "distinct (map fst ?xs)" if "pre_ok N e"
    unfolding k using that by (simp add: pre_ok_def learn_ok_def iter_candidates_def)
  moreover have "contains_key (candidates e) k" if "(k, b) \<in> set ?xs" for k b
    unfolding contains_key_iff using that by (force simp: iter_candidates_def)
  ultimately have p: "pre_ok N e \<Longrightarrow> pre_ok N e'"
    unfolding r using expire_candidates_learn_ok [of N e ?xs now_ms] by blast
  have "rest_same e e'"
    unfolding r by (rule fold_keeps) (auto simp: expire_candidate_def rest_same_def modify_neighbour_def)
  then show "step_ok N e ([], e')" by (rule learn_step_ok) (use p in \<open>auto simp: pre_ok_def\<close>)
  show "expired \<or> e' = e" by (cases "?xs") (simp_all add: r)
qed

lemma tick_refresh_ok:
  assumes "tick_refresh E now_ms e = (actions, e')"
  shows "step_ok N e ([], e')" "sel_ok e \<Longrightarrow> sel_ok e'" "rest_same e e'"
    "list_all (\<lambda>a. \<not> is_routes_changed a \<and> allowed c a) actions"
proof -
  let ?f = "\<lambda>key c. if needs_refresh e now_ms (key, c) then c\<lparr>c_refresh_requested := True\<rparr> else c"
  have e': "e' = e\<lparr>candidates := map_values ?f (candidates e)\<rparr>"
    using assms by (simp add: tick_refresh_def)
  show r: "rest_same e e'" by (simp add: e' rest_same_def)
  have "learn_ok N e'" if "learn_ok N e"
    unfolding e' by (rule learn_ok_map_candidates [OF that]) (simp add: candidate_ok_def candidate_context_def)
  then show "step_ok N e ([], e')" by (intro learn_step_ok r) (simp add: pre_ok_def)
  have "backed e'" if b: "backed e"
    unfolding backed_def
  proof (clarify)
    fix key r assume "(key, r) \<in> set (selected e')"
    then obtain nk c where c: "((key, nk), c) \<in> set (candidates e)" "r = selected_from_candidate c" "c_metric c \<noteq> INFINITY"
      using b by (auto simp: backed_def e')
    moreover have "selected_from_candidate (?f (key, nk) c) = selected_from_candidate c"
      by (simp add: selected_from_candidate_def)
    ultimately show "\<exists>nk c. ((key, nk), c) \<in> set (candidates e') \<and> r = selected_from_candidate c \<and> c_metric c \<noteq> INFINITY"
      by (intro exI [of _ nk] exI [of _ "?f (key, nk) c"]) (auto simp: e' set_map_values)
  qed
  then show "sel_ok e \<Longrightarrow> sel_ok e'" using r by (simp add: sel_ok_def selection_ok_def rest_same_def)
  show "list_all (\<lambda>a. \<not> is_routes_changed a \<and> allowed c a) actions"
    using assms by (auto simp: tick_refresh_def refresh_action_def list_all_iff)
qed

lemma tick_collect_ok:
  assumes "tick_collect now_ms e = (stones, sources, e')"
  shows "pre_ok N e \<Longrightarrow> pre_ok N e'" "sel_ok e \<Longrightarrow> sel_ok e'" "config e' = config e"
    "selected e' = selected e" "stones \<or> tombstones e' = tombstones e"
    "stones = (length (tombstones e) \<noteq> length (tombstones e'))"
proof -
  have e': "e' = e\<lparr>tombstones := filter (\<lambda>(_, expires). expires \<ge> now_ms) (tombstones e),
      advertised_until := filter (\<lambda>(_, until). until \<ge> now_ms) (advertised_until e),
      feasible := filter (\<lambda>(_, entry). se_expires_ms entry \<ge> now_ms) (feasible e),
      recent_seqno := filter (\<lambda>(_, _, expires_ms). expires_ms \<ge> now_ms) (recent_seqno e)\<rparr>"
    and st: "stones = (length (tombstones e) \<noteq> length (filter (\<lambda>(_, expires). expires \<ge> now_ms) (tombstones e)))"
    using assms by (auto simp: tick_collect_def Let_def)
  show "config e' = config e" "selected e' = selected e" by (simp_all add: e')
  show "stones = (length (tombstones e) \<noteq> length (tombstones e'))" by (simp add: e' st)
  have "filter P xs = xs" if "length xs = length (filter P xs)" for P and xs :: "(route_key \<times> u64) list"
    using that by (metis filter_id_conv length_filter_less less_irrefl)
  then show "stones \<or> tombstones e' = tombstones e" by (auto simp: e' st)
  show "pre_ok N e \<Longrightarrow> pre_ok N e'"
    by (auto simp: e' pre_ok_def learn_ok_def tables_sorted_def hyst_ok_def out_ok_def interface_config_def
        sorted_keys_filter)
  have "set (table_keys (tombstones e')) \<subseteq> set (table_keys (tombstones e))" by (auto simp: e')
  then show "sel_ok e \<Longrightarrow> sel_ok e'" by (auto simp: e' sel_ok_def selection_ok_def backed_def)
qed

lemma tick_recompute_fold:
  "fold (tick_recompute E) ks (changed, e) = (changed', e') \<Longrightarrow>
     step_ok N e ([], e') \<and> (changed \<longrightarrow> changed') \<and> (changed' \<or> e' = e)"
proof (induction ks arbitrary: changed e)
  case Nil
  then show ?case by simp
next
  case (Cons k ks)
  obtain c e1 where c: "recompute_candidate_metrics E (Some k) e = (c, e1)" by fastforce
  have "step_ok N e1 ([], e') \<and> (changed \<or> c \<longrightarrow> changed') \<and> (changed' \<or> e' = e1)"
    using Cons.prems by (intro Cons.IH) (simp add: tick_recompute_def c)
  then show ?case using recompute_ok(1) [OF c, of N] recompute_ok(2) [OF c] step_ok_trans [of N e "[]" e1 "[]" e'] by auto
qed

lemma host_view_routes: "list_ex is_routes_changed xs \<Longrightarrow> host_view xs v = host_view xs w"
proof (induction xs arbitrary: v w)
  case Nil
  then show ?case by simp
next
  case (Cons a xs)
  show ?case
  proof (cases a)
    case (RoutesChanged g rs us)
    then show ?thesis by simp
  qed (use Cons in simp_all)
qed

text \<open>The part of the host's view that the phases before the reselection do not see: tombstones
  that expired are announced by the reselection or by a snapshot of their own.\<close>

lemma tick_expiry_completes:
  assumes "engine_ok N e"
  shows "completes N e (tick_expiry E now_ms e)"
proof -
  obtain heard e1 where 1: "tick_hellos E now_ms e = (heard, e1)" by fastforce
  obtain lost e2 where 2: "tick_neighbours E e1 = (lost, e2)" by fastforce
  obtain unheard e3 where 3: "tick_ihus E now_ms e2 = (unheard, e3)" by fastforce
  obtain expired e4 where 4: "tick_candidates E now_ms e3 = (expired, e4)" by fastforce
  obtain refresh e5 where 5: "tick_refresh E now_ms e4 = (refresh, e5)" by fastforce
  obtain stones sources e6 where 6: "tick_collect now_ms e5 = (stones, sources, e6)" by (metis surj_pair)
  obtain changed e7 where 7: "fold (tick_recompute E) (iter_neighbour_set E (fold List.insert unheard heard))
      (lost \<or> expired \<or> stones \<or> sources, e6) = (changed, e7)" by fastforce
  obtain acts e8 where 8: "(if changed \<or> pending_switches e7 \<noteq> [] then reselect E now_ms e7 else ([], e7)) = (acts, e8)"
    by fastforce
  obtain acts' e9 where 9: "(if length (tombstones e5) \<noteq> length (tombstones e8) \<and> \<not> list_ex is_routes_changed acts
      then let (snapshot, e') = route_snapshot e8 in (acts @ [snapshot], e') else (acts, e8)) = (acts', e9)" by fastforce
  have res: "tick_expiry E now_ms e = (acts' @ refresh, e9)"
    using 1 2 3 4 5 6 7 8 9 by (simp add: tick_expiry_def Let_def)
  note o1 = tick_hellos_observes [OF 1, of N] and n2 = tick_neighbours_ok [OF 2, of N]
    and o3 = tick_ihus_observes [OF 3, of N] and c4 = tick_candidates_ok(1) [OF 4, of N] tick_candidates_ok(2) [OF 4]
    and r5 = tick_refresh_ok(1) [OF 5, of N] tick_refresh_ok(2,3) [OF 5] tick_refresh_ok(4) [OF 5, of "config e"]
    and g6 = tick_collect_ok [OF 6] and m7 = tick_recompute_fold [OF 7, of N]
  have s5: "step_ok N e ([], e5)"
    using step_ok_trans [OF observes_step(1) [OF o1] step_ok_trans [OF conjunct1 [OF n2]
      step_ok_trans [OF observes_step(1) [OF o3] step_ok_trans [OF c4(1) r5(1)]]]] by simp
  have rib5: "rib e5 = rib e" and cfg5: "config e5 = config e" and p5: "pre_ok N e5"
    using s5 assms by (auto simp: step_ok_def engine_ok_def)
  have sel5: "lost \<or> expired \<or> sel_ok e5"
    using observes_step(2) [OF o1] n2 observes_step(2) [OF o3] c4(2) r5(2) assms by (auto simp: engine_ok_def)
  have p7: "pre_ok N e7" "config e7 = config e" and sel7: "changed \<or> sel_ok e7"
    and rib67: "rib e7 = rib e6" and st7: "stones \<Longrightarrow> changed"
    using m7 g6(1-3) p5 sel5 cfg5 by (auto simp: step_ok_def)
  have c8: "completes N e7 (acts, e8)"
    using 8 reselect_completes [OF p7(1)] p7 sel7 by (auto simp: completes_def split: if_splits)
  have keys: "selected e8 = selected e7 \<and> table_keys (tombstones e8) = table_keys (tombstones e7) \<and> acts = []"
    if "\<not> list_ex is_routes_changed acts"
    using 8 that reselect_facts(9) [of E now_ms e7 acts e8] by (auto split: if_splits)
  have "completes N e (acts', e9)"
  proof (cases "list_ex is_routes_changed acts")
    case True
    then have "acts' = acts" "e9 = e8" using 9 by simp_all
    then show ?thesis
      using c8 True p7(2) host_view_routes [OF True, of "rib e" "rib e7"]
      by (auto simp: completes_def step_ok_def)
  next
    case False
    show ?thesis
    proof (cases "length (tombstones e5) = length (tombstones e8)")
      case True
      then have r: "acts' = []" "e9 = e8" using 9 False keys by simp_all
      have "length (tombstones e6) = length (tombstones e7)"
        using rib67 by (metis length_map rib_def unreachable_routes_def snd_conv)
      moreover have "length (tombstones e8) = length (tombstones e7)" using keys [OF False] by (metis length_map)
      ultimately have "\<not> stones" using True g6(6) by simp
      then have "rib e6 = rib e" using g6(4,5) rib5 by (simp add: rib_def selected_routes_def unreachable_routes_def)
      moreover have "rib e8 = rib e7" using keys [OF False] by (simp add: rib_def selected_routes_def unreachable_routes_def)
      ultimately show ?thesis using c8 p7(2) r rib67 keys [OF False] by (auto simp: completes_def step_ok_def)
    next
      case snap: False
      define e8' where "e8' = e8\<lparr>generation := generation e8 + 1\<rparr>"
      have r: "acts' = [RoutesChanged (generation e8') (selected_routes e8') (unreachable_routes e8')]" "e9 = e8'"
        using 9 snap False keys by (auto simp: route_snapshot_def Let_def e8'_def)
      have "pre_ok N e8' = pre_ok N e8" "sel_ok e8' = sel_ok e8" "config e8' = config e8"
        by (simp_all add: e8'_def pre_ok_def learn_ok_def tables_sorted_def hyst_ok_def out_ok_def
            interface_config_def sel_ok_def selection_ok_def backed_def)
      then show ?thesis using c8 p7(2) by (auto simp: completes_def step_ok_def r rib_def)
    qed
  qed
  moreover have "quiet e9 (refresh, e9)"
    using r5(4) calculation by (simp add: quiet_def completes_def step_ok_def)
  ultimately show ?thesis unfolding res by (rule completes_quiet)
qed

section \<open>Retries, repeats and periodic output\<close>

lemma retries_decrease:
  fixes r :: u8
  assumes "r \<noteq> 0" "r \<le> 3"
  shows "r - 1 \<le> 3"
proof -
  have "unat (r - 1) = unat r - 1" using assms(1) by (simp add: unat_minus_one)
  then show ?thesis using assms(2) by (simp add: word_le_nat_alt)
qed

lemma give_up_quiet:
  "quiet e ([], e\<lparr>pending_seqno := AList.delete k (pending_seqno e),
     recent_seqno := AList.update k v (recent_seqno e)\<rparr>)"
proof -
  have "out_ok (e\<lparr>pending_seqno := AList.delete k (pending_seqno e),
     recent_seqno := AList.update k v (recent_seqno e)\<rparr>)" if "out_ok e"
    using that by (simp add: out_ok_def distinct_delete distinct_update set_delete_table)
  then show ?thesis by (simp add: quiet_def kept_def interface_config_def)
qed

lemma retry_quiet:
  assumes "map_of (pending_seqno e) k = Some p" "ps_retries_left p \<noteq> 0" "\<not> is_routes_changed a" "allowed (config e) a"
    and "\<And>q. ps_hop_count (f q) = ps_hop_count q" "\<And>q. ps_retries_left (f q) = ps_retries_left q - 1"
  shows "quiet e ([a], e\<lparr>pending_seqno := modify k f (pending_seqno e)\<rparr>)"
proof (rule quiet_action [OF _ _ assms(3,4)])
  show "kept e (e\<lparr>pending_seqno := modify k f (pending_seqno e)\<rparr>)" by (simp add: kept_def interface_config_def)
  assume o: "out_ok e"
  have "1 \<le> ps_hop_count q' \<and> ps_retries_left q' \<le> 3" if q': "(k', q') \<in> set (modify k f (pending_seqno e))" for k' q'
  proof -
    obtain q where q: "(k', q) \<in> set (pending_seqno e)" "q' = (if k' = k then f q else q)"
      using q' by (auto simp: set_modify)
    then have b: "1 \<le> ps_hop_count q" "ps_retries_left q \<le> 3" using o by (auto simp: out_ok_def)
    have "k' = k \<Longrightarrow> q = p" using map_of_is_SomeI [of "pending_seqno e" k' q] q(1) o assms(1) by (auto simp: out_ok_def)
    then show ?thesis using b q(2) assms(2,5,6) by (cases "k' = k") (simp_all add: retries_decrease)
  qed
  then show "out_ok (e\<lparr>pending_seqno := modify k f (pending_seqno e)\<rparr>)" using o unfolding out_ok_def by auto
qed

lemma retry_request_step:
  assumes "map_of (pending_seqno e) k = Some p"
  obtains new e1 where "retry_request now_ms (k, p) (actions, e) = (actions @ new, e1)" "quiet e (new, e1)"
    "\<And>k'. k' \<noteq> k \<Longrightarrow> map_of (pending_seqno e1) k' = map_of (pending_seqno e) k'"
proof (cases "ps_retries_left p = 0")
  case True
  show ?thesis
    by (rule that [of "[]", OF _ give_up_quiet]) (auto simp: retry_request_def True table)
next
  case False
  let ?f = "\<lambda>q. let attempt = sat_sub REQUEST_RETRIES (ps_retries_left q)
    in q\<lparr>ps_retries_left := ps_retries_left q - 1,
         ps_next_retry_ms := sat_add now_ms
           (sat_mul REQUEST_RETRY_INITIAL_MS (push_bit (unat (attempt + 1)) 1))\<rparr>"
  let ?a = "seqno_request_action (fst k) (snd k) (ps_seqno p) (ps_hop_count p) (ps_next_hop p) now_ms"
  have "quiet e ([?a], e\<lparr>pending_seqno := modify k ?f (pending_seqno e)\<rparr>)"
    by (rule retry_quiet [OF assms False]) (simp_all add: seqno_request_action_def Let_def)
  then show ?thesis
    by (rule that [rotated]) (simp_all only: retry_request_def prod.case False if_False,
      simp add: table)
qed

lemma retry_requests_quiet:
  assumes "distinct (map fst ps)" "\<And>k p. (k, p) \<in> set ps \<Longrightarrow> map_of (pending_seqno e) k = Some p"
    "quiet e0 (actions, e)"
  shows "quiet e0 (fold (retry_request now_ms) ps (actions, e))"
  using assms
proof (induction ps arbitrary: actions e)
  case Nil
  then show ?case by simp
next
  case (Cons x ps)
  obtain k p where x: "x = (k, p)" by fastforce
  have "map_of (pending_seqno e) k = Some p" using Cons.prems(2) x by simp
  then obtain new e1 where r: "retry_request now_ms (k, p) (actions, e) = (actions @ new, e1)"
    and q: "quiet e (new, e1)" and look: "\<And>k'. k' \<noteq> k \<Longrightarrow> map_of (pending_seqno e1) k' = map_of (pending_seqno e) k'"
    by (rule retry_request_step [of e k p now_ms actions]) blast
  have "quiet e0 (fold (retry_request now_ms) ps (actions @ new, e1))"
  proof (rule Cons.IH)
    show "distinct (map fst ps)" using Cons.prems(1) by simp
    show "quiet e0 (actions @ new, e1)" by (rule quiet_trans [OF Cons.prems(3) q])
    fix k' p' assume "(k', p') \<in> set ps"
    moreover from this have "k' \<noteq> k" using Cons.prems(1) x by force
    ultimately show "map_of (pending_seqno e1) k' = Some p'" using look Cons.prems(2) [of k' p'] by simp
  qed
  then show ?case by (simp add: x r)
qed

lemma tick_requests_completes:
  assumes "completes N e (actions, s)"
  shows "completes N e (tick_requests E now_ms (actions, s))"
proof -
  let ?ps = "filter (\<lambda>(_, pending). now_ms \<ge> ps_next_retry_ms pending) (iter_requests E (pending_seqno s))"
  have d: "distinct (table_keys (pending_seqno s))"
    using assms by (simp add: completes_def pre_ok_def out_ok_def)
  have "quiet s (fold (retry_request now_ms) ?ps ([], s))"
    by (rule retry_requests_quiet) (use d in \<open>auto simp: iter_requests_def intro: map_of_is_SomeI\<close>)
  moreover have shift: "fold (retry_request now_ms) ps (acts @ xs, s) =
      (acts @ fst (fold (retry_request now_ms) ps (xs, s)), snd (fold (retry_request now_ms) ps (xs, s)))" for ps acts xs s
    by (induction ps arbitrary: xs s) (auto simp: retry_request_def split: prod.splits)
  ultimately show ?thesis
    using completes_quiet [OF assms] shift [of ?ps actions "[]" s] by (auto simp: tick_requests_def)
qed

lemma repeat_update_quiet:
  assumes "quiet e0 (actions, e)"
  shows "quiet e0 (repeat_update now_ms key (actions, e))"
proof (cases "map_of (pending_advertisements e) key")
  case None
  then show ?thesis using assms by (simp add: repeat_update_def)
next
  case (Some v)
  obtain t left where v: "v = (t, left)" by fastforce
  let ?e1 = "e\<lparr>pending_advertisements := AList.delete key (pending_advertisements e)\<rparr>"
  obtain updates e2 where u: "send_updates now_ms (Some key) None (Some (urgent now_ms)) ?e1 = (updates, e2)" by fastforce
  have "quiet e ([], ?e1)"
    by (simp add: quiet_def kept_def interface_config_def out_ok_def sorted_keys_delete set_delete_table)
  then have q: "quiet e (updates, e2)" using quiet_trans [OF _ send_updates_quiet' [OF u]] by fastforce
  have left: "1 \<le> left \<and> left \<le> 2" if "out_ok e"
    using that map_of_SomeD [OF Some] v by (auto simp: out_ok_def)
  let ?e3 = "e2\<lparr>pending_advertisements := bt_insert key (sat_add now_ms 1000, left - 1) (pending_advertisements e2)\<rparr>"
  have dec: "1 \<le> left - 1 \<and> left - 1 \<le> 2" if "1 < left" "left \<le> 2"
  proof -
    have "left = 2" using that by (simp add: word_le_nat_alt word_less_nat_alt word_unat_eq_iff)
    then show ?thesis by simp
  qed
  have "quiet e (updates, ?e3)" if l: "left > 1"
  proof -
    have "out_ok ?e3" if o: "out_ok e"
    proof -
      have "out_ok e2" using q o by (simp add: quiet_def)
      then show ?thesis using left [OF o] dec l by (auto simp: out_ok_def btree.shape_ins btree.set_ins)
    qed
    then show ?thesis using q by (simp add: quiet_def kept_def interface_config_def)
  qed
  then show ?thesis
    using quiet_trans [OF assms] q Some by (simp add: repeat_update_def v u Let_def)
qed

lemma tick_repeats_completes:
  assumes "completes N e (actions, s)"
  shows "completes N e (tick_repeats now_ms (actions, s))"
proof -
  let ?ks = "table_keys (filter (\<lambda>(_, deadline, _). now_ms \<ge> deadline) (pending_advertisements s))"
  have "completes N e (fold (repeat_update now_ms) ks (acts, s'))" if "completes N e (acts, s')" for ks acts s'
  proof (rule completes_fold [OF that])
    fix key acts s assume c: "completes N e (acts, s)"
    have shift: "repeat_update now_ms key (acts, s) = (acts @ fst (repeat_update now_ms key ([], s)), snd (repeat_update now_ms key ([], s)))"
      by (simp add: repeat_update_def Let_def split: option.splits prod.splits)
    have "quiet s (repeat_update now_ms key ([], s))" by (rule repeat_update_quiet) simp
    then show "completes N e (repeat_update now_ms key (acts, s))"
      unfolding shift using completes_quiet [OF c] by simp
  qed
  then show ?thesis using assms by (simp add: tick_repeats_def)
qed

lemma send_ihu_completes:
  assumes "completes N e (actions, s)"
  shows "completes N e (send_ihu E now_ms x (actions, s))"
proof -
  obtain key deadline where x: "x = (key, deadline)" by fastforce
  obtain a s' where a: "ihu_action E key now_ms deadline s = (a, s')" by fastforce
  have "step_ok N s (case a of None \<Rightarrow> [] | Some y \<Rightarrow> [y], s')" "sel_ok s' = sel_ok s"
    using ihu_step_ok [OF a] observes_step(2) [OF ihu_action_ok(1) [OF a]] by auto
  then have "completes N s (case a of None \<Rightarrow> [] | Some y \<Rightarrow> [y], s')"
    using assms by (auto simp: completes_def step_ok_def)
  from completes_trans [OF assms this] show ?thesis
    by (simp add: send_ihu_def x a split: option.splits)
qed

lemma tick_send_ihus_completes:
  "completes N e (actions, s) \<Longrightarrow> completes N e (tick_send_ihus E now_ms (actions, s))"
  by (simp add: tick_send_ihus_def completes_fold send_ihu_completes)

lemma interface_config_set:
  assumes "map_of m i = Some s" "distinct (table_keys m)" "if_policy s' = if_policy s" "if_local_addresses s' = if_local_addresses s"
  shows "map_values (\<lambda>_ s. (if_policy s, if_local_addresses s)) (modify i (\<lambda>_. s') m) =
    map_values (\<lambda>_ s. (if_policy s, if_local_addresses s)) m"
  using assms
proof (induction m)
  case (Cons x m)
  obtain k v where x: "x = (k, v)" by fastforce
  show ?case
  proof (cases "k = i")
    case True
    then have "map_of m i = None" using Cons.prems(2) x by (simp add: map_of_eq_None_iff)
    then have "modify i (\<lambda>_. s') m = m" by (rule modify_absent)
    with True Cons.prems x show ?thesis by (simp add: modify_def map_values_def)
  next
    case False
    then show ?thesis using Cons x by (simp add: modify_def map_values_def)
  qed
qed simp

lemma advance_interface_config:
  "advance_interface now_ms s = (h, u, s') \<Longrightarrow> if_policy s' = if_policy s \<and> if_local_addresses s' = if_local_addresses s"
  by (auto simp: advance_interface_def Let_def split: if_splits)

lemma tick_interface_completes:
  assumes "completes N e (actions, s)"
  shows "completes N e (tick_interface now_ms interface (actions, s))"
proof (cases "map_of (interfaces s) interface")
  case None
  then show ?thesis using assms by (simp add: tick_interface_def)
next
  case (Some st)
  obtain h u st' where a: "advance_interface now_ms st = (h, u, st')" by (metis surj_pair)
  let ?s1 = "s\<lparr>interfaces := modify interface (\<lambda>_. st') (interfaces s)\<rparr>"
  have "distinct (table_keys (interface_config s))"
    using assms by (intro strict_sorted_distinct) (simp add: completes_def pre_ok_def learn_ok_def)
  then have "interface_config ?s1 = interface_config s"
    using interface_config_set [OF Some] advance_interface_config [OF a] by (simp add: interface_config_def)
  then have k: "kept s ?s1" "out_ok s \<Longrightarrow> out_ok ?s1" by (simp_all add: kept_def out_ok_def)
  define hello where "hello = (case h of None \<Rightarrow> [] | Some deadline \<Rightarrow>
    [Send interface (multicast (ip_control_transport (if_policy st')))
      \<lparr>out_tlvs = [OutHello False (if_hello_seqno st') (ip_hello_interval_cs (if_policy st'))
         (if timestamps_enabled (ip_metric (if_policy st')) then [TimestampHello (timestamp_us now_ms)] else [])]\<rparr>
      (by_deadline now_ms deadline)])"
  have q: "quiet s (hello, ?s1)" using k by (simp add: quiet_def hello_def split: option.splits)
  obtain updates s2 where upd: "(case u of None \<Rightarrow> ([], ?s1)
      | Some deadline \<Rightarrow> send_updates now_ms None (Some interface) (Some (by_deadline now_ms deadline)) ?s1) = (updates, s2)"
    by fastforce
  then have "quiet ?s1 (updates, s2)" by (cases u) (auto dest: send_updates_quiet')
  then have "completes N e (actions @ hello @ updates, s2)"
    using completes_quiet [OF assms quiet_trans [OF q]] by blast
  moreover have "tick_interface now_ms interface (actions, s) = (actions @ hello @ updates, s2)"
    using Some a upd by (cases h; cases u) (simp_all add: tick_interface_def hello_def Let_def)
  ultimately show ?thesis by simp
qed

lemma tick_interfaces_completes:
  "completes N e (actions, s) \<Longrightarrow> completes N e (tick_interfaces now_ms (actions, s))"
  by (simp add: tick_interfaces_def completes_fold tick_interface_completes)

lemma tick_completes: "engine_ok N e \<Longrightarrow> completes N e (tick E now_ms e)"
  unfolding tick_def
  by (metis tick_expiry_completes tick_requests_completes tick_repeats_completes
      tick_send_ihus_completes tick_interfaces_completes surj_pair)

end
