(* ===== verification/Babel_Reachable.thy ===== *)
theory Babel_Reachable
  imports Babel_Safety
begin

text \<open>
  The remaining events, the dispatcher, and the engines reachable from a new one: whatever the
  sequence of events, the invariant holds, the host is in step with the engine, and every
  update that was sent was allowed.
\<close>

section \<open>Interfaces\<close>

lemma learn_ok_interfaces:
  assumes "learn_ok N e" "sorted_wrt (<) (table_keys is)"
    and "\<And>nk n. (nk, n) \<in> set (neighbours e) \<Longrightarrow> on_interface (interface_config (e\<lparr>interfaces := is\<rparr>)) nk"
  shows "learn_ok N (e\<lparr>interfaces := is\<rparr>)"
proof -
  have same: "neighbours (e\<lparr>interfaces := is\<rparr>) = neighbours e" "candidates (e\<lparr>interfaces := is\<rparr>) = candidates e"
    "config (e\<lparr>interfaces := is\<rparr>) = config e" by simp_all
  have "table_keys (interface_config (e\<lparr>interfaces := is\<rparr>)) = table_keys is" by (simp add: interface_config_def)
  with learn_okD [OF assms(1)] assms(2,3) show ?thesis
    by (intro learn_okI; (unfold same)?) (simp_all only:, blast+)
qed

lemma interface_keys_sorted: "learn_ok N e \<Longrightarrow> sorted_wrt (<) (table_keys (interfaces e))"
  using learn_okD(1) [of N e] by (simp add: interface_config_def)

lemma pre_ok_interfaces:
  "pre_ok N e \<Longrightarrow> learn_ok N (e\<lparr>interfaces := is\<rparr>) \<Longrightarrow> pre_ok N (e\<lparr>interfaces := is\<rparr>)"
  by (rule pre_ok_learn) (auto simp: rest_same_def)

lemma sel_ok_interfaces [simp]: "sel_ok (e\<lparr>interfaces := is\<rparr>) = sel_ok e"
  by (rule sel_ok_candidates) (simp_all add: rest_same_def)

lemma completes_interfaces:
  assumes "engine_ok N e" "learn_ok N (e\<lparr>interfaces := is\<rparr>)"
  shows "completes N e ([], e\<lparr>interfaces := is\<rparr>)"
  using assms pre_ok_interfaces [OF _ assms(2)]
  by (simp add: completes_def engine_ok_def step_ok_def rib_def selected_routes_def unreachable_routes_def)

lemma drop_interface_state_ok:
  assumes "learn_ok N e" "sorted_wrt (<) (table_keys is)"
    and "\<And>i. i \<noteq> interface \<Longrightarrow> map_of is i = map_of (interfaces e) i"
  shows "learn_ok N (drop_interface_state interface (e\<lparr>interfaces := is\<rparr>))"
proof -
  let ?ns = "filter (\<lambda>(nk, _). nk_interface nk \<noteq> interface) (neighbours e)"
  let ?cs = "filter (\<lambda>(_, route). c_interface route \<noteq> interface) (candidates e)"
  have cs: "?cs = filter (\<lambda>((_, nk), _). nk_interface nk \<noteq> interface) (candidates e)"
    by (rule filter_cong [OF refl]) (use learn_okD(4) [OF assms(1)] in \<open>auto simp: candidate_ok_def\<close>)
  have l: "learn_ok N (e\<lparr>neighbours := ?ns, candidates := ?cs\<rparr>)"
    by (rule learn_ok_drop [OF assms(1) _ cs]) simp
  have "drop_interface_state interface (e\<lparr>interfaces := is\<rparr>) = e\<lparr>neighbours := ?ns, candidates := ?cs\<rparr>\<lparr>interfaces := is\<rparr>"
    by (simp add: drop_interface_state_def)
  moreover have "learn_ok N (e\<lparr>neighbours := ?ns, candidates := ?cs\<rparr>\<lparr>interfaces := is\<rparr>)"
  proof (rule learn_ok_interfaces [OF l assms(2)])
    fix nk n assume "(nk, n) \<in> set (neighbours (e\<lparr>neighbours := ?ns, candidates := ?cs\<rparr>))"
    then have "(nk, n) \<in> set (neighbours e)" "nk_interface nk \<noteq> interface" by auto
    then show "on_interface (interface_config (e\<lparr>neighbours := ?ns, candidates := ?cs\<rparr>\<lparr>interfaces := is\<rparr>)) nk"
      using learn_okD(6) [OF assms(1)] assms(3) by (simp add: on_interface_def interface_config_def table)
  qed
  ultimately show ?thesis by simp
qed

lemma drop_step_ok:
  assumes "sorted_wrt (<) (table_keys (interfaces e)) \<Longrightarrow> sorted_wrt (<) (table_keys is)"
    and "\<And>i. i \<noteq> interface \<Longrightarrow> map_of is i = map_of (interfaces e) i"
  shows "step_ok N e ([], drop_interface_state interface (e\<lparr>interfaces := is\<rparr>))"
proof (rule learn_step_ok)
  show "rest_same e (drop_interface_state interface (e\<lparr>interfaces := is\<rparr>))"
    by (simp add: drop_interface_state_def rest_same_def)
  assume "pre_ok N e"
  then have "learn_ok N e" by (simp add: pre_ok_def)
  then show "learn_ok N (drop_interface_state interface (e\<lparr>interfaces := is\<rparr>))"
    by (intro drop_interface_state_ok assms) (simp_all add: interface_keys_sorted)
qed

lemma interface_down_completes:
  assumes "engine_ok N e"
  shows "completes N e (interface_down E interface now_ms e)"
proof -
  obtain acts e' where r: "interface_down E interface now_ms e = (acts, e')" by fastforce
  have "step_ok N e ([], drop_interface_state interface (e\<lparr>interfaces := AList.delete interface (interfaces e)\<rparr>))"
    by (rule drop_step_ok) (auto simp: sorted_keys_delete table)
  from completes_reselect [OF this _ r [unfolded interface_down_def]] assms this r
  show ?thesis by (simp add: step_ok_def engine_ok_def)
qed

lemma interface_up_completes:
  assumes "engine_ok N e"
  shows "completes N e (interface_up E interface addresses policy now_ms e)"
proof -
  define st where "st = \<lparr>if_local_addresses = addresses, if_policy = policy, if_hello_seqno = 0,
    if_next_hello_ms = now_ms, if_next_update_ms = now_ms, if_last_full_update_ms = None\<rparr>"
  define e1 where "e1 = (if contains_key (interfaces e) interface then e
    else e\<lparr>interfaces := bt_insert interface st (interfaces e)\<rparr>)"
  have l: "learn_ok N e" using assms by (simp add: engine_ok_def pre_ok_def)
  have c1: "completes N e ([], e1)"
  proof (cases "contains_key (interfaces e) interface")
    case True
    then show ?thesis using assms by (simp add: e1_def)
  next
    case False
    have s: "sorted_wrt (<) (table_keys (interfaces e))" using l by (rule interface_keys_sorted)
    have "learn_ok N (e\<lparr>interfaces := bt_insert interface st (interfaces e)\<rparr>)"
    proof (rule learn_ok_interfaces [OF l])
      show "sorted_wrt (<) (table_keys (bt_insert interface st (interfaces e)))" using s by (rule btree.shape_ins)
      fix nk n assume "(nk, n) \<in> set (neighbours e)"
      then have "on_interface (interface_config e) nk" by (rule learn_okD(6) [OF l])
      moreover from this have "nk_interface nk \<noteq> interface"
        using False by (auto simp: on_interface_def interface_config_def table)
      ultimately show "on_interface (interface_config (e\<lparr>interfaces := bt_insert interface st (interfaces e)\<rparr>)) nk"
        using s by (simp add: on_interface_def interface_config_def table btree.map_of_ins)
    qed
    from completes_interfaces [OF assms this] show ?thesis using False by (simp add: e1_def)
  qed
  obtain acts e2 where t: "tick E now_ms e1 = (acts, e2)" by fastforce
  have "completes N e1 (acts, e2)" using tick_completes [OF completes_engine_ok [OF c1], of E now_ms] t by simp
  from completes_trans [OF c1 this] have c2: "completes N e (acts, e2)" by simp
  have "quiet e2 ([wildcard_request interface (get_or st (interfaces e2) interface) now_ms], e2)"
    by (rule quiet_action) (auto simp: wildcard_request_def)
  moreover have "interface_up E interface addresses policy now_ms e =
      (acts @ [wildcard_request interface (get_or st (interfaces e2) interface) now_ms], e2)"
    unfolding interface_up_def Let_def st_def [symmetric] e1_def [symmetric] t by simp
  ultimately show ?thesis using completes_quiet [OF c2] by simp
qed

lemma interface_addresses_changed_completes:
  assumes "engine_ok N e"
  shows "completes N e (interface_addresses_changed interface addresses now_ms e)"
proof (cases "map_of (interfaces e) interface")
  case None
  then show ?thesis
    using quiet_completes [OF assms] send_updates_quiet [of e now_ms None "Some interface" "Some (urgent now_ms)"]
    by (simp add: interface_addresses_changed_def) (metis surj_pair)
next
  case (Some st)
  let ?f = "\<lambda>s. s\<lparr>if_local_addresses := addresses, if_last_full_update_ms := None\<rparr>"
  let ?is = "modify interface ?f (interfaces e)"
  have l: "learn_ok N e" using assms by (simp add: engine_ok_def pre_ok_def)
  have "learn_ok N (e\<lparr>interfaces := ?is\<rparr>)"
  proof (rule learn_ok_interfaces [OF l])
    show "sorted_wrt (<) (table_keys ?is)" using interface_keys_sorted [OF l] by simp
    fix nk n assume "(nk, n) \<in> set (neighbours e)"
    then show "on_interface (interface_config (e\<lparr>interfaces := ?is\<rparr>)) nk"
      using learn_okD(6) [OF l] by (fastforce simp: on_interface_def interface_config_def table split: option.splits)
  qed
  from completes_interfaces [OF assms this] have c: "completes N e ([], e\<lparr>interfaces := ?is\<rparr>)" .
  obtain acts e' where u: "send_updates now_ms None (Some interface) (Some (urgent now_ms)) (e\<lparr>interfaces := ?is\<rparr>) = (acts, e')"
    by fastforce
  show ?thesis
    using completes_quiet [OF c send_updates_quiet' [OF u]] assms Some u
    by (simp add: interface_addresses_changed_def)
qed

lemma rebuild_metric_candidates [simp]: "nb_candidates (rebuild_metric E policy interface now_ms nk n) = nb_candidates n"
  by (simp add: rebuild_metric_def Let_def)

lemma interface_policy_changed_completes:
  assumes "engine_ok N e"
  shows "completes N e (interface_policy_changed E interface policy reset now_ms e)"
proof (cases "map_of (interfaces e) interface")
  case None
  then show ?thesis using assms by (simp add: interface_policy_changed_def)
next
  case (Some st)
  let ?f = "\<lambda>s. s\<lparr>if_policy := policy, if_next_hello_ms := now_ms, if_next_update_ms := now_ms,
    if_last_full_update_ms := None\<rparr>"
  let ?is = "modify interface ?f (interfaces e)"
  let ?e1 = "e\<lparr>interfaces := ?is\<rparr>"
  let ?changed = "ip_control_transport (if_policy st) \<noteq> ip_control_transport policy"
  have l: "learn_ok N e" using assms by (simp add: engine_ok_def pre_ok_def)
  have s: "sorted_wrt (<) (table_keys ?is)" using interface_keys_sorted [OF l] by simp
  obtain acts1 e2 where r1: "(if ?changed then reselect E now_ms (drop_interface_state interface ?e1) else ([], ?e1)) = (acts1, e2)"
    by fastforce
  have c2: "completes N e (acts1, e2)"
  proof (cases ?changed)
    case True
    have "step_ok N e ([], drop_interface_state interface ?e1)"
      by (rule drop_step_ok) (use s in \<open>auto simp: table\<close>)
    with completes_reselect [OF this] assms r1 True show ?thesis
      by (fastforce simp: step_ok_def engine_ok_def)
  next
    case False
    have "learn_ok N ?e1"
    proof (rule learn_ok_interfaces [OF l s])
      fix nk n assume "(nk, n) \<in> set (neighbours e)"
      then have "on_interface (interface_config e) nk" by (rule learn_okD(6) [OF l])
      then show "on_interface (interface_config ?e1) nk"
        using False Some
        by (cases "nk_interface nk = interface") (auto simp: on_interface_def interface_config_def table)
    qed
    from completes_interfaces [OF assms this] show ?thesis using r1 False by simp
  qed
  obtain acts2 e3 where r2: "(if reset
      then let (changed, e') = recompute_candidate_metrics E None
             (e2\<lparr>neighbours := map_values (rebuild_metric E policy interface now_ms) (neighbours e2)\<rparr>)
           in if changed then reselect E now_ms e' else ([], e')
      else ([], e2)) = (acts2, e3)" by fastforce
  have "completes N e2 (acts2, e3)"
  proof (cases reset)
    case True
    let ?e = "e2\<lparr>neighbours := map_values (rebuild_metric E policy interface now_ms) (neighbours e2)\<rparr>"
    have o: "observes N e2 ?e" by (rule observes_map) simp
    obtain changed e' where rc: "recompute_candidate_metrics E None ?e = (changed, e')" by fastforce
    have st: "step_ok N e2 ([], e')"
      using step_ok_trans [OF observes_step(1) [OF o] recompute_ok(1) [OF rc]] by simp
    have p: "pre_ok N e'" using st c2 by (simp add: step_ok_def completes_def)
    show ?thesis
      using completes_reselect [OF st p, of E now_ms acts2 e3] st p r2 True rc recompute_ok(2) [OF rc]
        observes_step(2) [OF o] c2 by (auto simp: completes_def split: if_splits)
  next
    case False
    then show ?thesis using r2 completes_engine_ok [OF c2] by simp
  qed
  from completes_trans [OF c2 this] have c3: "completes N e (acts1 @ acts2, e3)" .
  obtain acts3 e4 where u: "send_updates now_ms None (Some interface) (Some (urgent now_ms)) e3 = (acts3, e4)" by fastforce
  from completes_quiet [OF c3 send_updates_quiet' [OF u]] have c4: "completes N e ((acts1 @ acts2) @ acts3, e4)" .
  obtain acts4 e5 where t: "tick E now_ms e4 = (acts4, e5)" by fastforce
  have "completes N e4 (acts4, e5)" using tick_completes [OF completes_engine_ok [OF c4], of E now_ms] t by simp
  from completes_trans [OF c4 this] show ?thesis
    using Some r1 r2 u t by (simp add: interface_policy_changed_def Let_def)
qed

section \<open>Replacement of the route policy\<close>

lemma recount:
  assumes "distinct (table_keys cs)"
  shows "map_of (fold (\<lambda>((_, nk), _). modify nk (\<lambda>n. n\<lparr>nb_candidates := nb_candidates n + 1\<rparr>)) cs ns) nk =
    map_option (\<lambda>n. n\<lparr>nb_candidates := nb_candidates n + candidates_of cs nk\<rparr>) (map_of ns nk)"
  using assms
proof (induction cs arbitrary: ns)
  case Nil
  then show ?case by (simp add: candidates_of_def option.map_ident)
next
  case (Cons x cs)
  obtain key m c where x: "x = ((key, m), c)" by (metis surj_pair)
  have "{k \<in> set (table_keys (x # cs)). snd k = nk} =
      (if m = nk then insert (key, m) {k \<in> set (table_keys cs). snd k = nk} else {k \<in> set (table_keys cs). snd k = nk})"
    by (auto simp: x)
  moreover have "(key, m) \<notin> set (table_keys cs)" using Cons.prems x by simp
  ultimately have c: "candidates_of (x # cs) nk = (if m = nk then 1 else 0) + candidates_of cs nk"
    by (auto simp: candidates_of_def card_insert_if simp del: set_map)
  show ?case using Cons.IH [of "modify m (\<lambda>n. n\<lparr>nb_candidates := nb_candidates n + 1\<rparr>) ns"] Cons.prems
    by (cases "map_of ns nk") (auto simp: x c [unfolded x] table)
qed

lemma recount_keys:
  "table_keys (fold (\<lambda>((_, nk), _). modify nk f) cs ns) = table_keys ns"
  by (rule fold_keeps [where P = "\<lambda>s. table_keys s = table_keys ns"]) (auto split: prod.splits)

lemma candidate_ok_policy:
  "candidate_ok N cfg key nk c \<Longrightarrow>
     (c_advertised_metric c \<noteq> INFINITY \<Longrightarrow> accept policy (candidate_context nk c)) \<Longrightarrow>
     candidate_ok N (cfg\<lparr>cfg_route_policy := policy\<rparr>) key nk c"
  by (simp add: candidate_ok_def)

lemma candidates_of_filter: "candidates_of (filter P cs) nk \<le> candidates_of cs nk"
  unfolding candidates_of_def by (rule card_mono) auto

lemma apply_import_policy_ok:
  assumes "learn_ok N e"
  shows "learn_ok N (apply_import_policy (e\<lparr>config := (config e)\<lparr>cfg_route_policy := policy\<rparr>\<rparr>))"
proof -
  define cs where "cs = filter (\<lambda>((_, nk), c). c_advertised_metric c \<noteq> INFINITY
    \<and> accept policy (candidate_context nk c)) (candidates e)"
  define ns where "ns = fold (\<lambda>((_, nk), _). modify nk (\<lambda>n. n\<lparr>nb_candidates := nb_candidates n + 1\<rparr>)) cs
    (map_values (\<lambda>_ n. n\<lparr>nb_candidates := 0\<rparr>) (neighbours e))"
  let ?e = "apply_import_policy (e\<lparr>config := (config e)\<lparr>cfg_route_policy := policy\<rparr>\<rparr>)"
  note d = learn_okD [OF assms]
  have fields: "candidates ?e = cs" "neighbours ?e = ns" "interface_config ?e = interface_config e"
    "config ?e = (config e)\<lparr>cfg_route_policy := policy\<rparr>"
    by (simp_all add: apply_import_policy_def Let_def cs_def ns_def interface_config_def)
  have dc: "distinct (table_keys cs)" using d(3) by (simp add: cs_def)
  have keys: "table_keys ns = table_keys (neighbours e)" by (simp add: ns_def recount_keys)
  have look: "map_of ns nk = map_option (\<lambda>n. n\<lparr>nb_candidates := candidates_of cs nk\<rparr>) (map_of (neighbours e) nk)" for nk
    unfolding ns_def recount [OF dc] map_of_map_values by (simp add: option.map_comp comp_def)
  show ?thesis
  proof (rule learn_okI; unfold fields)
    show "sorted_wrt (<) (table_keys (interface_config e))" by (rule d(1))
    show dn: "distinct (table_keys ns)" using d(2) keys by simp
    show "distinct (table_keys cs)" by (rule dc)
    show "length ns \<le> max_neighbors (cfg_limits ((config e)\<lparr>cfg_route_policy := policy\<rparr>))"
      using d(9) keys by (metis engine_config.select_convs(3) engine_config.surjective
        engine_config.update_convs(1) length_map)
    show "length cs \<le> max_candidates (cfg_limits ((config e)\<lparr>cfg_route_policy := policy\<rparr>))"
      using le_trans [OF length_filter_le d(10)] by (simp add: cs_def)
    show "candidate_ok N ((config e)\<lparr>cfg_route_policy := policy\<rparr>) key nk c \<and> contains_key ns nk"
      if "((key, nk), c) \<in> set cs" for key nk c
      using that d(4,5) [of key nk c] by (auto simp: cs_def look intro: candidate_ok_policy)
    fix nk n assume "(nk, n) \<in> set ns"
    then have "map_of ns nk = Some n" by (rule map_of_is_SomeI [OF dn])
    then obtain m where m: "map_of (neighbours e) nk = Some m" "n = m\<lparr>nb_candidates := candidates_of cs nk\<rparr>"
      by (auto simp: look)
    from m(1) have "(nk, m) \<in> set (neighbours e)" by (rule map_of_SomeD)
    with d(6-8) m(2) candidates_of_filter [of _ "candidates e" nk]
    show "on_interface (interface_config e) nk \<and> nb_candidates n = candidates_of cs nk
        \<and> nb_candidates n \<le> max_candidates_per_neighbor (cfg_limits ((config e)\<lparr>cfg_route_policy := policy\<rparr>))"
      by (fastforce simp: cs_def intro: le_trans)
  qed
qed

text \<open>The result of an event: the invariant, allowed updates, a host in step, and a configuration
  in which only the route policy may have changed, to \<open>policy\<close>.\<close>

definition event_ok :: "ipnet \<Rightarrow> route_policy \<Rightarrow> 'm engine \<Rightarrow> action list \<times> 'm engine \<Rightarrow> bool" where
  "event_ok N policy e r \<longleftrightarrow> engine_ok N (snd r) \<and> list_all (allowed (config (snd r))) (fst r)
     \<and> host_view (fst r) (rib e) = rib (snd r)
     \<and> config (snd r) = (config e)\<lparr>cfg_route_policy := policy\<rparr>"

lemma completes_event_ok: "completes N e r \<Longrightarrow> engine_ok N e \<Longrightarrow> event_ok N (cfg_route_policy (config e)) e r"
  by (simp add: event_ok_def completes_def engine_ok_def step_ok_def)

lemma repeat_all_quiet: "quiet e (actions, s) \<Longrightarrow> quiet e (actions, fold (\<lambda>key. repeat_advertisement key now_ms) keys s)"
  by (induction keys arbitrary: s)
    (auto intro!: quiet_keep [of _ _ _ "repeat_advertisement _ _ _"] repeat_advertisement_out_ok)

lemma replace_route_policy_ok:
  assumes "engine_ok N e"
  shows "event_ok N policy e (replace_route_policy E policy now_ms e)"
proof -
  define e1 where "e1 = apply_import_policy (e\<lparr>config := (config e)\<lparr>cfg_route_policy := policy\<rparr>\<rparr>)"
  have l: "learn_ok N e1" unfolding e1_def
    by (rule apply_import_policy_ok) (use assms in \<open>simp add: engine_ok_def pre_ok_def\<close>)
  have same: "tables_sorted e1 = tables_sorted e" "hyst_ok e1 = hyst_ok e" "rib e1 = rib e"
    "config e1 = (config e)\<lparr>cfg_route_policy := policy\<rparr>"
    by (simp_all add: e1_def apply_import_policy_def Let_def tables_sorted_def hyst_ok_def rib_def
        selected_routes_def unreachable_routes_def)
  have "out_ok e \<Longrightarrow> out_ok e1"
    by (auto simp: e1_def apply_import_policy_def Let_def out_ok_def)
  then have p: "pre_ok N e1" using assms l same by (simp add: pre_ok_def engine_ok_def)
  obtain acts e2 where r: "reselect E now_ms e1 = (acts, e2)" by fastforce
  have c2: "completes N e1 (acts, e2)" by (rule reselect_completes [OF p r])
  define e3 where "e3 = fold (\<lambda>key. repeat_advertisement key now_ms)
    (table_keys (originated e2) @ table_keys (selected e2) @ table_keys (tombstones e2)) e2"
  have "quiet e2 ([], e3)" unfolding e3_def by (rule repeat_all_quiet) simp
  from completes_quiet [OF c2 this] have c3: "completes N e1 (acts, e3)" by simp
  obtain updates e4 where u: "send_updates now_ms None None (Some (urgent now_ms)) e3 = (updates, e4)" by fastforce
  from completes_quiet [OF c3 send_updates_quiet' [OF u]] have c4: "completes N e1 (acts @ updates, e4)" .
  have "quiet e4 (map (\<lambda>(interface, state). wildcard_request interface state now_ms) (interfaces e4), e4)"
    by (auto simp: quiet_def list_all_iff wildcard_request_def)
  from completes_quiet [OF c4 this]
  have c5: "completes N e1 ((acts @ updates) @ map (\<lambda>(interface, state). wildcard_request interface state now_ms) (interfaces e4), e4)" .
  have "replace_route_policy E policy now_ms e = (InvalidatePendingSends # acts @ updates
      @ map (\<lambda>(interface, state). wildcard_request interface state now_ms) (interfaces e4), e4)"
    unfolding replace_route_policy_def Let_def e1_def [symmetric] r prod.case e3_def [symmetric] u by simp
  then show ?thesis
    using c5 same(3,4) by (auto simp: event_ok_def completes_def engine_ok_def step_ok_def)
qed

section \<open>Local origins\<close>

lemma learn_ok_others [simp]:
  "learn_ok N (e\<lparr>originated := os\<rparr>) = learn_ok N e" "learn_ok N (e\<lparr>tombstones := ts\<rparr>) = learn_ok N e"
  "learn_ok N (e\<lparr>generation := g\<rparr>) = learn_ok N e"
  "learn_ok N (e\<lparr>advertised_until := au\<rparr>) = learn_ok N e"
  by (simp_all add: learn_ok_def interface_config_def)

lemma pre_ok_originated:
  "pre_ok N e \<Longrightarrow> out_ok (e\<lparr>originated := os\<rparr>) \<Longrightarrow> pre_ok N (e\<lparr>originated := os\<rparr>)"
  by (simp add: pre_ok_def tables_sorted_def hyst_ok_def)

lemma sel_ok_originated [simp]: "sel_ok (e\<lparr>originated := os\<rparr>) = sel_ok e"
  by (simp add: sel_ok_def selection_ok_def backed_def)

lemma originated_step_ok:
  assumes "out_ok e \<Longrightarrow> out_ok (e\<lparr>originated := os\<rparr>)"
  shows "step_ok N e ([], e\<lparr>originated := os\<rparr>)"
  using assms pre_ok_originated [of N e os]
  by (auto simp: step_ok_def rib_def selected_routes_def unreachable_routes_def pre_ok_def)

lemma out_ok_insert_origin:
  assumes "out_ok e" "metric \<noteq> INFINITY"
  shows "out_ok (e\<lparr>originated := bt_insert key \<lparr>o_metric = metric, o_seqno = sequence_number e\<rparr> (originated e)\<rparr>)"
  using assms by (auto simp: out_ok_def btree.shape_ins btree.set_ins)

lemma out_ok_delete_origin:
  "out_ok e \<Longrightarrow> out_ok (e\<lparr>originated := AList.delete key (originated e)\<rparr>)"
  by (auto simp: out_ok_def sorted_keys_delete set_delete_table)

lemma out_ok_replace_origins:
  assumes "out_ok e" "sorted_wrt (<) (table_keys origins)" "\<And>key metric. (key, metric) \<in> set origins \<Longrightarrow> metric \<noteq> INFINITY"
  shows "out_ok (e\<lparr>originated := map_values (\<lambda>_ metric. \<lparr>o_metric = metric, o_seqno = sequence_number e\<rparr>) origins\<rparr>)"
  using assms by (auto simp: out_ok_def set_map_values)

text \<open>Changes of the tombstones, which the code follows by a snapshot.\<close>

lemma engine_ok_tombstones:
  assumes "engine_ok N e" "sorted_wrt (<) (table_keys ts)"
    "set (table_keys (selected e)) \<inter> set (table_keys ts) = {}"
  shows "engine_ok N (e\<lparr>tombstones := ts\<rparr>)"
  using assms
  by (simp add: engine_ok_def pre_ok_def tables_sorted_def hyst_ok_def out_ok_def sel_ok_def
      selection_ok_def backed_def)

lemma engine_ok_forget_tombstone:
  assumes "engine_ok N e" shows "engine_ok N (e\<lparr>tombstones := AList.delete key (tombstones e)\<rparr>)"
proof (rule engine_ok_tombstones [OF assms])
  show "sorted_wrt (<) (table_keys (AList.delete key (tombstones e)))"
    using assms by (simp add: engine_ok_def pre_ok_def tables_sorted_def sorted_keys_delete)
  show "set (table_keys (selected e)) \<inter> set (table_keys (AList.delete key (tombstones e))) = {}"
    using assms by (auto simp: engine_ok_def sel_ok_def selection_ok_def set_delete_table)
qed

lemma engine_ok_hold:
  assumes "engine_ok N e" "\<not> contains_key (selected e) key"
  shows "engine_ok N (hold_withdrawal key now_ms e)"
  unfolding hold_withdrawal_def
  using assms unfolding contains_key_iff
  by (intro engine_ok_tombstones)
    (auto simp: engine_ok_def pre_ok_def tables_sorted_def btree.shape_ins sel_ok_def selection_ok_def
      btree.keys_ins simp del: set_map)

definition sound :: "ipnet \<Rightarrow> 'm engine \<Rightarrow> action list \<times> 'm engine \<Rightarrow> bool" where
  "sound N e r \<longleftrightarrow> engine_ok N (snd r) \<and> config (snd r) = config e \<and> list_all (allowed (config e)) (fst r)"

lemma completes_sound: "completes N e r \<Longrightarrow> sound N e r"
  by (simp add: completes_def sound_def engine_ok_def step_ok_def)

lemma sound_quiet: "sound N e (actions, e1) \<Longrightarrow> quiet e1 (actions', e2) \<Longrightarrow> sound N e (actions @ actions', e2)"
  using quiet_completes [of N e1 actions' e2]
  by (auto simp: sound_def completes_def step_ok_def engine_ok_def)

lemma snapshot_completes:
  assumes "sound N e (actions, e1)" "route_snapshot e1 = (a, e2)"
  shows "completes N e (actions @ [a], e2)"
proof -
  have e2: "e2 = e1\<lparr>generation := generation e1 + 1\<rparr>"
    and a: "a = RoutesChanged (generation e2) (selected_routes e2) (unreachable_routes e2)"
    using assms(2) by (auto simp: route_snapshot_def Let_def)
  have "engine_ok N e2 = engine_ok N e1" "config e2 = config e1"
    by (simp_all add: e2 engine_ok_def pre_ok_def tables_sorted_def hyst_ok_def out_ok_def sel_ok_def
        selection_ok_def backed_def)
  with assms(1) show ?thesis
    by (simp add: sound_def completes_def step_ok_def engine_ok_def a rib_def)
qed

lemma bump_quiet:
  "quiet e ([SequenceNumberChanged (sequence_number (bump_sequence_number e))], bump_sequence_number e)"
  by (auto intro!: quiet_action bump_out_ok)

lemma repeat_quiet: "quiet e ([], repeat_advertisement key now_ms e)"
  using quiet_keep [OF quiet_nil repeat_advertisement_kept repeat_advertisement_out_ok] by blast

lemma originate_completes:
  assumes "engine_ok N e" "metric \<noteq> INFINITY"
  shows "completes N e (originate E key metric now_ms e)"
proof (cases "case map_of (originated e) key of None \<Rightarrow> False | Some origin \<Rightarrow> o_metric origin = metric")
  case True
  then show ?thesis using assms by (simp add: originate_def)
next
  case False
  obtain acts1 e1 where 1: "(if contains_key (tombstones e) key
      then let (snapshot, e') = route_snapshot (e\<lparr>tombstones := AList.delete key (tombstones e)\<rparr>)
           in ([snapshot], e') else ([], e)) = (acts1, e1)" by fastforce
  define e2 where "e2 = repeat_advertisement key now_ms e1"
  obtain acts2 e3 where 2: "(if case map_of (originated e2) key of None \<Rightarrow> False | Some origin \<Rightarrow> metric > o_metric origin
      then let e' = bump_sequence_number e2 in ([SequenceNumberChanged (sequence_number e')], e')
      else ([], e2)) = (acts2, e3)" by fastforce
  define e4 where "e4 = e3\<lparr>originated := bt_insert key \<lparr>o_metric = metric, o_seqno = sequence_number e3\<rparr> (originated e3)\<rparr>"
  obtain acts3 e5 where 3: "reselect E now_ms e4 = (acts3, e5)" by fastforce
  obtain acts4 e6 where 4: "send_updates now_ms (Some key) None None e5 = (acts4, e6)" by fastforce
  have res: "originate E key metric now_ms e = (acts1 @ acts2 @ acts3 @ acts4, e6)"
    unfolding originate_def using False 1 2 3 4 by (simp add: e2_def [symmetric] e4_def [symmetric])
  have "sound N e ([], e\<lparr>tombstones := AList.delete key (tombstones e)\<rparr>)"
    using engine_ok_forget_tombstone [OF assms(1)] by (simp add: sound_def)
  from snapshot_completes [OF this] have c1: "completes N e (acts1, e1)"
    using 1 assms(1) by (auto split: if_splits prod.splits)
  from completes_quiet [OF c1 repeat_quiet] have c2: "completes N e (acts1, e2)" by (simp add: e2_def)
  have "quiet e2 (acts2, e3)" using 2 bump_quiet [of e2] by (auto simp: Let_def split: if_splits)
  from completes_quiet [OF c2 this] have c3: "completes N e (acts1 @ acts2, e3)" .
  have s4: "step_ok N e3 ([], e4)" unfolding e4_def
    by (rule originated_step_ok) (rule out_ok_insert_origin [OF _ assms(2)])
  moreover have "pre_ok N e4" using s4 c3 by (simp add: step_ok_def completes_def)
  ultimately have "completes N e3 ([] @ acts3, e5)" using 3 by (rule completes_reselect)
  from completes_quiet [OF completes_trans [OF c3 this] send_updates_quiet' [OF 4]] show ?thesis by (simp add: res)
qed

lemma withdraw_completes:
  assumes "engine_ok N e"
  shows "completes N e (withdraw E key now_ms e)"
proof -
  let ?existed = "contains_key (originated e) key"
  obtain acts1 e1 where 1: "reselect E now_ms (e\<lparr>originated := AList.delete key (originated e)\<rparr>) = (acts1, e1)" by fastforce
  obtain acts2 e2 where 2: "(if ?existed \<and> \<not> contains_key (selected e1) key
      then let (snapshot, e') = route_snapshot (hold_withdrawal key now_ms e1) in ([snapshot], e')
      else ([], e1)) = (acts2, e2)" by fastforce
  obtain acts3 e3 where 3: "send_updates now_ms (Some key) None (Some (urgent now_ms))
      (repeat_advertisement key now_ms e2) = (acts3, e3)" by fastforce
  have s: "step_ok N e ([], e\<lparr>originated := AList.delete key (originated e)\<rparr>)"
    by (rule originated_step_ok) (rule out_ok_delete_origin)
  then have "pre_ok N (e\<lparr>originated := AList.delete key (originated e)\<rparr>)"
    using assms by (simp add: step_ok_def engine_ok_def)
  from completes_reselect [OF s this 1] have c1: "completes N e (acts1, e1)" by simp
  have "completes N e1 (acts2, e2)"
  proof (cases "?existed \<and> \<not> contains_key (selected e1) key")
    case True
    have "sound N e1 ([], hold_withdrawal key now_ms e1)"
      using engine_ok_hold [OF completes_engine_ok [OF c1]] True by (simp add: sound_def hold_withdrawal_def)
    from snapshot_completes [OF this] show ?thesis using 2 True by (auto split: prod.splits)
  next
    case False
    then show ?thesis using 2 completes_engine_ok [OF c1] by auto
  qed
  from completes_trans [OF c1 this] have c2: "completes N e (acts1 @ acts2, e2)" .
  from completes_quiet [OF completes_quiet [OF c2 repeat_quiet] send_updates_quiet' [OF 3]]
  have c3: "completes N e ((acts1 @ acts2) @ acts3, e3)" by simp
  have "withdraw E key now_ms e = (if ?existed then (acts1 @ acts2 @ acts3, e3) else (acts1 @ acts2, e2))"
    unfolding withdraw_def using 1 2 3 by (simp add: Let_def split: if_splits)
  then show ?thesis using c2 c3 by simp
qed

lemma withdraw_removed_sound:
  assumes "sound N e (actions, e1)"
  shows "sound N e (withdraw_removed now_ms key (actions, e1))"
proof -
  let ?e = "if contains_key (selected e1) key then e1 else hold_withdrawal key now_ms e1"
  obtain updates e2 where 2: "send_updates now_ms (Some key) None (Some (urgent now_ms))
      (repeat_advertisement key now_ms ?e) = (updates, e2)" by fastforce
  have "sound N e (actions, ?e)"
    using assms engine_ok_hold [of N e1 key now_ms] by (auto simp: sound_def hold_withdrawal_def)
  from sound_quiet [OF sound_quiet [OF this repeat_quiet] send_updates_quiet' [OF 2]]
  show ?thesis using 2 by (simp add: withdraw_removed_def Let_def)
qed

lemma announce_origin_sound:
  "sound N e (actions, e1) \<Longrightarrow> sound N e (actions, announce_origin now_ms key e1)"
  using engine_ok_forget_tombstone [of N e1 key]
    sound_quiet [of N e actions "e1\<lparr>tombstones := AList.delete key (tombstones e1)\<rparr>" "[]", OF _ repeat_quiet]
  by (simp add: announce_origin_def sound_def)

lemma replace_origins_completes:
  assumes "engine_ok N e" "sorted_wrt (<) (table_keys origins)" "\<And>key metric. (key, metric) \<in> set origins \<Longrightarrow> metric \<noteq> INFINITY"
  shows "completes N e (replace_origins E origins now_ms e)"
proof -
  define unchanged where "unchanged = (length (originated e) = length origins
     \<and> list_all (\<lambda>(key, metric). case map_of (originated e) key of
         None \<Rightarrow> False | Some origin \<Rightarrow> o_metric origin = metric) origins)"
  define removed where "removed = filter (\<lambda>key. \<not> contains_key origins key) (table_keys (originated e))"
  obtain acts1 e1 where 1: "(if list_ex (\<lambda>(key, origin). case map_of origins key of
        None \<Rightarrow> False | Some metric \<Rightarrow> metric > o_metric origin) (originated e)
      then let e' = bump_sequence_number e in ([SequenceNumberChanged (sequence_number e')], e')
      else ([], e)) = (acts1, e1)" by fastforce
  define e2 where "e2 = e1\<lparr>originated :=
    map_values (\<lambda>_ metric. \<lparr>o_metric = metric, o_seqno = sequence_number e1\<rparr>) origins\<rparr>"
  obtain acts2 e3 where 2: "reselect E now_ms e2 = (acts2, e3)" by fastforce
  obtain acts3 e4 where 3: "fold (withdraw_removed now_ms) removed (acts1 @ acts2, e3) = (acts3, e4)" by fastforce
  define e5 where "e5 = fold (announce_origin now_ms) (table_keys (originated e4)) e4"
  obtain a e6 where 4: "route_snapshot e5 = (a, e6)" by fastforce
  obtain updates e7 where 5: "send_updates now_ms None None None e6 = (updates, e7)" by fastforce
  have res: "replace_origins E origins now_ms e = (if unchanged then ([], e) else (acts3 @ [a] @ updates, e7))"
    unfolding replace_origins_def Let_def unchanged_def [symmetric] removed_def [symmetric]
      1 [unfolded Let_def] prod.case e2_def [symmetric] 2 3 e5_def [symmetric] 4 5 by simp
  have "quiet e (acts1, e1)" using 1 bump_quiet [of e] by (auto simp: Let_def split: if_splits)
  from quiet_completes [OF assms(1) this] have c1: "completes N e (acts1, e1)" .
  have s2: "step_ok N e1 ([], e2)" unfolding e2_def
    by (rule originated_step_ok) (rule out_ok_replace_origins [OF _ assms(2,3)])
  moreover have "pre_ok N e2" using s2 c1 by (simp add: step_ok_def completes_def)
  ultimately have "completes N e1 ([] @ acts2, e3)" using 2 by (rule completes_reselect)
  from completes_sound [OF completes_trans [OF c1 this]] have "sound N e (acts1 @ acts2, e3)" by simp
  then have "sound N e (fold (withdraw_removed now_ms) removed (acts1 @ acts2, e3))"
    by (rule fold_keeps) (metis withdraw_removed_sound surj_pair)
  then have "sound N e (acts3, e4)" unfolding 3 .
  then have "sound N e (acts3, e5)" unfolding e5_def by (rule fold_keeps) (rule announce_origin_sound)
  from completes_quiet [OF snapshot_completes [OF this 4] send_updates_quiet' [OF 5]]
  show ?thesis using assms(1) by (simp add: res)
qed

section \<open>The dispatcher\<close>

text \<open>The origins of an event are a \<open>BTreeMap\<close>: a table with increasing keys.\<close>

definition event_shape :: "'m event \<Rightarrow> bool" where
  "event_shape event = (case event of ReplaceOrigins origins _ \<Rightarrow> sorted_wrt (<) (table_keys origins) | _ \<Rightarrow> True)"

lemma validate_origin_finite: "validate_origin N key metric = Inr u \<Longrightarrow> metric \<noteq> INFINITY"
  by (auto simp: validate_origin_def and_then_Inr)

lemma validate_origins_finite:
  "validate_origins N origins = Inr u \<Longrightarrow> (key, metric) \<in> set origins \<Longrightarrow> metric \<noteq> INFINITY"
  by (induction N origins rule: validate_origins.induct) (auto simp: and_then_Inr dest: validate_origin_finite)

text \<open>The route policy in force after an event.\<close>

definition event_policy :: "'m event \<Rightarrow> route_policy \<Rightarrow> route_policy" where
  "event_policy event policy = (case event of ReplaceRoutePolicy p _ \<Rightarrow> p | _ \<Rightarrow> policy)"

lemma handle_validated_ok:
  assumes "engine_ok N e" "validate_event (env_ipnet E) event = Inr u" "event_shape event" "env_ipnet E = N"
  shows "event_ok N (event_policy event (cfg_route_policy (config e))) e (handle_validated E event e)"
proof -
  have c: "completes N e r \<Longrightarrow> event_ok N (cfg_route_policy (config e)) e r" for r by (rule completes_event_ok [OF _ assms(1)])
  show ?thesis
  proof (cases event)
    case (ReplaceRoutePolicy policy now_ms)
    then show ?thesis using replace_route_policy_ok [OF assms(1)] by (simp add: handle_validated_def event_policy_def)
  next
    case (Originate key metric now_ms)
    then show ?thesis
      using assms(1-3) validate_origin_finite [of "env_ipnet E" key metric u]
      by (auto simp: handle_validated_def event_policy_def validate_event_def intro!: c originate_completes)
  next
    case (ReplaceOrigins origins now_ms)
    then show ?thesis
      using assms(1-3) validate_origins_finite [of "env_ipnet E" origins u]
      by (auto simp: handle_validated_def event_policy_def validate_event_def event_shape_def intro!: c replace_origins_completes)
  qed (use assms(1,4) in \<open>auto simp: handle_validated_def event_policy_def intro!: completes_event_ok interface_up_completes
      interface_policy_changed_completes interface_addresses_changed_completes interface_down_completes
      receive_completes withdraw_completes tick_completes\<close>)
qed

lemma engine_ok_advertised [simp]: "engine_ok N (e\<lparr>advertised_until := au\<rparr>) = engine_ok N e"
  by (simp add: engine_ok_def pre_ok_def tables_sorted_def hyst_ok_def out_ok_def sel_ok_def
      selection_ok_def backed_def)

lemma rib_advertised [simp]: "rib (e\<lparr>advertised_until := au\<rparr>) = rib e"
  by (simp add: rib_def selected_routes_def unreachable_routes_def)

lemma event_ok_advertised: "event_ok N policy e (actions, e'\<lparr>advertised_until := au\<rparr>) = event_ok N policy e (actions, e')"
  by (simp add: event_ok_def)

text \<open>The actions of an event: none if it was refused.\<close>

definition actions_of :: "config_error + action list \<Rightarrow> action list" where
  "actions_of r = (case r of Inl _ \<Rightarrow> [] | Inr actions \<Rightarrow> actions)"

lemma actions_of_simps [simp]: "actions_of (Inl err) = []" "actions_of (Inr actions) = actions"
  by (simp_all add: actions_of_def)

lemma try_handle_ok:
  assumes "engine_ok N e" "event_shape event" "env_ipnet E = N" "try_handle E event e = (r, e')"
  shows "event_ok N (event_policy event (cfg_route_policy (config e))) e (actions_of r, e')"
proof (cases "validate_event (env_ipnet E) event")
  case (Inl err)
  then show ?thesis using assms
    by (auto simp: try_handle_def event_ok_def event_policy_def validate_event_def split: event.splits)
next
  case (Inr u)
  obtain actions e1 where h: "handle_validated E event e = (actions, e1)" by fastforce
  then have "r = Inr actions" "e' = e1\<lparr>advertised_until := fold note_action actions (advertised_until e1)\<rparr>"
    using assms(4) Inr by (auto simp: try_handle_def)
  then show ?thesis using handle_validated_ok [OF assms(1) Inr assms(2,3)] h by (simp add: event_ok_advertised)
qed

section \<open>Reachable engines\<close>

text \<open>
  The engines that some sequence of events leads to from a new engine with configuration \<open>cfg\<close>,
  together with all actions so far. Each event may find other iteration orders and metric methods;
  the \<open>ipnet\<close> package is the same throughout.
\<close>

inductive reachable :: "ipnet \<Rightarrow> 'm engine_config \<Rightarrow> action list \<Rightarrow> 'm engine \<Rightarrow> bool" for N cfg where
  reachable_new: "try_new cfg = Inr e \<Longrightarrow> reachable N cfg [] e"
| reachable_event: "reachable N cfg actions e \<Longrightarrow> env_ipnet E = N \<Longrightarrow> event_shape event \<Longrightarrow>
     try_handle E event e = (r, e') \<Longrightarrow> reachable N cfg (actions @ actions_of r) e'"

lemma try_new_fields:
  assumes "try_new cfg = Inr e"
  shows "config e = cfg" "engine_ok N e" "rib e = ([], [])"
proof -
  have e: "e = \<lparr>resources = resource_status_default\<lparr>rs_limits := cfg_limits cfg\<rparr>,
                 config = cfg, interfaces = [], neighbours = [], candidates = [], feasible = [],
                 originated = [], selected = [], pending_seqno = [], recent_seqno = [],
                 tombstones = [], advertised_until = [], pending_advertisements = [],
                 pending_switches = [], settling_since = [], settled_routes = [],
                 generation = 0, sequence_number = cfg_sequence_number cfg\<rparr>"
    using assms by (auto simp: try_new_def and_then_Inr)
  show "config e = cfg" by (simp add: e)
  show "rib e = ([], [])" by (simp add: e rib_def selected_routes_def unreachable_routes_def)
  have "learn_ok N e" by (rule learn_okI) (simp_all add: e interface_config_def map_values_def)
  then show "engine_ok N e"
    by (simp add: e engine_ok_def pre_ok_def tables_sorted_def hyst_ok_def out_ok_def sel_ok_def selection_ok_def
        backed_def)
qed

lemma reachable_ok:
  assumes "reachable N cfg actions e"
  shows "engine_ok N e \<and> host_view actions ([], []) = rib e
    \<and> (\<exists>policy. config e = cfg\<lparr>cfg_route_policy := policy\<rparr>)"
  using assms
proof (induction rule: reachable.induct)
  case (reachable_new e)
  then show ?case using try_new_fields [of cfg e]
    by (auto intro!: exI [of _ "cfg_route_policy cfg"])
next
  case (reachable_event actions e E event r e')
  then show ?case using try_handle_ok [of N e event E r e'] by (fastforce simp: event_ok_def)
qed

lemma candidates_of_length:
  assumes "distinct (table_keys cs)"
  shows "candidates_of cs nk = length (filter (\<lambda>((_, m), _). m = nk) cs)"
proof -
  define fs where "fs = filter (\<lambda>((_, m), _). m = nk) cs"
  have "{k \<in> set (table_keys cs). snd k = nk} = set (table_keys fs)"
    by (auto simp: fs_def image_iff case_prod_unfold)
  moreover have "distinct (table_keys fs)" unfolding fs_def using assms by (rule distinct_map_filter)
  ultimately have "candidates_of cs nk = length (table_keys fs)"
    unfolding candidates_of_def by (simp only: distinct_card)
  then show ?thesis by (simp add: fs_def)
qed

text \<open>A run of the engine in one environment: all actions so far, and the engine.\<close>

definition run_event :: "'m env \<Rightarrow> 'm event \<Rightarrow> action list \<times> 'm engine \<Rightarrow> action list \<times> 'm engine" where
  "run_event E event = (\<lambda>(actions, e).
     case try_handle E event e of (r, e') \<Rightarrow> (actions @ actions_of r, e'))"

definition run :: "'m env \<Rightarrow> 'm event list \<Rightarrow> action list \<times> 'm engine \<Rightarrow> action list \<times> 'm engine" where
  "run E events s = fold (run_event E) events s"

lemma run_reachable:
  assumes "reachable (env_ipnet E) cfg (fst s) (snd s)" "list_all event_shape events"
  shows "reachable (env_ipnet E) cfg (fst (run E events s)) (snd (run E events s))"
  using assms
proof (induction events arbitrary: s)
  case (Cons event events)
  obtain actions e where s: "s = (actions, e)" by fastforce
  obtain r e' where h: "try_handle E event e = (r, e')" by fastforce
  have "reachable (env_ipnet E) cfg (actions @ actions_of r) e'"
    using reachable_event [OF _ refl _ h, of cfg actions] Cons.prems s by simp
  then show ?case using Cons.IH [of "(actions @ actions_of r, e')"] Cons.prems s h by (simp add: run_def run_event_def)
qed (simp add: run_def)

lemma run_policy:
  assumes "reachable (env_ipnet E) cfg (fst s) (snd s)" "list_all event_shape events"
  shows "cfg_route_policy (config (snd (run E events s))) = fold event_policy events (cfg_route_policy (config (snd s)))"
  using assms
proof (induction events arbitrary: s)
  case (Cons event events)
  obtain actions e where s: "s = (actions, e)" by fastforce
  obtain r e' where h: "try_handle E event e = (r, e')" by fastforce
  have reach: "reachable (env_ipnet E) cfg (actions @ actions_of r) e'"
    using reachable_event [OF _ refl _ h, of cfg actions] Cons.prems s by simp
  have "engine_ok (env_ipnet E) e" using reachable_ok [of "env_ipnet E" cfg actions e] Cons.prems(1) s by simp
  from try_handle_ok [OF this _ refl h]
  have "cfg_route_policy (config e') = event_policy event (cfg_route_policy (config e))"
    using Cons.prems(2) by (simp add: event_ok_def)
  then show ?case using Cons.IH [of "(actions @ actions_of r, e')"] reach Cons.prems(2) s h
    by (simp add: run_def run_event_def)
qed (simp add: run_def)

end
