(* ===== verification/Babel_Sample.thy ===== *)
theory Babel_Sample
  imports Babel_Reachable
begin

text \<open>
  A concrete run of the engine: an IPv4 interface comes up, and a neighbour on it says Hello,
  reports that it hears us and announces a prefix. The run is evaluated once; the theorems about
  reachable engines are instantiated on its result.
\<close>

section \<open>Code equations for small numerals\<close>

text \<open>Evaluation inside the logic: numbers that fit the word need no reduction.\<close>

lemma take_bit_small [code]:
  "take_bit n (k :: int) =
     (if 0 \<le> k \<and> (k < 65536 \<and> 16 \<le> n \<or> k < 4294967296 \<and> 32 \<le> n) then k else k mod 2 ^ n)"
proof -
  have "k < 2 ^ n" if "k < 65536" "16 \<le> n"
    using that power_increasing [of 16 n "2 :: int"] by simp
  moreover have "k < 2 ^ n" if "k < 4294967296" "32 \<le> n"
    using that power_increasing [of 32 n "2 :: int"] by simp
  ultimately show ?thesis by (auto simp: take_bit_eq_mod)
qed

lemma sat_add_wraps [code]: "sat_add a b = (let s = a + b in if s < a then - 1 else s)"
  using no_olen_add_nat [of a b] by (cases "a \<le> a + b") (simp_all add: sat_add_def Let_def not_le leD)

section \<open>The run\<close>

text \<open>The wired metric does no floating-point arithmetic, so any operations will do.\<close>

definition demo_f64 :: "unit f64_ops" where
  "demo_f64 = \<lparr>f64_of_u16 = (\<lambda>_. ()), f64_of_u32 = (\<lambda>_. ()), f64_of_u64 = (\<lambda>_. ()), f64_add = (\<lambda>_ _. ()), f64_sub = (\<lambda>_ _. ()),
     f64_mul = (\<lambda>_ _. ()), f64_div = (\<lambda>_ _. ()), f64_neg = (\<lambda>_. ()),
     f64_powf = (\<lambda>_ _. ()), f64_le = (\<lambda>_ _. True), f64_lt = (\<lambda>_ _. False), f64_is_finite = (\<lambda>_. True),
     f64_round_u16 = (\<lambda>_. 0), f64_round_u32 = (\<lambda>_. 0)\<rparr>"

definition demo_env :: "unit neighbor_metric env" where
  "demo_env = \<lparr>env_metric = crate_metrics demo_f64, env_ipnet = ipnet_ref,
     order_neighbours = (\<lambda>_ _. 0), order_candidates = (\<lambda>_ _. 0), order_requests = (\<lambda>_ _. 0),
     order_keys = (\<lambda>_ _. 0)\<rparr>"

definition demo_config :: "unit neighbor_metric engine_config" where
  "demo_config = (recommended (RouterId 1))
     \<lparr>cfg_metric := wired_profile \<lparr>nominal_cost = 96, wired_received = 1, wired_window = 1\<rparr>\<rparr>"

definition demo_policy :: "unit neighbor_metric interface_policy" where
  "demo_policy = \<lparr>ip_control_transport = TransportIpv4, ip_ipv4_next_hop = NextHopAuto,
      ip_metric = cfg_metric demo_config, ip_hello_interval_cs = 400,
      ip_update_interval_cs = 1600, ip_split_horizon = True\<rparr>"

definition demo_key :: route_key where
  "demo_key = RouteKey (V4Net 0x0a000000 8) None"

definition demo_neighbour :: neighbor_key where
  "demo_neighbour = NeighborKey ''eth0'' (V4 0x0b000002)"

definition demo_update :: resolved_update where
 "demo_update = \<lparr>ru_key = Some demo_key, ru_router_id = Some (RouterId 7),
    ru_next_hop = Some (nk_address demo_neighbour), ru_interval_cs = 1600, ru_seqno = 5, ru_metric = 100,
    ru_v4_via_v6 = False, ru_sub_tlvs = []\<rparr>"

definition demo_events :: "unit neighbor_metric event list" where
  "demo_events =
     [InterfaceUpWithPolicy ''eth0'' [V4 0x0b000001] demo_policy 1000,
      PacketReceived ''eth0'' (nk_address demo_neighbour)
        \<lparr>tlvs = [Hello False 1 400 [], Ihu None 96 1200 [], Update demo_update]\<rparr> 1100]"

definition demo_start :: "unit neighbor_metric engine" where
  "demo_start = (case try_new demo_config of Inr e \<Rightarrow> e | Inl _ \<Rightarrow> undefined)"

definition demo_run :: "action list \<times> unit neighbor_metric engine" where
  "demo_run = run demo_env demo_events ([], demo_start)"

definition demo_engine :: "unit neighbor_metric engine" where
  "demo_engine = snd demo_run"

lemma demo_start: "try_new demo_config = Inr demo_start"
  by (simp add: demo_start_def try_new_def demo_config_def recommended_def validate_engine_config_def
      validate_route_selection_def validate_intervals_def route_selection_config_default_def)

lemma demo_reachable: "reachable ipnet_ref demo_config (fst demo_run) demo_engine"
  using run_reachable [of demo_env demo_config "([], demo_start)" demo_events] reachable_new [OF demo_start]
  by (simp add: demo_engine_def demo_run_def demo_env_def demo_events_def event_shape_def)

lemma demo_result:
  "(case demo_run of (actions, e) \<Rightarrow>
     (length actions, map sel_metric (selected_routes e), map fst (candidates e))) =
   (4, [196], [(demo_key, demo_neighbour)])"
  by code_simp

end
