(* ===== verification/Babel_Guarantees.thy ===== *)
theory Babel_Guarantees
  imports Babel_Sample
begin

text \<open>
  What the engine guarantees to its host and to the network, for every engine that any sequence
  of events leads to: admission limits and admission rules, the selection, the host's copy of
  the routing table, the export policy, and the refusal of invalid local input.
\<close>

section \<open>Reachable engines\<close>

text \<open>
  C2. The admission limits hold in every reachable engine: neither table of learned state exceeds
  its limit, no neighbour holds more candidates than it may, and the counter that the per-neighbour
  limit is checked against is exactly the number of candidates of that neighbour.
\<close>

theorem reachable_within_limits:
  assumes "reachable N cfg actions e"
  shows "length (neighbours e) \<le> max_neighbors (cfg_limits cfg)
    \<and> length (candidates e) \<le> max_candidates (cfg_limits cfg)
    \<and> list_all (\<lambda>(nk, n). nb_candidates n = length (filter (\<lambda>((_, m), _). m = nk) (candidates e))
        \<and> nb_candidates n \<le> max_candidates_per_neighbor (cfg_limits cfg)) (neighbours e)"
proof -
  from reachable_ok [OF assms] obtain policy where l: "learn_ok N e"
    and c: "config e = cfg\<lparr>cfg_route_policy := policy\<rparr>" by (auto simp: engine_ok_def pre_ok_def)
  have "candidates_of (candidates e) nk = length (filter (\<lambda>((_, m), _). m = nk) (candidates e))" for nk
    by (rule candidates_of_length) (rule learn_okD(3) [OF l])
  then show ?thesis using learn_okD(7-10) [OF l] c by (auto simp: list_all_iff)
qed

theorem reachable_within_limits_witness:
  "reachable ipnet_ref demo_config (fst demo_run) demo_engine
   \<and> length (neighbours demo_engine) \<le> 256"
  using reachable_within_limits [OF demo_reachable] demo_reachable
  by (simp add: demo_config_def recommended_def resource_limits_default_def)

text \<open>
  C3. What admission promises of every candidate in a reachable engine, whatever was received and
  however the link costs and the policy changed since: it comes from a known neighbour on an
  attached interface in the address family of that interface's control transport, it was
  originated by another router, its destination is not a forbidden one, an IPv4 route through an
  IPv6 next hop is there only if the host can forward it, a route that is not retracted is
  accepted by the import policy now in force, and its metric is infinite or greater than what its
  neighbour advertised.
\<close>

theorem reachable_candidates_admitted:
  assumes "reachable N cfg actions e" and "((key, nk), c) \<in> set (candidates e)"
  shows "contains_key (neighbours e) nk \<and> on_interface (interface_config e) nk
    \<and> c_router_id c \<noteq> cfg_router_id cfg \<and> \<not> forbidden_destination N (destination key)
    \<and> (is_ipv4 (net_addr (destination key)) \<and> is_ipv6 (c_next_hop c) \<longrightarrow> cfg_ipv4_via_ipv6 cfg)
    \<and> (c_advertised_metric c \<noteq> INFINITY \<longrightarrow> accept (cfg_route_policy (config e)) (candidate_context nk c))
    \<and> (c_metric c = INFINITY \<or> c_advertised_metric c < c_metric c)"
proof -
  from reachable_ok [OF assms(1)] obtain policy where l: "learn_ok N e"
    and c: "config e = cfg\<lparr>cfg_route_policy := policy\<rparr>" by (auto simp: engine_ok_def pre_ok_def)
  from learn_okD(5) [OF l assms(2)] obtain n where n: "map_of (neighbours e) nk = Some n" by auto
  have "on_interface (interface_config e) nk" by (rule learn_okD(6) [OF l map_of_SomeD [OF n]])
  with learn_okD(4) [OF l assms(2)] n c show ?thesis by (simp add: candidate_ok_def)
qed

theorem reachable_candidates_admitted_witness:
  "\<exists>c. ((demo_key, demo_neighbour), c) \<in> set (candidates demo_engine) \<and> c_router_id c \<noteq> RouterId 1
     \<and> (c_metric c = INFINITY \<or> c_advertised_metric c < c_metric c)"
proof -
  have "map fst (candidates demo_engine) = [(demo_key, demo_neighbour)]"
    using demo_result by (simp add: demo_engine_def case_prod_unfold)
  then obtain c where c: "((demo_key, demo_neighbour), c) \<in> set (candidates demo_engine)"
    by (cases "candidates demo_engine") auto
  from reachable_candidates_admitted [OF demo_reachable c] c show ?thesis
    by (auto simp: demo_config_def recommended_def)
qed

text \<open>
  C1. The selection of a reachable engine is backed by what it learned: the table is ordered by
  key, every selected route is the image of a current candidate for its key with a finite metric,
  and a key that is selected is not reported as unreachable at the same time.
\<close>

theorem reachable_selection_backed:
  assumes "reachable N cfg actions e"
  shows "sorted_wrt (<) (table_keys (selected e))
    \<and> set (table_keys (selected e)) \<inter> set (unreachable_routes e) = {}
    \<and> list_all (\<lambda>(key, r). list_ex (\<lambda>((k, _), c). k = key \<and> r = selected_from_candidate c
        \<and> c_metric c < INFINITY) (candidates e)) (selected e)"
proof -
  from reachable_ok [OF assms] have ok: "tables_sorted e" "selection_ok e" "backed e"
    by (auto simp: engine_ok_def pre_ok_def sel_ok_def)
  have "list_ex (\<lambda>((k, _), c). k = key \<and> r = selected_from_candidate c \<and> c_metric c < INFINITY) (candidates e)"
    if "(key, r) \<in> set (selected e)" for key r
  proof -
    from ok(3) that obtain nk c where c: "((key, nk), c) \<in> set (candidates e)"
      "r = selected_from_candidate c" "c_metric c \<noteq> INFINITY" by (auto simp: backed_def)
    from c(3) have "c_metric c < INFINITY" by (simp add: word_less_nat_alt not_infinity_unat)
    with c(1,2) show ?thesis unfolding list_ex_iff by force
  qed
  with ok(1,2) show ?thesis
    by (auto simp: tables_sorted_def selection_ok_def unreachable_routes_def list_all_iff)
qed

theorem reachable_selection_backed_witness:
  "selected_routes demo_engine \<noteq> []
   \<and> set (table_keys (selected demo_engine)) \<inter> set (unreachable_routes demo_engine) = {}"
proof -
  have "map sel_metric (selected_routes demo_engine) = [196]"
    using demo_result by (simp add: demo_engine_def case_prod_unfold)
  then show ?thesis using reachable_selection_backed [OF demo_reachable] by auto
qed

text \<open>
  C4. A host that starts with an empty routing table and executes the actions of all events in
  order, replacing its table at every \<open>RoutesChanged\<close>, always holds exactly the selected routes
  and the unreachable keys of the engine: no change of either is ever left unannounced.
\<close>

theorem reachable_host_in_step:
  assumes "reachable N cfg actions e"
  shows "host_view actions ([], []) = (selected_routes e, unreachable_routes e)"
  using reachable_ok [OF assms] by (simp add: rib_def)

theorem reachable_host_in_step_witness:
  "host_view (fst demo_run) ([], []) = (selected_routes demo_engine, unreachable_routes demo_engine)
   \<and> selected_routes demo_engine \<noteq> []"
proof -
  have "map sel_metric (selected_routes demo_engine) = [196]"
    using demo_result by (simp add: demo_engine_def case_prod_unfold)
  then show ?thesis using reachable_host_in_step [OF demo_reachable] by auto
qed



text \<open>
  C21. The bookkeeping of a reachable engine: every local origin carries the current local sequence
  number and a finite metric, every recorded feasibility distance is finite, every pending
  sequence-number request has at least one hop and at most three retries left, and an
  advertisement is repeated at most twice more.
\<close>

theorem reachable_bookkeeping:
  assumes "reachable N cfg actions e"
  shows "list_all (\<lambda>(_, origin). o_seqno origin = sequence_number e \<and> o_metric origin \<noteq> INFINITY) (originated e)
    \<and> list_all (\<lambda>(_, entry). d_metric (se_distance entry) \<noteq> INFINITY) (feasible e)
    \<and> list_all (\<lambda>(_, p). 1 \<le> ps_hop_count p \<and> ps_retries_left p \<le> 3) (pending_seqno e)
    \<and> list_all (\<lambda>(_, _, left). left \<in> {1, 2}) (pending_advertisements e)"
proof -
  have left: "left \<in> {1, 2}" if "1 \<le> left" "left \<le> 2" for left :: u8
    using that by (auto simp: word_le_nat_alt word_unat_eq_iff)
  from reachable_ok [OF assms] have "out_ok e" by (simp add: engine_ok_def pre_ok_def)
  with left show ?thesis unfolding out_ok_def list_all_iff by fast
qed

theorem reachable_bookkeeping_witness:
  "reachable ipnet_ref demo_config (fst demo_run) demo_engine
   \<and> list_all (\<lambda>(_, p). 1 \<le> ps_hop_count p \<and> ps_retries_left p \<le> 3) (pending_seqno demo_engine)"
  using reachable_bookkeeping [OF demo_reachable] demo_reachable by blast

section \<open>Refused events\<close>


end
