(* ===== verification/Babel_Decode.thy ===== *)
theory Babel_Decode
  imports Babel_Wire
begin

text \<open>
  \<open>crates/babel-protocol/src/wire/decode.rs\<close>: packet framing, TLV validation, and the
  packet-local context (Router-ID, next hops, default prefixes) that resolves Updates.

  The two loops over an offset become recursions over the octets that remain
  (\<open>decode_body\<close>, \<open>decode_sub_tlvs_loop\<close>); each turn consumes at least one octet, which is the
  termination argument. \<open>&mut ParserState\<close> is passed in and returned.
\<close>

section \<open>Sub-TLVs\<close>

datatype sub_context = SubHello | SubIhu | SubPrefix address_encoding

record decoded_sub_tlvs =
  sub_values :: "sub_tlv list"
  sub_source_prefix :: "ip_net option"
  sub_mandatory_unknown :: bool

definition decoded_sub_tlvs_default :: decoded_sub_tlvs where
  "decoded_sub_tlvs_default =
     \<lparr>sub_values = [], sub_source_prefix = None, sub_mandatory_unknown = False\<rparr>"

definition push_sub :: "sub_tlv \<Rightarrow> decoded_sub_tlvs \<Rightarrow> decoded_sub_tlvs" where
  "push_sub s result = result\<lparr>sub_values := sub_values result @ [s]\<rparr>"

definition mark_mandatory :: "decoded_sub_tlvs \<Rightarrow> decoded_sub_tlvs" where
  "mark_mandatory result = result\<lparr>sub_mandatory_unknown := True\<rparr>"

text \<open>The \<open>SUBTLV_SOURCE_PREFIX\<close> arm.\<close>

definition decode_source_prefix ::
    "ipnet \<Rightarrow> sub_context \<Rightarrow> ip_net option \<Rightarrow> octets_list \<Rightarrow> decoded_sub_tlvs \<Rightarrow> decoded_sub_tlvs" where
  "decode_source_prefix N context dst body result =
     (case context of
        SubPrefix ae \<Rightarrow>
          if sub_source_prefix result \<noteq> None \<or> ae = Wildcard \<or> body = [] \<or> body ! 0 = 0
          then mark_mandatory result
          else let plen = body ! 0
               in case prefix_encoded_len ae plen of
                    None \<Rightarrow> mark_mandatory result
                  | Some sz \<Rightarrow>
                      if length body < 1 + sz then mark_mandatory result
                      else case decode_prefix N ae plen 0 (slice 1 (1 + sz) body) None of
                             None \<Rightarrow> mark_mandatory result
                           | Some prefix \<Rightarrow>
                               if (case dst of None \<Rightarrow> False
                                   | Some d \<Rightarrow> is_ipv4 (net_addr d) \<noteq> is_ipv4 (net_addr prefix))
                               then mark_mandatory result
                               else result\<lparr>sub_source_prefix := Some prefix\<rparr>
      | _ \<Rightarrow> mark_mandatory result)"

text \<open>The \<open>match type_\<close> of one sub-TLV with a body.\<close>

definition decode_sub_tlv ::
    "ipnet \<Rightarrow> sub_context \<Rightarrow> ip_net option \<Rightarrow> u8 \<Rightarrow> octets_list \<Rightarrow> decoded_sub_tlvs \<Rightarrow> decoded_sub_tlvs" where
  "decode_sub_tlv N context dst type body result =
     (if type = 1 then push_sub (SubPadN body) result
      else if type = SUBTLV_TIMESTAMP then
        (if context = SubHello \<and> length body \<ge> 4 then push_sub (TimestampHello (be32 body)) result
         else if context = SubIhu \<and> length body \<ge> 8
         then push_sub (TimestampIhu (be32 body) (be32 (drop 4 body))) result
         else push_sub (SubUnknown type body) result)
      else if type = SUBTLV_SOURCE_PREFIX then decode_source_prefix N context dst body result
      else push_sub (SubUnknown type body)
             (if type AND 0x80 \<noteq> 0 then mark_mandatory result else result))"

function decode_sub_tlvs_loop ::
    "ipnet \<Rightarrow> sub_context \<Rightarrow> ip_net option \<Rightarrow> octets_list \<Rightarrow> decoded_sub_tlvs \<Rightarrow> decoded_sub_tlvs wire_result" where
  "decode_sub_tlvs_loop N context dst [] result = Inr result"
| "decode_sub_tlvs_loop N context dst (type # rest) result =
     (if type = 0 then decode_sub_tlvs_loop N context dst rest (push_sub SubPad1 result)
      else case rest of
             [] \<Rightarrow> Inl (InvalidTlv type)
           | len # rest' \<Rightarrow>
               if length rest' < unat len then Inl (InvalidTlv type)
               else decode_sub_tlvs_loop N context dst (drop (unat len) rest')
                      (decode_sub_tlv N context dst type (take (unat len) rest') result))"
  by pat_completeness auto
termination
  by (relation "measure (\<lambda>(N, context, dst, data, result). length data)") auto

definition decode_sub_tlvs ::
    "ipnet \<Rightarrow> octets_list \<Rightarrow> sub_context \<Rightarrow> ip_net option \<Rightarrow> decoded_sub_tlvs wire_result" where
  "decode_sub_tlvs N data context dst =
     decode_sub_tlvs_loop N context dst data decoded_sub_tlvs_default"

definition has_unknown_mandatory :: "ipnet \<Rightarrow> octets_list \<Rightarrow> bool wire_result" where
  "has_unknown_mandatory N data =
     and_then (decode_sub_tlvs N data SubHello None) (\<lambda>sub. Inr (sub_mandatory_unknown sub))"

section \<open>Packet-local context\<close>

record parser_state =
  ps_router_id :: "router_id option"
  ps_prefixes :: "(address_encoding, octets_list) table"
  ps_next_hop_v4 :: "ip_addr option"
  ps_next_hop_v6 :: "ip_addr option"

definition parser_state_new :: "ip_addr \<Rightarrow> parser_state" where
  "parser_state_new src =
     (case src of
        V4 _ \<Rightarrow> \<lparr>ps_router_id = None, ps_prefixes = [], ps_next_hop_v4 = Some src, ps_next_hop_v6 = None\<rparr>
      | V6 _ \<Rightarrow> \<lparr>ps_router_id = None, ps_prefixes = [], ps_next_hop_v4 = None, ps_next_hop_v6 = Some src\<rparr>)"

type_synonym decoded = "(tlv option \<times> parser_state) wire_result"

section \<open>Updates and requests\<close>

text \<open>\<open>Vec::resize(n, 0)\<close>.\<close>

definition resize :: "nat \<Rightarrow> octets_list \<Rightarrow> octets_list" where
  "resize n bytes = take n bytes @ replicate (n - length bytes) 0"

text \<open>The flags of an Update change the context before its sub-TLVs are read.\<close>

definition apply_update_flags :: "address_encoding \<Rightarrow> u8 \<Rightarrow> ip_net \<Rightarrow> parser_state \<Rightarrow> parser_state wire_result" where
  "apply_update_flags ae flags prefix state =
     and_then
       (if flags AND 0x80 \<noteq> 0
        then and_then (ok_or (InvalidTlv TLV_UPDATE) (address_len ae)) (\<lambda>n.
               Inr (state\<lparr>ps_prefixes :=
                 AList.update ae (resize n (prefix_wire_bytes prefix ae)) (ps_prefixes state)\<rparr>))
        else Inr state)
       (\<lambda>state. Inr (if flags AND 0x40 \<noteq> 0
                     then state\<lparr>ps_router_id := router_id_new (router_id_from_prefix prefix)\<rparr>
                     else state))"

text \<open>The wildcard retraction branch of \<open>decode_update\<close>.\<close>

definition decode_wildcard_update ::
    "ipnet \<Rightarrow> octets_list \<Rightarrow> parser_state \<Rightarrow> decoded" where
  "decode_wildcard_update N value state =
     (if value ! 2 \<noteq> 0 \<or> value ! 3 \<noteq> 0 then Inr (None, state)
      else and_then (decode_sub_tlvs N (drop 10 value) (SubPrefix Wildcard) None) (\<lambda>sub.
        if sub_mandatory_unknown sub \<or> sub_source_prefix sub \<noteq> None then Inr (None, state)
        else Inr (Some (Update
               \<lparr>ru_key = None, ru_router_id = None, ru_next_hop = None,
                ru_interval_cs = be16 (slice 4 6 value), ru_seqno = be16 (slice 6 8 value),
                ru_metric = be16 (slice 8 10 value), ru_v4_via_v6 = False,
                ru_sub_tlvs = sub_values sub\<rparr>), state)))"

text \<open>The part of \<open>decode_update\<close> after the prefix and the flags: sub-TLVs, route key,
  Router-ID and next hop from the context.\<close>

definition resolve_update ::
    "ipnet \<Rightarrow> octets_list \<Rightarrow> address_encoding \<Rightarrow> ip_net \<Rightarrow> nat \<Rightarrow> parser_state \<Rightarrow> decoded" where
  "resolve_update N value ae prefix natural state =
     (let metric = be16 (slice 8 10 value)
      in and_then (decode_sub_tlvs N (drop natural value) (SubPrefix ae) (Some prefix)) (\<lambda>sub.
        if sub_mandatory_unknown sub then Inr (None, state)
        else and_then (ok_or (InvalidTlv TLV_UPDATE) (route_key_new N prefix (sub_source_prefix sub))) (\<lambda>key.
          if metric \<noteq> INFINITY \<and> ps_router_id state = None then Inr (None, state)
          else let next_hop =
                 (if metric = INFINITY then None
                  else if ae = Ipv4ViaIpv6 then ps_next_hop_v6 state
                  else if is_ipv4 (net_addr prefix) then ps_next_hop_v4 state
                  else ps_next_hop_v6 state)
               in if metric \<noteq> INFINITY \<and> next_hop = None then Inr (None, state)
                  else Inr (Some (Update
                    \<lparr>ru_key = Some key, ru_router_id = ps_router_id state, ru_next_hop = next_hop,
                     ru_interval_cs = be16 (slice 4 6 value), ru_seqno = be16 (slice 6 8 value),
                     ru_metric = metric, ru_v4_via_v6 = (ae = Ipv4ViaIpv6),
                     ru_sub_tlvs = sub_values sub\<rparr>), state))))"

definition decode_update :: "ipnet \<Rightarrow> octets_list \<Rightarrow> parser_state \<Rightarrow> decoded" where
  "decode_update N value state =
     (let invalid = Inl (InvalidTlv TLV_UPDATE)
      in if length value < 10 then invalid
      else case from_u8 (value ! 0) of
        None \<Rightarrow> Inr (None, state)
      | Some ae \<Rightarrow>
        (let flags = value ! 1;
             plen = value ! 2;
             omitted = unat (value ! 3);
             interval_cs = be16 (slice 4 6 value);
             metric = be16 (slice 8 10 value)
         in if interval_cs = 0 then invalid
         else if metric \<noteq> INFINITY \<and> ae = Wildcard then Inr (None, state)
         else if ae = Wildcard then decode_wildcard_update N value state
         else if ae = Ipv6LinkLocal \<and> omitted \<noteq> 0 then Inr (None, state)
         else and_then (ok_or (InvalidTlv TLV_UPDATE) (prefix_encoded_len ae plen)) (\<lambda>encoded_len.
           if omitted > encoded_len \<or> length value < 10 + encoded_len - omitted then invalid
           else let natural = 10 + encoded_len - omitted
                in case decode_prefix N ae plen omitted (slice 10 natural value)
                          (map_of (ps_prefixes state) ae) of
                     None \<Rightarrow> Inr (None, state)
                   | Some prefix \<Rightarrow>
                       and_then (apply_update_flags ae flags prefix state)
                         (resolve_update N value ae prefix natural))))"

definition decode_route_request :: "ipnet \<Rightarrow> octets_list \<Rightarrow> tlv option wire_result" where
  "decode_route_request N value =
     (let invalid = InvalidTlv TLV_ROUTE_REQUEST
      in if length value < 2 then Inl invalid
      else case from_u8 (value ! 0) of
        None \<Rightarrow> Inr None
      | Some ae \<Rightarrow>
          (let plen = value ! 1
           in if ae = Wildcard then
                (if plen \<noteq> 0 then Inr None
                 else and_then (decode_sub_tlvs N (drop 2 value) (SubPrefix ae) None) (\<lambda>sub.
                   if sub_mandatory_unknown sub \<or> sub_source_prefix sub \<noteq> None then Inr None
                   else Inr (Some (RouteRequest None (sub_values sub)))))
              else and_then (ok_or invalid (prefix_encoded_len ae plen)) (\<lambda>sz.
                if length value < 2 + sz then Inl invalid
                else and_then (ok_or invalid (decode_prefix N ae plen 0 (slice 2 (2 + sz) value) None)) (\<lambda>prefix.
                  and_then (decode_sub_tlvs N (drop (2 + sz) value) (SubPrefix ae) (Some prefix)) (\<lambda>sub.
                    if sub_mandatory_unknown sub then Inr None
                    else and_then (ok_or invalid (route_key_new N prefix (sub_source_prefix sub))) (\<lambda>key.
                      Inr (Some (RouteRequest (Some key) (sub_values sub)))))))))"

definition decode_seqno_request :: "ipnet \<Rightarrow> octets_list \<Rightarrow> tlv option wire_result" where
  "decode_seqno_request N value =
     (let invalid = InvalidTlv TLV_SEQNO_REQUEST
      in if length value < 14 then Inl invalid
      else case from_u8 (value ! 0) of
        None \<Rightarrow> Inr None
      | Some ae \<Rightarrow>
          if ae = Wildcard then Inr None
          else let plen = value ! 1
               in and_then (ok_or invalid (prefix_encoded_len ae plen)) (\<lambda>sz.
                 if length value < 14 + sz \<or> value ! 4 = 0 then Inl invalid
                 else and_then (ok_or invalid (router_id_new (from_be_bytes (slice 6 14 value)))) (\<lambda>router_id.
                   and_then (ok_or invalid (decode_prefix N ae plen 0 (slice 14 (14 + sz) value) None)) (\<lambda>prefix.
                     and_then (decode_sub_tlvs N (drop (14 + sz) value) (SubPrefix ae) (Some prefix)) (\<lambda>sub.
                       if sub_mandatory_unknown sub then Inr None
                       else and_then (ok_or invalid (route_key_new N prefix (sub_source_prefix sub))) (\<lambda>key.
                         Inr (Some (SeqnoRequest key (be16 (slice 2 4 value)) (value ! 4) router_id
                                      (sub_values sub)))))))))"

section \<open>TLVs and packets\<close>

text \<open>The arms of \<open>decode_tlv\<close> that build a TLV from its body, in the order of the source.\<close>

definition decode_ack_request :: "ipnet \<Rightarrow> octets_list \<Rightarrow> tlv option wire_result" where
  "decode_ack_request N value =
     (if length value < 6 then Inl (InvalidTlv TLV_ACK_REQ)
      else let interval_cs = be16 (slice 4 6 value)
           in if interval_cs = 0 then Inl (InvalidTlv TLV_ACK_REQ)
              else and_then (has_unknown_mandatory N (drop 6 value)) (\<lambda>m.
                Inr (if m then None else Some (AckRequest (be16 (slice 2 4 value)) interval_cs))))"

definition decode_ack :: "ipnet \<Rightarrow> octets_list \<Rightarrow> tlv option wire_result" where
  "decode_ack N value =
     (if length value < 2 then Inl (InvalidTlv TLV_ACK)
      else and_then (has_unknown_mandatory N (drop 2 value)) (\<lambda>m.
        Inr (if m then None else Some (Ack (be16 value)))))"

definition decode_hello :: "ipnet \<Rightarrow> octets_list \<Rightarrow> tlv option wire_result" where
  "decode_hello N value =
     (if length value < 6 then Inl (InvalidTlv TLV_HELLO)
      else and_then (decode_sub_tlvs N (drop 6 value) SubHello None) (\<lambda>sub.
        Inr (if sub_mandatory_unknown sub then None
             else Some (Hello (be16 value AND 0x8000 \<noteq> 0) (be16 (slice 2 4 value))
                          (be16 (slice 4 6 value)) (sub_values sub)))))"

definition decode_ihu :: "ipnet \<Rightarrow> octets_list \<Rightarrow> tlv option wire_result" where
  "decode_ihu N value =
     (let invalid = InvalidTlv TLV_IHU
      in if length value < 6 then Inl invalid
      else case from_u8 (value ! 0) of
        None \<Rightarrow> Inr None
      | Some ae \<Rightarrow>
          if ae = Ipv4ViaIpv6 then Inr None
          else and_then (ok_or invalid (address_len ae)) (\<lambda>addr_len.
            if length value < 6 + addr_len \<or> be16 (slice 4 6 value) = 0 then Inl invalid
            else and_then
              (if ae = Wildcard then Inr None
               else and_then (ok_or invalid (decode_address ae (slice 6 (6 + addr_len) value))) (\<lambda>a. Inr (Some a)))
              (\<lambda>address.
                and_then (decode_sub_tlvs N (drop (6 + addr_len) value) SubIhu None) (\<lambda>sub.
                  Inr (if sub_mandatory_unknown sub then None
                       else Some (Ihu address (be16 (slice 2 4 value)) (be16 (slice 4 6 value))
                                    (sub_values sub)))))))"

definition decode_router_id :: "ipnet \<Rightarrow> octets_list \<Rightarrow> parser_state \<Rightarrow> decoded" where
  "decode_router_id N value state =
     (if length value < 10 then Inl (InvalidTlv TLV_ROUTER_ID)
      else and_then (ok_or (InvalidTlv TLV_ROUTER_ID) (router_id_new (from_be_bytes (slice 2 10 value)))) (\<lambda>id.
        and_then (has_unknown_mandatory N (drop 10 value)) (\<lambda>m.
          Inr (if m then None else Some (RouterIdTlv id), state\<lparr>ps_router_id := Some id\<rparr>))))"

definition decode_next_hop :: "ipnet \<Rightarrow> octets_list \<Rightarrow> parser_state \<Rightarrow> decoded" where
  "decode_next_hop N value state =
     (let invalid = InvalidTlv TLV_NEXT_HOP
      in if length value < 2 then Inl invalid
      else case from_u8 (value ! 0) of
        None \<Rightarrow> Inr (None, state)
      | Some ae \<Rightarrow>
          if ae = Wildcard \<or> ae = Ipv4ViaIpv6 then Inr (None, state)
          else and_then (ok_or invalid (address_len ae)) (\<lambda>addr_len.
            if length value < 2 + addr_len then Inl invalid
            else and_then (ok_or invalid (decode_address ae (slice 2 (2 + addr_len) value))) (\<lambda>address.
              let state' = (if is_ipv4 address then state\<lparr>ps_next_hop_v4 := Some address\<rparr>
                            else state\<lparr>ps_next_hop_v6 := Some address\<rparr>)
              in and_then (has_unknown_mandatory N (drop (2 + addr_len) value)) (\<lambda>m.
                   Inr (if m then None else Some (NextHop address), state')))))"

definition with_state :: "parser_state \<Rightarrow> tlv option wire_result \<Rightarrow> decoded" where
  "with_state state r = and_then r (\<lambda>t. Inr (t, state))"

definition decode_tlv :: "ipnet \<Rightarrow> u8 \<Rightarrow> octets_list \<Rightarrow> parser_state \<Rightarrow> decoded" where
  "decode_tlv N type value state =
     (if type = TLV_PADN then Inr (Some (PadN value), state)
      else if type = TLV_ACK_REQ then with_state state (decode_ack_request N value)
      else if type = TLV_ACK then with_state state (decode_ack N value)
      else if type = TLV_HELLO then with_state state (decode_hello N value)
      else if type = TLV_IHU then with_state state (decode_ihu N value)
      else if type = TLV_ROUTER_ID then decode_router_id N value state
      else if type = TLV_NEXT_HOP then decode_next_hop N value state
      else if type = TLV_UPDATE then decode_update N value state
      else if type = TLV_ROUTE_REQUEST then with_state state (decode_route_request N value)
      else if type = TLV_SEQNO_REQUEST then with_state state (decode_seqno_request N value)
      else Inr (Some (Unknown type value), state))"

text \<open>The \<open>while offset < body.len()\<close> loop of \<open>decode_packet\<close>.\<close>

function decode_body :: "ipnet \<Rightarrow> octets_list \<Rightarrow> parser_state \<Rightarrow> (tlv list \<times> parser_state) wire_result" where
  "decode_body N [] state = Inr ([], state)"
| "decode_body N (type # rest) state =
     (if type = TLV_PAD1
      then and_then (decode_body N rest state) (\<lambda>(ts, st). Inr (Pad1 # ts, st))
      else case rest of
             [] \<Rightarrow> Inl (TruncatedTlv type)
           | len # rest' \<Rightarrow>
               if length rest' < unat len then Inl (TruncatedTlv type)
               else and_then (decode_tlv N type (take (unat len) rest') state) (\<lambda>(t, st).
                 and_then (decode_body N (drop (unat len) rest') st) (\<lambda>(ts, st').
                   Inr ((case t of None \<Rightarrow> ts | Some x \<Rightarrow> x # ts), st'))))"
  by pat_completeness auto
termination
  by (relation "measure (\<lambda>(N, body, state). length body)") auto

definition decode_packet :: "ipnet \<Rightarrow> octets_list \<Rightarrow> ip_addr \<Rightarrow> packet wire_result" where
  "decode_packet N data src =
     (if length data < 4 then Inl ShortHeader
      else if data ! 0 \<noteq> MAGIC then Inl BadMagic
      else if data ! 1 \<noteq> VERSION then Inl (UnsupportedVersion (data ! 1))
      else let body_len = unat (be16 (slice 2 4 data))
           in if length data < 4 + body_len then Inl TruncatedBody
              else and_then (decode_body N (slice 4 (4 + body_len) data) (parser_state_new src))
                     (\<lambda>(ts, st). Inr \<lparr>tlvs = ts\<rparr>))"

end
