(* ===== verification/Babel_Encode.thy ===== *)
theory Babel_Encode
  imports Babel_Wire
begin

text \<open>
  \<open>crates/babel-protocol/src/wire/encode.rs\<close> and \<open>wire/packetizer.rs\<close>: semantic TLVs to
  octets, with the Router-ID and next-hop context of the datagram, and the division of a long
  sequence of TLVs into datagrams that fit a size budget and decode on their own.

  The code appends to a \<open>&mut Vec<u8>\<close>; each definition returns the octets appended. An error
  abandons the whole encoding, so the partial output of a failed call is never observed.
\<close>

section \<open>Sub-TLVs and single TLVs\<close>

record encode_context =
  ec_router_id :: "router_id option"
  ec_next_hop_v4 :: "ip_addr option"
  ec_next_hop_v6 :: "ip_addr option"

definition encode_context_default :: encode_context where
  "encode_context_default = \<lparr>ec_router_id = None, ec_next_hop_v4 = None, ec_next_hop_v6 = None\<rparr>"

definition append_result :: "octets_list wire_result \<Rightarrow> octets_list wire_result \<Rightarrow> octets_list wire_result" where
  "append_result a b = and_then a (\<lambda>x. and_then b (\<lambda>y. Inr (x @ y)))"

definition encode_sub_tlv :: "sub_tlv \<Rightarrow> octets_list wire_result" where
  "encode_sub_tlv s =
     (case s of
        SourcePrefix _ \<Rightarrow> Inr []
      | SubPad1 \<Rightarrow> Inr [0]
      | SubPadN v \<Rightarrow> and_then (require_zeroes v 1) (\<lambda>_. put_tlv 1 v)
      | TimestampHello v \<Rightarrow> put_tlv SUBTLV_TIMESTAMP (to_be_bytes v)
      | TimestampIhu orig recvd \<Rightarrow> put_tlv SUBTLV_TIMESTAMP (to_be_bytes orig @ to_be_bytes recvd)
      | SubUnknown type value \<Rightarrow> put_tlv type value)"

fun encode_sub_tlvs :: "sub_tlv list \<Rightarrow> octets_list wire_result" where
  "encode_sub_tlvs [] = Inr []"
| "encode_sub_tlvs (s # ss) = append_result (encode_sub_tlv s) (encode_sub_tlvs ss)"

definition encode_source_prefix :: "ip_net option \<Rightarrow> address_encoding \<Rightarrow> octets_list wire_result" where
  "encode_source_prefix src ae =
     (case src of
        None \<Rightarrow> Inr []
      | Some s \<Rightarrow> put_tlv SUBTLV_SOURCE_PREFIX (prefix_len s # prefix_wire_bytes s ae))"

definition encode_router_id :: "router_id \<Rightarrow> octets_list wire_result" where
  "encode_router_id router_id = put_tlv TLV_ROUTER_ID ([0, 0] @ to_be_bytes (octets router_id))"

definition encode_next_hop :: "ip_addr \<Rightarrow> octets_list wire_result" where
  "encode_next_hop address =
     (case encode_address address of (ae, bytes) \<Rightarrow> put_tlv TLV_NEXT_HOP ([ae_as_u8 ae, 0] @ bytes))"

definition encode_update :: "outbound_update \<Rightarrow> octets_list wire_result" where
  "encode_update update =
     (case ou_key update of
        None \<Rightarrow>
          put_tlv TLV_UPDATE ([0, 0, 0, 0] @ to_be_bytes (ou_interval_cs update)
            @ to_be_bytes (ou_seqno update) @ to_be_bytes (ou_metric update))
      | Some key \<Rightarrow>
          (let ae = ae_for_key key (ou_v4_via_v6 update);
               v = [ae_as_u8 ae, 0, prefix_len (destination key), 0] @ to_be_bytes (ou_interval_cs update)
                   @ to_be_bytes (ou_seqno update) @ to_be_bytes (ou_metric update)
                   @ prefix_wire_bytes (destination key) ae
           in and_then (encode_source_prefix (source key) ae) (\<lambda>s.
                and_then (encode_sub_tlvs (ou_sub_tlvs update)) (\<lambda>t.
                  put_tlv TLV_UPDATE (v @ s @ t)))))"

text \<open>The context TLVs that an Update needs, and the context after them.\<close>

definition encode_router_context ::
    "outbound_update \<Rightarrow> encode_context \<Rightarrow> (encode_context \<times> octets_list) wire_result" where
  "encode_router_context update context =
     (if ou_key update \<noteq> None \<and> ou_metric update \<noteq> INFINITY
      then and_then (ok_or MissingRouterId (ou_router_id update)) (\<lambda>id.
        if ec_router_id context \<noteq> Some id
        then and_then (encode_router_id id) (\<lambda>out. Inr (context\<lparr>ec_router_id := Some id\<rparr>, out))
        else Inr (context, []))
      else Inr (context, []))"

definition encode_next_hop_context ::
    "outbound_update \<Rightarrow> encode_context \<Rightarrow> (encode_context \<times> octets_list) wire_result" where
  "encode_next_hop_context update context =
     (case ou_next_hop update of
        None \<Rightarrow> Inr (context, [])
      | Some next_hop \<Rightarrow>
          if ou_metric update = INFINITY then Inr (context, [])
          else if ou_v4_via_v6 update \<or> is_ipv6 next_hop
          then (if ec_next_hop_v6 context \<noteq> Some next_hop
                then and_then (encode_next_hop next_hop) (\<lambda>out.
                  Inr (context\<lparr>ec_next_hop_v6 := Some next_hop\<rparr>, out))
                else Inr (context, []))
          else (if ec_next_hop_v4 context \<noteq> Some next_hop
                then and_then (encode_next_hop next_hop) (\<lambda>out.
                  Inr (context\<lparr>ec_next_hop_v4 := Some next_hop\<rparr>, out))
                else Inr (context, [])))"

definition encode_update_tlv ::
    "outbound_update \<Rightarrow> encode_context \<Rightarrow> (encode_context \<times> octets_list) wire_result" where
  "encode_update_tlv update context =
     and_then (require_nonzero (ou_interval_cs update) TLV_UPDATE) (\<lambda>_.
       and_then (encode_router_context update context) (\<lambda>(c1, o1).
         and_then (encode_next_hop_context update c1) (\<lambda>(c2, o2).
           and_then (encode_update update) (\<lambda>o3. Inr (c2, o1 @ o2 @ o3)))))"

definition encode_route_request :: "route_key option \<Rightarrow> sub_tlv list \<Rightarrow> octets_list wire_result" where
  "encode_route_request key sub_tlvs =
     and_then
       (case key of
          None \<Rightarrow> Inr [0, 0]
        | Some k \<Rightarrow>
            let ae = ae_for_key k False
            in and_then (encode_source_prefix (source k) ae) (\<lambda>s.
                 Inr ([ae_as_u8 ae, prefix_len (destination k)] @ prefix_wire_bytes (destination k) ae @ s)))
       (\<lambda>v. and_then (encode_sub_tlvs sub_tlvs) (\<lambda>t. put_tlv TLV_ROUTE_REQUEST (v @ t)))"

definition encode_seqno_request ::
    "route_key \<Rightarrow> u16 \<Rightarrow> u8 \<Rightarrow> router_id \<Rightarrow> sub_tlv list \<Rightarrow> octets_list wire_result" where
  "encode_seqno_request key seqno hop_count router_id sub_tlvs =
     and_then (require_nonzero (ucast hop_count) TLV_SEQNO_REQUEST) (\<lambda>_.
       let ae = ae_for_key key False;
           v = [ae_as_u8 ae, prefix_len (destination key)] @ to_be_bytes seqno @ [hop_count, 0]
               @ to_be_bytes (octets router_id) @ prefix_wire_bytes (destination key) ae
       in and_then (encode_source_prefix (source key) ae) (\<lambda>s.
            and_then (encode_sub_tlvs sub_tlvs) (\<lambda>t.
              put_tlv TLV_SEQNO_REQUEST (v @ s @ t))))"

definition encode_hello :: "bool \<Rightarrow> u16 \<Rightarrow> u16 \<Rightarrow> sub_tlv list \<Rightarrow> octets_list wire_result" where
  "encode_hello unicast seqno interval_cs sub_tlvs =
     and_then (encode_sub_tlvs sub_tlvs) (\<lambda>t.
       put_tlv TLV_HELLO (to_be_bytes (if unicast then 0x8000 else 0 :: u16)
         @ to_be_bytes seqno @ to_be_bytes interval_cs @ t))"

definition encode_ihu :: "ip_addr option \<Rightarrow> u16 \<Rightarrow> u16 \<Rightarrow> sub_tlv list \<Rightarrow> octets_list wire_result" where
  "encode_ihu address rxcost interval_cs sub_tlvs =
     and_then (require_nonzero interval_cs TLV_IHU) (\<lambda>_.
       case encode_optional_address address of (ae, bytes) \<Rightarrow>
         and_then (encode_sub_tlvs sub_tlvs) (\<lambda>t.
           put_tlv TLV_IHU ([ae_as_u8 ae, 0] @ to_be_bytes rxcost @ to_be_bytes interval_cs @ bytes @ t)))"

text \<open>Every arm but \<open>Update\<close> leaves the context as it is.\<close>

definition same_context :: "encode_context \<Rightarrow> octets_list wire_result \<Rightarrow> (encode_context \<times> octets_list) wire_result" where
  "same_context context r = and_then r (\<lambda>out. Inr (context, out))"

definition encode_outbound_tlv ::
    "outbound_tlv \<Rightarrow> encode_context \<Rightarrow> (encode_context \<times> octets_list) wire_result" where
  "encode_outbound_tlv t context =
     (case t of
        OutPad1 \<Rightarrow> Inr (context, [TLV_PAD1])
      | OutPadN value \<Rightarrow>
          same_context context (and_then (require_zeroes value TLV_PADN) (\<lambda>_. put_tlv TLV_PADN value))
      | OutAckRequest nonce interval_cs \<Rightarrow>
          same_context context (and_then (require_nonzero interval_cs TLV_ACK_REQ) (\<lambda>_.
            put_tlv TLV_ACK_REQ ([0, 0] @ to_be_bytes nonce @ to_be_bytes interval_cs)))
      | OutAck nonce \<Rightarrow> same_context context (put_tlv TLV_ACK (to_be_bytes nonce))
      | OutHello unicast seqno interval_cs sub_tlvs \<Rightarrow>
          same_context context (encode_hello unicast seqno interval_cs sub_tlvs)
      | OutIhu address rxcost interval_cs sub_tlvs \<Rightarrow>
          same_context context (encode_ihu address rxcost interval_cs sub_tlvs)
      | OutUpdate update \<Rightarrow> encode_update_tlv update context
      | OutRouteRequest key sub_tlvs \<Rightarrow> same_context context (encode_route_request key sub_tlvs)
      | OutSeqnoRequest key seqno hop_count router_id sub_tlvs \<Rightarrow>
          same_context context (encode_seqno_request key seqno hop_count router_id sub_tlvs)
      | OutUnknown type value \<Rightarrow> same_context context (put_tlv type value))"

section \<open>Datagrams\<close>

definition finish_packet :: "octets_list \<Rightarrow> octets_list wire_result" where
  "finish_packet body =
     (if length body > 65535 then Inl BodyTooLarge
      else Inr ([MAGIC, VERSION] @ to_be_bytes (of_nat (length body) :: u16) @ body))"

definition requires_fresh_next_hop_context :: "outbound_tlv \<Rightarrow> encode_context \<Rightarrow> bool" where
  "requires_fresh_next_hop_context t context =
     (case t of
        OutUpdate update \<Rightarrow>
          if ou_metric update = INFINITY \<or> ou_next_hop update \<noteq> None then False
          else if ou_v4_via_v6 update
                  \<or> (case ou_key update of None \<Rightarrow> False | Some key \<Rightarrow> is_ipv6 (net_addr (destination key)))
          then ec_next_hop_v6 context \<noteq> None
          else ec_next_hop_v4 context \<noteq> None
      | _ \<Rightarrow> False)"

definition is_out_hello :: "outbound_tlv \<Rightarrow> bool" where
  "is_out_hello t = (case t of OutHello _ _ _ _ \<Rightarrow> True | _ \<Rightarrow> False)"

definition is_out_ihu :: "outbound_tlv \<Rightarrow> bool" where
  "is_out_ihu t = (case t of OutIhu _ _ _ _ \<Rightarrow> True | _ \<Rightarrow> False)"

definition is_timestamp_hello :: "sub_tlv \<Rightarrow> bool" where
  "is_timestamp_hello s = (case s of TimestampHello _ \<Rightarrow> True | _ \<Rightarrow> False)"

definition is_timestamp_ihu :: "sub_tlv \<Rightarrow> bool" where
  "is_timestamp_ihu s = (case s of TimestampIhu _ _ \<Rightarrow> True | _ \<Rightarrow> False)"

definition timestamped_hello :: "outbound_tlv \<Rightarrow> bool" where
  "timestamped_hello t = (case t of OutHello _ _ _ ss \<Rightarrow> list_ex is_timestamp_hello ss | _ \<Rightarrow> False)"

definition timestamped_ihu :: "outbound_tlv \<Rightarrow> bool" where
  "timestamped_ihu t = (case t of OutIhu _ _ _ ss \<Rightarrow> list_ex is_timestamp_ihu ss | _ \<Rightarrow> False)"

fun encode_group ::
    "outbound_tlv list \<Rightarrow> encode_context \<Rightarrow> (encode_context \<times> octets_list) wire_result" where
  "encode_group [] context = Inr (context, [])"
| "encode_group (t # ts) context =
     and_then (encode_outbound_tlv t context) (\<lambda>(c1, o1).
       and_then (encode_group ts c1) (\<lambda>(c2, o2). Inr (c2, o1 @ o2)))"

text \<open>The local variables of \<open>encode_packets\<close>; \<open>pk_packets\<close> holds the finished datagrams.\<close>

record packetizer =
  pk_packets :: "octets_list list"
  pk_body :: octets_list
  pk_context :: encode_context
  pk_has_hello :: bool

definition packetizer_new :: packetizer where
  "packetizer_new =
     \<lparr>pk_packets = [], pk_body = [], pk_context = encode_context_default, pk_has_hello = False\<rparr>"

definition flush_packet :: "packetizer \<Rightarrow> packetizer wire_result" where
  "flush_packet s =
     and_then (finish_packet (pk_body s)) (\<lambda>p.
       Inr \<lparr>pk_packets = pk_packets s @ [p], pk_body = [], pk_context = encode_context_default,
            pk_has_hello = False\<rparr>)"

text \<open>The IHUs that must share the datagram of a timestamped Hello.\<close>

definition group_of :: "outbound_tlv \<Rightarrow> outbound_tlv list \<Rightarrow> outbound_tlv list" where
  "group_of t rest = t # (if timestamped_hello t then takeWhile is_out_ihu rest else [])"

definition encode_group_within ::
    "nat \<Rightarrow> outbound_tlv list \<Rightarrow> encode_context \<Rightarrow> (encode_context \<times> octets_list) wire_result" where
  "encode_group_within body_budget grp context =
     and_then (encode_group grp context) (\<lambda>(c, encoded).
       if length encoded > body_budget then Inl BodyTooLarge else Inr (c, encoded))"

text \<open>One turn of the loop: a packet boundary where one is needed, then the group.\<close>

definition packetize_group :: "nat \<Rightarrow> outbound_tlv \<Rightarrow> outbound_tlv list \<Rightarrow> packetizer \<Rightarrow> packetizer wire_result" where
  "packetize_group body_budget t grp s =
     and_then
       (if pk_body s \<noteq> []
           \<and> (requires_fresh_next_hop_context t (pk_context s) \<or> is_out_hello t \<and> pk_has_hello s)
        then flush_packet s else Inr s) (\<lambda>s1.
       and_then (encode_group_within body_budget grp (pk_context s1)) (\<lambda>(c1, e1).
         if pk_body s1 \<noteq> [] \<and> length (pk_body s1) + length e1 > body_budget
         then and_then (flush_packet s1) (\<lambda>s2.
           and_then (encode_group_within body_budget grp (pk_context s2)) (\<lambda>(c2, e2).
             Inr (s2\<lparr>pk_body := pk_body s2 @ e2, pk_context := c2,
                     pk_has_hello := pk_has_hello s2 \<or> is_out_hello t\<rparr>)))
         else Inr (s1\<lparr>pk_body := pk_body s1 @ e1, pk_context := c1,
                      pk_has_hello := pk_has_hello s1 \<or> is_out_hello t\<rparr>)))"

function encode_packets_loop :: "nat \<Rightarrow> outbound_tlv list \<Rightarrow> packetizer \<Rightarrow> packetizer wire_result" where
  "encode_packets_loop body_budget [] s = Inr s"
| "encode_packets_loop body_budget (t # rest) s =
     (if \<not> timestamped_hello t \<and> timestamped_ihu t then Inl (InvalidTlv TLV_IHU)
      else and_then (packetize_group body_budget t (group_of t rest) s)
             (encode_packets_loop body_budget (drop (length (group_of t rest) - 1) rest)))"
  by pat_completeness auto
termination
  by (relation "measure (\<lambda>(b, ts, s). length ts)") auto

definition encode_packets :: "outbound_packet \<Rightarrow> nat \<Rightarrow> octets_list list wire_result" where
  "encode_packets packet max_packet_size =
     (if max_packet_size < 4 then Inl PacketBudgetTooSmall
      else let body_budget = min max_packet_size MAX_PACKET_SIZE - 4
           in and_then (encode_packets_loop body_budget (out_tlvs packet) packetizer_new) (\<lambda>s.
                and_then (flush_packet s) (\<lambda>s'. Inr (pk_packets s'))))"

definition encode_packet :: "outbound_packet \<Rightarrow> octets_list wire_result" where
  "encode_packet packet =
     and_then (encode_packets packet MAX_PACKET_SIZE) (\<lambda>packets.
       if length packets \<noteq> 1 then Inl PacketSplitRequired else Inr (last packets))"

section \<open>Timestamps at send time\<close>

text \<open>The inner loop of \<open>stamp_hello_timestamps\<close>, over the sub-TLVs of one Hello.\<close>

function stamp_sub_tlvs :: "u32 \<Rightarrow> octets_list \<Rightarrow> octets_list wire_result" where
  "stamp_sub_tlvs timestamp [] = Inr []"
| "stamp_sub_tlvs timestamp (sub_type # rest) =
     (if sub_type = 0 then and_then (stamp_sub_tlvs timestamp rest) (\<lambda>out. Inr (sub_type # out))
      else case rest of
             [] \<Rightarrow> Inl (InvalidTlv TLV_HELLO)
           | sub_length # rest' \<Rightarrow>
               if length rest' < unat sub_length then Inl (InvalidTlv TLV_HELLO)
               else let body = take (unat sub_length) rest';
                        body' = (if sub_type = SUBTLV_TIMESTAMP \<and> unat sub_length \<ge> 4
                                 then to_be_bytes timestamp @ drop 4 body else body)
                    in and_then (stamp_sub_tlvs timestamp (drop (unat sub_length) rest')) (\<lambda>out.
                         Inr (sub_type # sub_length # body' @ out)))"
  by pat_completeness auto
termination
  by (relation "measure (\<lambda>(t, data). length data)") auto

text \<open>The outer loop, over the TLVs of the packet body.\<close>

function stamp_body :: "u32 \<Rightarrow> octets_list \<Rightarrow> octets_list wire_result" where
  "stamp_body timestamp [] = Inr []"
| "stamp_body timestamp (type # rest) =
     (if type = TLV_PAD1 then and_then (stamp_body timestamp rest) (\<lambda>out. Inr (type # out))
      else case rest of
             [] \<Rightarrow> Inl (TruncatedTlv type)
           | len # rest' \<Rightarrow>
               if length rest' < unat len then Inl (TruncatedTlv type)
               else let value = take (unat len) rest'
                    in and_then
                         (if type = TLV_HELLO \<and> unat len \<ge> 6
                          then and_then (stamp_sub_tlvs timestamp (drop 6 value)) (\<lambda>sub. Inr (take 6 value @ sub))
                          else Inr value) (\<lambda>value'.
                         and_then (stamp_body timestamp (drop (unat len) rest')) (\<lambda>out.
                           Inr (type # len # value' @ out))))"
  by pat_completeness auto
termination
  by (relation "measure (\<lambda>(t, data). length data)") auto

text \<open>The datagram after the call; on an error the caller drops it.\<close>

definition stamp_hello_timestamps :: "octets_list \<Rightarrow> u32 \<Rightarrow> octets_list wire_result" where
  "stamp_hello_timestamps data timestamp =
     (if length data < 4 then Inl ShortHeader
      else if data ! 0 \<noteq> MAGIC then Inl BadMagic
      else if data ! 1 \<noteq> VERSION then Inl (UnsupportedVersion (data ! 1))
      else let body_len = unat (be16 (slice 2 4 data))
           in if length data < 4 + body_len then Inl TruncatedBody
              else and_then (stamp_body timestamp (slice 4 (4 + body_len) data)) (\<lambda>body.
                     Inr (take 4 data @ body @ drop (4 + body_len) data)))"

end
