(* ===== verification/Babel_Roundtrip.thy ===== *)
theory Babel_Roundtrip
  imports Babel_Decode Babel_Encode
begin

text \<open>
  What a receiver decodes is what the sender meant: the encoder and packetizer of
  \<open>Babel_Encode\<close> against the decoder of \<open>Babel_Decode\<close>.

  \<open>delivered\<close> says what one outbound TLV should look like at a receiver that sees the sender at
  address \<open>src\<close>; \<open>semantic\<close> drops the context TLVs (Router-ID, Next-Hop) that the packetizer adds
  and the origin of a retraction, which the wire format leaves to the context. \<open>tlv_ok\<close> is what
  a TLV needs to survive: canonical route keys, addresses the address encodings can express,
  sub-TLVs of the right kind, and a next hop of the family of the route. The simulation relation
  \<open>ctx_rel\<close> ties the context of the encoder to the parser state of the decoder.
\<close>

section \<open>What survives the wire\<close>

definition ae_fits :: "address_encoding \<Rightarrow> ip_net \<Rightarrow> bool" where
  "ae_fits ae p = (case p of V4Net _ _ \<Rightarrow> ae = Ipv4 \<or> ae = Ipv4ViaIpv6 | V6Net _ _ \<Rightarrow> ae = Ipv6)"

definition sub_ok :: "sub_context \<Rightarrow> sub_tlv \<Rightarrow> bool" where
  "sub_ok context s =
     (case s of
        TimestampHello _ \<Rightarrow> context = SubHello
      | TimestampIhu _ _ \<Rightarrow> context = SubIhu
      | SubUnknown type _ \<Rightarrow> type \<notin> {0, 1, SUBTLV_TIMESTAMP, SUBTLV_SOURCE_PREFIX} \<and> type AND 0x80 = 0
      | _ \<Rightarrow> True)"

definition sub_sent :: "sub_tlv list \<Rightarrow> sub_tlv list" where
  "sub_sent ss = filter (\<lambda>s. case s of SourcePrefix _ \<Rightarrow> False | _ \<Rightarrow> True) ss"

definition key_ok :: "ipnet \<Rightarrow> route_key \<Rightarrow> bool" where
  "key_ok N k \<longleftrightarrow> route_key_new N (destination k) (source k) = Some k \<and> net_wf (destination k)
     \<and> (case source k of None \<Rightarrow> True | Some s \<Rightarrow> net_wf s)"

definition addr_ok :: "ip_addr \<Rightarrow> bool" where
  "addr_ok a = (case a of V4 _ \<Rightarrow> True
     | V6 x \<Rightarrow> v6_is_unicast_link_local x \<longrightarrow> take 8 (to_be_bytes x) = [0xfe, 0x80, 0, 0, 0, 0, 0, 0])"

definition router_id_ok :: "router_id \<Rightarrow> bool" where
  "router_id_ok i \<longleftrightarrow> router_id_new (octets i) = Some i"

definition update_ok :: "ipnet \<Rightarrow> ip_addr \<Rightarrow> outbound_update \<Rightarrow> bool" where
  "update_ok N src u =
     (case ou_key u of
        None \<Rightarrow> ou_metric u = INFINITY
      | Some k \<Rightarrow>
          key_ok N k
          \<and> (ou_v4_via_v6 u \<longrightarrow> is_ipv4 (net_addr (destination k)))
          \<and> list_all (sub_ok (SubPrefix (ae_for_key k (ou_v4_via_v6 u)))) (ou_sub_tlvs u)
          \<and> (ou_metric u \<noteq> INFINITY \<longrightarrow>
               (case ou_router_id u of None \<Rightarrow> False | Some i \<Rightarrow> router_id_ok i)
               \<and> (let v4 = (is_ipv4 (net_addr (destination k)) \<and> \<not> ou_v4_via_v6 u)
                  in case ou_next_hop u of
                       None \<Rightarrow> is_ipv4 src = v4
                     | Some nh \<Rightarrow> addr_ok nh \<and> is_ipv4 nh = v4)))"

definition tlv_ok :: "ipnet \<Rightarrow> ip_addr \<Rightarrow> outbound_tlv \<Rightarrow> bool" where
  "tlv_ok N src t =
     (case t of
        OutHello _ _ _ ss \<Rightarrow> list_all (sub_ok SubHello) ss
      | OutIhu a _ _ ss \<Rightarrow> list_all (sub_ok SubIhu) ss \<and> (case a of None \<Rightarrow> True | Some x \<Rightarrow> addr_ok x)
      | OutUpdate u \<Rightarrow> update_ok N src u
      | OutRouteRequest None ss \<Rightarrow> list_all (sub_ok (SubPrefix Wildcard)) ss
      | OutRouteRequest (Some k) ss \<Rightarrow> key_ok N k \<and> list_all (sub_ok (SubPrefix (ae_for_key k False))) ss
      | OutSeqnoRequest k _ _ i ss \<Rightarrow>
          key_ok N k \<and> router_id_ok i \<and> list_all (sub_ok (SubPrefix (ae_for_key k False))) ss
      | OutUnknown type _ \<Rightarrow> type > TLV_SEQNO_REQUEST
      | _ \<Rightarrow> True)"

definition delivered_update :: "ip_addr \<Rightarrow> outbound_update \<Rightarrow> resolved_update" where
  "delivered_update src u =
     (let finite_metric = ou_metric u \<noteq> INFINITY
      in \<lparr>ru_key = ou_key u,
          ru_router_id = (if finite_metric then ou_router_id u else None),
          ru_next_hop = (if finite_metric
                         then Some (case ou_next_hop u of None \<Rightarrow> src | Some nh \<Rightarrow> nh) else None),
          ru_interval_cs = ou_interval_cs u, ru_seqno = ou_seqno u, ru_metric = ou_metric u,
          ru_v4_via_v6 = (ou_key u \<noteq> None \<and> ou_v4_via_v6 u),
          ru_sub_tlvs = (if ou_key u = None then [] else sub_sent (ou_sub_tlvs u))\<rparr>)"

definition delivered :: "ip_addr \<Rightarrow> outbound_tlv \<Rightarrow> tlv" where
  "delivered src t =
     (case t of
        OutPad1 \<Rightarrow> Pad1
      | OutPadN v \<Rightarrow> PadN v
      | OutAckRequest nonce interval \<Rightarrow> AckRequest nonce interval
      | OutAck nonce \<Rightarrow> Ack nonce
      | OutHello unicast seqno interval ss \<Rightarrow> Hello unicast seqno interval (sub_sent ss)
      | OutIhu a rxcost interval ss \<Rightarrow> Ihu a rxcost interval (sub_sent ss)
      | OutUpdate u \<Rightarrow> Update (delivered_update src u)
      | OutRouteRequest k ss \<Rightarrow> RouteRequest k (sub_sent ss)
      | OutSeqnoRequest k seqno hops i ss \<Rightarrow> SeqnoRequest k seqno hops i (sub_sent ss)
      | OutUnknown type v \<Rightarrow> Unknown type v)"

definition is_context_tlv :: "tlv \<Rightarrow> bool" where
  "is_context_tlv t = (case t of RouterIdTlv _ \<Rightarrow> True | NextHop _ \<Rightarrow> True | _ \<Rightarrow> False)"

definition retraction_without_origin :: "tlv \<Rightarrow> tlv" where
  "retraction_without_origin t =
     (case t of Update r \<Rightarrow> if ru_metric r = INFINITY then Update (r\<lparr>ru_router_id := None\<rparr>) else t
      | _ \<Rightarrow> t)"

definition semantic :: "tlv list \<Rightarrow> tlv list" where
  "semantic ts = map retraction_without_origin (filter (\<lambda>t. \<not> is_context_tlv t) ts)"

section \<open>Simulation relations\<close>

definition decodes :: "ipnet \<Rightarrow> octets_list \<Rightarrow> parser_state \<Rightarrow> tlv list \<Rightarrow> parser_state \<Rightarrow> bool" where
  "decodes N out st ts st' \<longleftrightarrow>
     (\<forall>rest. decode_body N (out @ rest) st =
        and_then (decode_body N rest st') (\<lambda>(us, st''). Inr (ts @ us, st'')))"

definition ctx_rel :: "ip_addr \<Rightarrow> encode_context \<Rightarrow> parser_state \<Rightarrow> bool" where
  "ctx_rel src c st \<longleftrightarrow>
     (ec_router_id c = None \<or> ps_router_id st = ec_router_id c)
     \<and> ps_next_hop_v4 st = (if ec_next_hop_v4 c = None then ps_next_hop_v4 (parser_state_new src) else ec_next_hop_v4 c)
     \<and> ps_next_hop_v6 st = (if ec_next_hop_v6 c = None then ps_next_hop_v6 (parser_state_new src) else ec_next_hop_v6 c)"

definition wants_v4 :: "outbound_update \<Rightarrow> bool" where
  "wants_v4 u = (case ou_key u of None \<Rightarrow> False
     | Some k \<Rightarrow> is_ipv4 (net_addr (destination k)) \<and> \<not> ou_v4_via_v6 u)"

section \<open>Octets of prefixes and addresses\<close>

lemma host_bits_clear:
  fixes a :: "'a::len word"
  assumes "a AND NOT (mask (LENGTH('a) - p)) = a" "k < LENGTH('a) - p"
  shows "\<not> bit a k"
proof -
  have "bit a k = bit (a AND NOT (mask (LENGTH('a) - p))) k" using assms(1) by simp
  also have "\<dots> = False" using assms(2) by (simp add: bit_simps)
  finally show ?thesis by simp
qed

lemma ceil_8: "p mod 8 \<noteq> 0 \<Longrightarrow> 8 * ((p + 7) div 8) - p = 8 - p mod 8" for p :: nat
proof -
  assume "p mod 8 \<noteq> 0"
  moreover obtain d m where p: "p = m + 8 * d" "m < 8"
    by (metis mod_less_divisor mod_mult_div_eq zero_less_numeral)
  ultimately have m: "0 < m" "p mod 8 = m" by auto
  then have "p + 7 = (m - 1) + 8 * (d + 1)" using p by simp
  moreover have "((m - 1) + 8 * (d + 1)) div 8 = d + 1" using p(2) by simp
  ultimately have "(p + 7) div 8 = d + 1" by (simp only:)
  then show ?thesis using p m by (simp only:) simp
qed

lemma canonical_octet_bit:
  fixes a :: "'a::len word"
  assumes canon: "a AND NOT (mask (LENGTH('a) - p)) = a" and L: "LENGTH('a) = 8 * q"
    and i: "i < q" and j: "j < 8" "p \<le> 8 * i + 7 - j"
  shows "\<not> bit (to_be_bytes a ! i) j"
proof -
  have "8 * (q - Suc i) + j < LENGTH('a) - p" using i j L by auto
  then show ?thesis using host_bits_clear [OF canon] bit_to_be_bytes [of i j a] i j L by simp
qed

lemma canonical_octets_tail:
  fixes a :: "'a::len word"
  assumes canon: "a AND NOT (mask (LENGTH('a) - p)) = a" and L: "LENGTH('a) = 8 * q" and n: "p \<le> 8 * n"
  shows "drop n (to_be_bytes a) = replicate (q - n) 0"
proof (rule nth_equalityI)
  show "length (drop n (to_be_bytes a)) = length (replicate (q - n) (0 :: u8))" using L by simp
  fix i assume "i < length (drop n (to_be_bytes a))"
  then have i: "i < q - n" using L by simp
  have "to_be_bytes a ! (n + i) = 0"
  proof (rule bit_word_eqI)
    fix j assume "j < LENGTH(8)"
    then show "bit (to_be_bytes a ! (n + i)) j = bit (0 :: u8) j"
      using canonical_octet_bit [OF canon L, of "n + i" j] i n by simp
  qed
  then show "drop n (to_be_bytes a) ! i = replicate (q - n) 0 ! i" using i L by simp
qed

lemma unat_free_bits: "unat (8 - plen mod 8) = 8 - unat plen mod 8" for plen :: u8
proof -
  have m: "unat (plen mod 8) = unat plen mod 8" by (simp add: unat_mod)
  then have "unat (plen mod 8) \<le> 8" by simp
  then have "plen mod 8 \<le> 8" by (simp add: word_le_nat_alt)
  then show ?thesis by (simp add: unat_sub m)
qed

lemma canonical_last_octet:
  fixes a :: "'a::len word" and plen :: u8
  assumes canon: "a AND NOT (mask (LENGTH('a) - unat plen)) = a" and L: "LENGTH('a) = 8 * q"
    and n: "1 \<le> n" "n \<le> q" "8 * n - unat plen = 8 - unat plen mod 8" "unat plen \<le> 8 * n"
  shows "to_be_bytes a ! (n - 1) AND push_bit (unat (8 - plen mod 8)) 0xff = to_be_bytes a ! (n - 1)"
proof (rule bit_word_eqI)
  fix j assume "j < LENGTH(8)"
  then have j: "j < 8" by simp
  have ff: "(0xff :: u8) = - 1" by simp
  let ?b = "to_be_bytes a ! (n - 1)"
  show "bit (?b AND push_bit (unat (8 - plen mod 8)) 0xff) j = bit ?b j"
  proof (cases "j < 8 - unat plen mod 8")
    case True
    then have "unat plen \<le> 8 * (n - 1) + 7 - j" using n by linarith
    moreover have "n - 1 < q" using n by linarith
    ultimately have "\<not> bit ?b j" using canonical_octet_bit [OF canon L _ j] by blast
    then show ?thesis by (simp add: bit_and_iff)
  next
    case False
    then have "bit (push_bit (unat (8 - plen mod 8)) (0xff :: u8)) j" using j
      by (simp only: ff bit_push_bit_iff bit_minus_1_iff possible_bit_def unat_free_bits) simp
    then show ?thesis by (simp only: bit_and_iff simp_thms)
  qed
qed

lemma canonical_octets:
  fixes a :: "'a::len word"
  assumes canon: "a AND NOT (mask (LENGTH('a) - unat plen)) = a" and le: "unat plen \<le> LENGTH('a)"
    and dvd: "8 dvd LENGTH('a)"
  defines "n \<equiv> (unat plen + 7) div 8"
  shows "zero_extend (LENGTH('a) div 8) (mask_last plen (take n (to_be_bytes a))) = to_be_bytes a"
proof -
  let ?L = "LENGTH('a)" and ?b = "to_be_bytes a"
  obtain q where q: "?L = 8 * q" using dvd by (elim dvdE)
  have n: "n \<le> q" "unat plen \<le> 8 * n" using le q by (auto simp: n_def)
  have len: "length (take n ?b) = n" "?L div 8 = q" using n q by simp_all
  have "mask_last plen (take n ?b) = take n ?b"
  proof (cases "plen mod 8 = 0 \<or> n = 0")
    case True
    then show ?thesis by (auto simp: mask_last_def)
  next
    case False
    have ne: "take n ?b \<noteq> []" using False len(1) by (metis list.size(3))
    have l: "last (take n ?b) = ?b ! (n - 1)"
      using False by (subst last_conv_nth [OF ne], subst len) simp
    have "unat (plen mod 8) = unat plen mod 8" by (simp add: unat_mod)
    then have "unat plen mod 8 \<noteq> 0" using False by (metis unat_eq_zero)
    then have "8 * n - unat plen = 8 - unat plen mod 8" unfolding n_def by (rule ceil_8)
    then have "last (take n ?b) AND push_bit (unat (8 - plen mod 8)) 0xff = last (take n ?b)"
      unfolding l using canonical_last_octet [OF canon q, of n] False n by simp
    then show ?thesis
      unfolding mask_last_def by (simp only: append_butlast_last_id [OF ne] if_cancel)
  qed
  then have "zero_extend (?L div 8) (mask_last plen (take n ?b)) = take n ?b @ drop n ?b"
    by (simp only: zero_extend_def len canonical_octets_tail [OF canon q n(2)])
  then show ?thesis by (simp only: append_take_drop_id)
qed

context ipnet_package
begin

lemma decode_prefix_wire:
  assumes "trunc N p = p" "net_wf p" "ae_fits ae p"
  shows "prefix_encoded_len ae (prefix_len p) = Some (length (prefix_wire_bytes p ae))"
    and "decode_prefix N ae (prefix_len p) 0 (prefix_wire_bytes p ae) None = Some p"
proof -
  let ?n = "(unat (prefix_len p) + 7) div 8"
  have e: "prefix_encoded_len ae (prefix_len p) = Some ?n"
    using assms by (auto simp: ae_fits_def prefix_encoded_len_def max_prefix_bits_def net_wf_def not_less
        Let_def split: ip_net.splits)
  have w: "prefix_wire_bytes p ae = take ?n (addr_octets p)"
    using assms e by (auto simp: ae_fits_def prefix_wire_bytes_def Let_def split: ip_net.splits)
  have l: "?n \<le> length (addr_octets p)"
    using assms by (auto simp: addr_octets_def net_wf_def word_le_nat_alt split: ip_net.splits)
  show "prefix_encoded_len ae (prefix_len p) = Some (length (prefix_wire_bytes p ae))"
    using e w l by simp
  show "decode_prefix N ae (prefix_len p) 0 (prefix_wire_bytes p ae) None = Some p"
  proof (cases p)
    case (V4Net a pl)
    have "a AND NOT (mask (LENGTH(32) - unat pl)) = a" using assms(1) V4Net by (simp add: trunc_v4)
    moreover have "unat pl \<le> LENGTH(32)" using assms(2) V4Net by (simp add: net_wf_def word_le_nat_alt)
    ultimately have "zero_extend 4 (mask_last pl (take ((unat pl + 7) div 8) (to_be_bytes a))) = to_be_bytes a"
      using canonical_octets [of a pl] by simp
    then show ?thesis using V4Net assms e w l
      by (auto simp: decode_prefix_def ae_fits_def addr_octets_def v4_new net_wf_def)
  next
    case (V6Net a pl)
    have "a AND NOT (mask (LENGTH(128) - unat pl)) = a" using assms(1) V6Net by (simp add: trunc_v6)
    moreover have "unat pl \<le> LENGTH(128)" using assms(2) V6Net by (simp add: net_wf_def word_le_nat_alt)
    ultimately have "zero_extend 16 (mask_last pl (take ((unat pl + 7) div 8) (to_be_bytes a))) = to_be_bytes a"
      using canonical_octets [of a pl] by simp
    then show ?thesis using V6Net assms e w l
      by (auto simp: decode_prefix_def ae_fits_def addr_octets_def v6_new net_wf_def)
  qed
qed

end

lemma decode_sub_tlvs_loop_put:
  assumes "put_tlv type body = Inr out" "type \<noteq> 0"
  shows "decode_sub_tlvs_loop N ctx dst (out @ rest) r =
    decode_sub_tlvs_loop N ctx dst rest (decode_sub_tlv N ctx dst type body r)"
  using assms by (auto simp: put_tlv_Inr unat_length_octet)

lemma decode_sub_tlv_encode:
  assumes "encode_sub_tlv s = Inr out" "sub_ok ctx s"
  shows "decode_sub_tlvs_loop N ctx dst (out @ rest) r =
    decode_sub_tlvs_loop N ctx dst rest (r\<lparr>sub_values := sub_values r @ sub_sent [s]\<rparr>)"
proof (cases s)
  case (TimestampHello v)
  then have p: "put_tlv SUBTLV_TIMESTAMP (to_be_bytes v) = Inr out" using assms(1) by (simp add: encode_sub_tlv_def)
  show ?thesis using TimestampHello assms(2) be32_to_be_bytes [of v "[]"]
    by (simp add: decode_sub_tlvs_loop_put [OF p] sub_ok_def sub_sent_def decode_sub_tlv_def push_sub_def)
next
  case (TimestampIhu a b)
  then have p: "put_tlv SUBTLV_TIMESTAMP (to_be_bytes a @ to_be_bytes b) = Inr out"
    using assms(1) by (simp add: encode_sub_tlv_def)
  have d: "drop 4 (to_be_bytes a @ to_be_bytes b) = to_be_bytes b @ []" by simp
  show ?thesis using TimestampIhu assms(2)
    by (simp add: decode_sub_tlvs_loop_put [OF p] sub_ok_def sub_sent_def decode_sub_tlv_def push_sub_def
        be32_to_be_bytes d del: drop_append append_Nil2)
next
  case (SubPadN v)
  then have p: "put_tlv 1 v = Inr out" using assms(1) by (simp add: encode_sub_tlv_def and_then_Inr)
  show ?thesis using SubPadN
    by (simp add: decode_sub_tlvs_loop_put [OF p] sub_sent_def decode_sub_tlv_def push_sub_def)
next
  case (SubUnknown t v)
  then have p: "put_tlv t v = Inr out" and t: "t \<noteq> 0" using assms by (simp_all add: encode_sub_tlv_def sub_ok_def)
  show ?thesis using SubUnknown assms(2)
    by (simp add: decode_sub_tlvs_loop_put [OF p t] sub_sent_def sub_ok_def decode_sub_tlv_def push_sub_def)
qed (use assms in \<open>auto simp: encode_sub_tlv_def sub_sent_def push_sub_def\<close>)

lemma decode_sub_tlvs_encode:
  assumes "encode_sub_tlvs ss = Inr out" "list_all (sub_ok ctx) ss"
  shows "decode_sub_tlvs_loop N ctx dst (out @ rest) r =
    decode_sub_tlvs_loop N ctx dst rest (r\<lparr>sub_values := sub_values r @ sub_sent ss\<rparr>)"
  using assms
proof (induction ss arbitrary: out r)
  case Nil
  then show ?case by (simp add: sub_sent_def)
next
  case (Cons s ss)
  then obtain o1 o2 where o1: "encode_sub_tlv s = Inr o1" and o2: "encode_sub_tlvs ss = Inr o2" and out: "out = o1 @ o2"
    by (auto simp: append_result_def and_then_Inr)
  then show ?case using Cons.IH [OF o2] Cons.prems decode_sub_tlv_encode [OF o1]
    by (simp add: sub_sent_def)
qed

lemma decode_address_link_local:
  assumes "take 8 (to_be_bytes x) = [0xfe, 0x80, 0, 0, 0, 0, 0, 0]"
  shows "decode_address Ipv6LinkLocal (drop 8 (to_be_bytes x)) = Some (V6 x)"
proof -
  have "[0xfe, 0x80, 0, 0, 0, 0, 0, 0] @ drop 8 (to_be_bytes x) = to_be_bytes x"
    unfolding assms [symmetric] by (rule append_take_drop_id)
  moreover have "length (drop 8 (to_be_bytes x)) = 8" by simp
  ultimately show ?thesis by (simp only: decode_address_def address_encoding.case) simp
qed

lemma encode_address_round_trip:
  assumes "addr_ok a" "encode_address a = (ae, bytes)"
  shows "address_len ae = Some (length bytes)" "decode_address ae bytes = Some a"
    "ae \<noteq> Wildcard" "ae \<noteq> Ipv4ViaIpv6"
proof -
  have "address_len ae = Some (length bytes) \<and> decode_address ae bytes = Some a
    \<and> ae \<noteq> Wildcard \<and> ae \<noteq> Ipv4ViaIpv6"
  proof (cases a)
    case (V4 x)
    then have "ae = Ipv4" "bytes = to_be_bytes x" using assms(2) by (simp_all add: encode_address_def)
    then show ?thesis using V4 by (simp add: address_len_def decode_address_def)
  next
    case (V6 x)
    show ?thesis
    proof (cases "v6_is_unicast_link_local x")
      case True
      then have "ae = Ipv6LinkLocal" "bytes = drop 8 (to_be_bytes x)"
        using assms(2) V6 by (simp_all add: encode_address_def)
      moreover have "take 8 (to_be_bytes x) = [0xfe, 0x80, 0, 0, 0, 0, 0, 0]"
        using assms(1) V6 True by (simp add: addr_ok_def)
      ultimately show ?thesis using V6 by (simp add: address_len_def decode_address_link_local)
    next
      case False
      then have "ae = Ipv6" "bytes = to_be_bytes x" using assms(2) V6 by (simp_all add: encode_address_def)
      then show ?thesis using V6 by (simp add: address_len_def decode_address_def)
    qed
  qed
  then show "address_len ae = Some (length bytes)" "decode_address ae bytes = Some a"
    "ae \<noteq> Wildcard" "ae \<noteq> Ipv4ViaIpv6" by simp_all
qed

text \<open>
  C29. An address survives \<open>encode_address\<close> and \<open>decode_address\<close> exactly when it is not a
  link-local IPv6 address, or one whose bits 10 to 63 are zero. The encoder uses the short
  link-local encoding for all of \<open>fe80::/10\<close> and the decoder rebuilds \<open>fe80::/64\<close>, so a next hop
  such as \<open>fe80:1::1\<close> arrives as \<open>fe80::1\<close>.
\<close>

theorem address_round_trip_iff:
  "(case encode_address a of (ae, bytes) \<Rightarrow> decode_address ae bytes) = Some a \<longleftrightarrow> addr_ok a"
proof
  assume *: "(case encode_address a of (ae, bytes) \<Rightarrow> decode_address ae bytes) = Some a"
  show "addr_ok a"
  proof (cases a)
    case (V4 x)
    then show ?thesis by (simp add: addr_ok_def)
  next
    case (V6 x)
    have "take 8 (to_be_bytes x) = [0xfe, 0x80, 0, 0, 0, 0, 0, 0]" if l: "v6_is_unicast_link_local x"
    proof -
      let ?raw = "[0xfe, 0x80, 0, 0, 0, 0, 0, 0] @ drop 8 (to_be_bytes x)"
      have "length (drop 8 (to_be_bytes x)) = 8" by simp
      then have "decode_address Ipv6LinkLocal (drop 8 (to_be_bytes x)) = Some (V6 (from_be_bytes ?raw))"
        by (simp add: decode_address_def)
      then have "x = from_be_bytes ?raw" using * V6 l by (simp add: encode_address_def)
      moreover have "to_be_bytes (from_be_bytes ?raw :: ipv6) = ?raw" by (rule to_from_be_bytes) simp
      ultimately have "to_be_bytes x = ?raw" by (simp only:)
      then have "take 8 (to_be_bytes x) = take 8 ?raw" by (simp only:)
      then show ?thesis by simp
    qed
    then show ?thesis using V6 by (simp add: addr_ok_def)
  qed
next
  assume "addr_ok a"
  then show "(case encode_address a of (ae, bytes) \<Rightarrow> decode_address ae bytes) = Some a"
    using encode_address_round_trip(2) by (cases "encode_address a") simp
qed

context ipnet_package
begin

lemma key_okD:
  assumes "key_ok N k"
  shows "trunc N (destination k) = destination k" "net_wf (destination k)"
    and "\<And>s. source k = Some s \<Longrightarrow> trunc N s = s \<and> net_wf s \<and> prefix_len s \<noteq> 0
          \<and> is_ipv4 (net_addr s) = is_ipv4 (net_addr (destination k))"
  using assms by (cases k; auto simp: key_ok_def route_key_new_def Let_def split: if_splits option.splits)+

lemma ae_fits_key:
  assumes "v4_via_v6 \<longrightarrow> is_ipv4 (net_addr (destination k))"
    and "is_ipv4 (net_addr p) = is_ipv4 (net_addr (destination k))"
  shows "ae_fits (ae_for_key k v4_via_v6) p"
  using assms by (cases p; cases "destination k") (auto simp: ae_fits_def ae_for_key_def)

lemma decode_source_prefix_encode:
  assumes k: "key_ok N k" and v: "v4_via_v6 \<longrightarrow> is_ipv4 (net_addr (destination k))"
    and e: "encode_source_prefix (source k) ae = Inr out" and ae: "ae = ae_for_key k v4_via_v6"
    and r: "sub_source_prefix r = None"
  shows "decode_sub_tlvs_loop N (SubPrefix ae) (Some (destination k)) (out @ rest) r =
    decode_sub_tlvs_loop N (SubPrefix ae) (Some (destination k)) rest (r\<lparr>sub_source_prefix := source k\<rparr>)"
proof (cases "source k")
  case None
  moreover have "r\<lparr>sub_source_prefix := None\<rparr> = r" using r by (cases r) simp
  ultimately show ?thesis using e by (auto simp: encode_source_prefix_def)
next
  case (Some s)
  note s = key_okD(3) [OF k Some]
  have f: "ae_fits ae s" using ae_fits_key [OF v, of s] s ae by simp
  then have nw: "ae \<noteq> Wildcard" by (auto simp: ae_fits_def split: ip_net.splits)
  note w = decode_prefix_wire [OF _ _ f]
  have p: "put_tlv SUBTLV_SOURCE_PREFIX (prefix_len s # prefix_wire_bytes s ae) = Inr out"
    using e Some by (simp add: encode_source_prefix_def)
  show ?thesis
    by (simp add: decode_sub_tlvs_loop_put [OF p] decode_sub_tlv_def decode_source_prefix_def r nw s w
        slice_def Some)
qed

lemma decode_key_subs:
  assumes k: "key_ok N k" and v: "v4_via_v6 \<longrightarrow> is_ipv4 (net_addr (destination k))"
    and ae: "ae = ae_for_key k v4_via_v6"
    and e: "encode_source_prefix (source k) ae = Inr o1" "encode_sub_tlvs ss = Inr o2"
    and ok: "list_all (sub_ok (SubPrefix ae)) ss"
  shows "decode_sub_tlvs N (o1 @ o2) (SubPrefix ae) (Some (destination k)) =
    Inr \<lparr>sub_values = sub_sent ss, sub_source_prefix = source k, sub_mandatory_unknown = False\<rparr>"
  using decode_source_prefix_encode [OF k v e(1) ae, of decoded_sub_tlvs_default o2]
    decode_sub_tlvs_encode [OF e(2) ok, of N "Some (destination k)" "[]"]
  by (simp add: decode_sub_tlvs_def decoded_sub_tlvs_default_def)

lemma decode_key_prefix:
  assumes k: "key_ok N k" and v: "v4_via_v6 \<longrightarrow> is_ipv4 (net_addr (destination k))"
    and ae: "ae = ae_for_key k v4_via_v6"
  defines "w \<equiv> prefix_wire_bytes (destination k) ae"
  shows "prefix_encoded_len ae (prefix_len (destination k)) = Some (length w)"
    and "decode_prefix N ae (prefix_len (destination k)) 0 w None = Some (destination k)"
    and "route_key_new N (destination k) (source k) = Some k"
  using decode_prefix_wire [of "destination k" ae] key_okD [OF k] ae_fits_key [OF v refl] ae k
  by (auto simp: w_def key_ok_def)

end

lemma decode_sub_tlvs_round_trip:
  assumes "encode_sub_tlvs ss = Inr out" "list_all (sub_ok ctx) ss"
  shows "decode_sub_tlvs N out ctx dst =
    Inr \<lparr>sub_values = sub_sent ss, sub_source_prefix = None, sub_mandatory_unknown = False\<rparr>"
  using decode_sub_tlvs_encode [OF assms, of N dst "[]" decoded_sub_tlvs_default]
  by (simp add: decode_sub_tlvs_def decoded_sub_tlvs_default_def)

lemma decodes_nil [simp]: "decodes N [] st [] st"
proof -
  have "and_then r (\<lambda>(us, st''). Inr ([] @ us, st'')) = r" for r :: "(tlv list \<times> parser_state) wire_result"
    by (cases r) auto
  then show ?thesis by (simp add: decodes_def)
qed

lemma decodes_append:
  assumes "decodes N o1 st ts1 st1" "decodes N o2 st1 ts2 st2"
  shows "decodes N (o1 @ o2) st (ts1 @ ts2) st2"
proof -
  have "and_then (and_then r (\<lambda>(us, st''). Inr (ts2 @ us, st''))) (\<lambda>(us, st''). Inr (ts1 @ us, st'')) =
      and_then r (\<lambda>(us, st''). Inr ((ts1 @ ts2) @ us, st''))" for r :: "(tlv list \<times> parser_state) wire_result"
    by (cases r) auto
  then show ?thesis using assms by (simp add: decodes_def)
qed

lemma decodes_body: "decodes N out st ts st' \<Longrightarrow> decode_body N out st = Inr (ts, st')"
  unfolding decodes_def by (metis (no_types, lifting) and_then.simps(2) append_Nil2 case_prod_conv decode_body.simps(1))

lemma decodes_put:
  assumes "put_tlv type value = Inr out" "type \<noteq> 0" "decode_tlv N type value st = Inr (Some t, st')"
  shows "decodes N out st [t] st'"
  using assms by (auto simp: decodes_def put_tlv_Inr unat_length_octet)

lemma decodes_router_id:
  assumes "encode_router_id i = Inr out" "router_id_new (octets i) = Some i"
  shows "decodes N out st [RouterIdTlv i] (st\<lparr>ps_router_id := Some i\<rparr>)"
proof -
  have p: "put_tlv TLV_ROUTER_ID ([0, 0] @ to_be_bytes (octets i)) = Inr out"
    using assms(1) by (simp add: encode_router_id_def)
  have "slice 2 10 ([0, 0] @ to_be_bytes (octets i)) = to_be_bytes (octets i)" by (simp add: slice_def)
  then have "decode_tlv N TLV_ROUTER_ID ([0, 0] @ to_be_bytes (octets i)) st =
      Inr (Some (RouterIdTlv i), st\<lparr>ps_router_id := Some i\<rparr>)"
    by (simp add: decode_tlv_def decode_router_id_def assms(2) has_unknown_mandatory_def
        decode_sub_tlvs_def decoded_sub_tlvs_default_def)
  then show ?thesis by (intro decodes_put [OF p]) simp_all
qed

lemma decodes_next_hop:
  assumes "encode_next_hop a = Inr out" "addr_ok a"
  shows "decodes N out st [NextHop a]
    (if is_ipv4 a then st\<lparr>ps_next_hop_v4 := Some a\<rparr> else st\<lparr>ps_next_hop_v6 := Some a\<rparr>)"
proof -
  obtain ae bytes where e: "encode_address a = (ae, bytes)" by (cases "encode_address a")
  have p: "put_tlv TLV_NEXT_HOP ([ae_as_u8 ae, 0] @ bytes) = Inr out"
    using assms(1) e by (simp add: encode_next_hop_def)
  note r = encode_address_round_trip [OF assms(2) e]
  have "slice 2 (2 + length bytes) ([ae_as_u8 ae, 0] @ bytes) = bytes" by (simp add: slice_def)
  then have "decode_tlv N TLV_NEXT_HOP ([ae_as_u8 ae, 0] @ bytes) st = Inr (Some (NextHop a),
      if is_ipv4 a then st\<lparr>ps_next_hop_v4 := Some a\<rparr> else st\<lparr>ps_next_hop_v6 := Some a\<rparr>)"
    by (simp add: decode_tlv_def decode_next_hop_def r has_unknown_mandatory_def
        decode_sub_tlvs_def decoded_sub_tlvs_default_def Let_def)
  then show ?thesis by (intro decodes_put [OF p]) simp_all
qed

lemma semantic_append [simp]: "semantic (xs @ ys) = semantic xs @ semantic ys"
  by (simp add: semantic_def)

lemma semantic_Nil [simp]: "semantic [] = []"
  by (simp add: semantic_def)

lemma semantic_context [simp]: "semantic [RouterIdTlv i] = []" "semantic [NextHop a] = []"
  by (simp_all add: semantic_def is_context_tlv_def)

lemma decode_prefix_none_omitted: "decode_prefix N ae plen 0 suffix previous = decode_prefix N ae plen 0 suffix None"
  by (simp add: decode_prefix_def)

lemma decode_tlv_wildcard_update:
  assumes "encode_update u = Inr out" "ou_key u = None" "ou_metric u = INFINITY" "ou_interval_cs u \<noteq> 0"
  shows "decodes N out st [Update (delivered_update src u)] st"
proof -
  obtain a b where 1: "to_be_bytes (ou_interval_cs u) = [a, b]" "\<And>rest. be16 (a # b # rest) = ou_interval_cs u"
    using u16_octets [of "ou_interval_cs u"] by blast
  obtain c d where 2: "to_be_bytes (ou_seqno u) = [c, d]" "\<And>rest. be16 (c # d # rest) = ou_seqno u"
    using u16_octets [of "ou_seqno u"] by blast
  obtain e f where 3: "to_be_bytes (ou_metric u) = [e, f]" "\<And>rest. be16 (e # f # rest) = ou_metric u"
    using u16_octets [of "ou_metric u"] by blast
  have p: "put_tlv TLV_UPDATE [0, 0, 0, 0, a, b, c, d, e, f] = Inr out"
    using assms(1,2) 1(1) 2(1) 3(1) by (simp add: encode_update_def)
  have "decode_tlv N TLV_UPDATE [0, 0, 0, 0, a, b, c, d, e, f] st =
      Inr (Some (Update (delivered_update src u)), st)"
    using assms(2-4)
    by (simp add: decode_tlv_def decode_update_def from_u8_def slice_def 1 2 3 decode_wildcard_update_def
        decode_sub_tlvs_def decoded_sub_tlvs_default_def delivered_update_def Let_def)
  then show ?thesis by (intro decodes_put [OF p]) simp_all
qed

context ipnet_package
begin

lemma decode_tlv_route_update:
  assumes e: "encode_update u = Inr out" and k: "ou_key u = Some k" and ok: "update_ok N src u"
    and i: "ou_interval_cs u \<noteq> 0"
    and ctx: "ou_metric u \<noteq> INFINITY \<Longrightarrow> ps_router_id st = ou_router_id u \<and>
      (if is_ipv4 (net_addr (destination k)) \<and> \<not> ou_v4_via_v6 u then ps_next_hop_v4 st else ps_next_hop_v6 st)
        = Some (case ou_next_hop u of None \<Rightarrow> src | Some nh \<Rightarrow> nh)"
  shows "\<exists>t. decodes N out st [t] st \<and> semantic [t] = [Update (delivered_update src u)]"
proof -
  define ae where "ae = ae_for_key k (ou_v4_via_v6 u)"
  have kk: "key_ok N k" and v: "ou_v4_via_v6 u \<longrightarrow> is_ipv4 (net_addr (destination k))"
    and so: "list_all (sub_ok (SubPrefix ae)) (ou_sub_tlvs u)"
    using ok k by (auto simp: update_ok_def ae_def)
  have aes: "ae \<noteq> Wildcard" "ae \<noteq> Ipv6LinkLocal" "ae = Ipv4ViaIpv6 \<longleftrightarrow> ou_v4_via_v6 u"
    using v by (auto simp: ae_def ae_for_key_def)
  obtain o1 o2 where s: "encode_source_prefix (source k) ae = Inr o1" "encode_sub_tlvs (ou_sub_tlvs u) = Inr o2"
    and p0: "put_tlv TLV_UPDATE ([ae_as_u8 ae, 0, prefix_len (destination k), 0] @ to_be_bytes (ou_interval_cs u)
      @ to_be_bytes (ou_seqno u) @ to_be_bytes (ou_metric u) @ prefix_wire_bytes (destination k) ae @ o1 @ o2) = Inr out"
    using e k by (auto simp: encode_update_def Let_def ae_def [symmetric] and_then_Inr)
  obtain a b where 1: "to_be_bytes (ou_interval_cs u) = [a, b]" "\<And>rest. be16 (a # b # rest) = ou_interval_cs u"
    using u16_octets [of "ou_interval_cs u"] by blast
  obtain c d where 2: "to_be_bytes (ou_seqno u) = [c, d]" "\<And>rest. be16 (c # d # rest) = ou_seqno u"
    using u16_octets [of "ou_seqno u"] by blast
  obtain f g where 3: "to_be_bytes (ou_metric u) = [f, g]" "\<And>rest. be16 (f # g # rest) = ou_metric u"
    using u16_octets [of "ou_metric u"] by blast
  define w where "w = prefix_wire_bytes (destination k) ae"
  define val where "val = [ae_as_u8 ae, 0, prefix_len (destination k), 0, a, b, c, d, f, g] @ w @ o1 @ o2"
  have p: "put_tlv TLV_UPDATE val = Inr out" using p0 1(1) 2(1) 3(1) by (simp add: val_def w_def)
  note pre = decode_key_prefix [OF kk v ae_def, folded w_def]
  have sub: "decode_sub_tlvs N (drop (10 + length w) val) (SubPrefix ae) (Some (destination k)) =
      Inr \<lparr>sub_values = sub_sent (ou_sub_tlvs u), sub_source_prefix = source k, sub_mandatory_unknown = False\<rparr>"
  proof -
    have "drop (length w) (drop 10 val) = o1 @ o2" by (simp add: val_def)
    then have "drop (10 + length w) val = o1 @ o2" by (simp only: drop_drop add.commute)
    then show ?thesis using decode_key_subs [OF kk v ae_def s so] by simp
  qed
  have pp: "decode_prefix N ae (prefix_len (destination k)) 0 w prev = Some (destination k)" for prev
    using pre(2) by (simp only: decode_prefix_none_omitted [of _ _ _ _ prev])
  have r: "decode_update N val st = resolve_update N val ae (destination k) (10 + length w) st"
    using i aes pre(1)
    by (simp add: decode_update_def val_def slice_def 1(2) 3(2) pp apply_update_flags_def Let_def)
  define t where "t = \<lparr>ru_key = Some k, ru_router_id = ps_router_id st,
      ru_next_hop = ru_next_hop (delivered_update src u),
      ru_interval_cs = ou_interval_cs u, ru_seqno = ou_seqno u, ru_metric = ou_metric u,
      ru_v4_via_v6 = ou_v4_via_v6 u, ru_sub_tlvs = sub_sent (ou_sub_tlvs u)\<rparr>"
  have f: "be16 (slice 8 10 val) = ou_metric u" "be16 (slice 4 6 val) = ou_interval_cs u"
    "be16 (slice 6 8 val) = ou_seqno u"
    by (simp_all add: val_def slice_def 1(2) 2(2) 3(2))
  have "resolve_update N val ae (destination k) (10 + length w) st = Inr (Some (Update t), st)"
  proof (cases "ou_metric u = INFINITY")
    case True
    then show ?thesis
      by (simp add: resolve_update_def sub f pre(3) aes t_def delivered_update_def Let_def)
  next
    case False
    then have "ps_router_id st \<noteq> None" using ok k ctx by (auto simp: update_ok_def split: option.splits)
    then show ?thesis using ctx [OF False] False
      by (auto simp: resolve_update_def sub f pre(3) aes t_def delivered_update_def Let_def split: if_splits)
  qed
  then have "decode_tlv N TLV_UPDATE val st = Inr (Some (Update t), st)"
    using r by (simp add: decode_tlv_def)
  then have "decodes N out st [Update t] st" by (intro decodes_put [OF p]) simp_all
  moreover have "semantic [Update t] = [Update (delivered_update src u)]"
    using ctx k by (auto simp: semantic_def is_context_tlv_def retraction_without_origin_def t_def
        delivered_update_def Let_def)
  ultimately show ?thesis by blast
qed

end

lemma decodes_ack_request:
  assumes p: "put_tlv TLV_ACK_REQ ([0, 0] @ to_be_bytes nonce @ to_be_bytes interval) = Inr out" and i: "interval \<noteq> 0"
  shows "decodes N out st [AckRequest nonce interval] st"
proof -
  obtain a b where 1: "to_be_bytes nonce = [a, b]" "\<And>rest. be16 (a # b # rest) = nonce"
    using u16_octets [of nonce] by blast
  obtain f g where 2: "to_be_bytes interval = [f, g]" "\<And>rest. be16 (f # g # rest) = interval"
    using u16_octets [of interval] by blast
  have "decode_tlv N TLV_ACK_REQ ([0, 0] @ to_be_bytes nonce @ to_be_bytes interval) st =
      Inr (Some (AckRequest nonce interval), st)"
    using i by (simp add: decode_tlv_def with_state_def decode_ack_request_def slice_def 1 2
        has_unknown_mandatory_def decode_sub_tlvs_def decoded_sub_tlvs_default_def)
  then show ?thesis by (intro decodes_put [OF p]) simp_all
qed

lemma decodes_ack:
  assumes p: "put_tlv TLV_ACK (to_be_bytes nonce) = Inr out"
  shows "decodes N out st [Ack nonce] st"
proof -
  obtain a b where 1: "to_be_bytes nonce = [a, b]" "\<And>rest. be16 (a # b # rest) = nonce"
    using u16_octets [of nonce] by blast
  have "decode_tlv N TLV_ACK (to_be_bytes nonce) st = Inr (Some (Ack nonce), st)"
    by (simp add: decode_tlv_def with_state_def decode_ack_def 1
        has_unknown_mandatory_def decode_sub_tlvs_def decoded_sub_tlvs_default_def)
  then show ?thesis by (intro decodes_put [OF p]) simp_all
qed

lemma decodes_hello:
  assumes "encode_hello unicast seqno interval ss = Inr out" "list_all (sub_ok SubHello) ss"
  shows "decodes N out st [Hello unicast seqno interval (sub_sent ss)] st"
proof -
  define flags :: u16 where "flags = (if unicast then 0x8000 else 0)"
  have fl: "flags AND 0x8000 \<noteq> 0 \<longleftrightarrow> unicast" by (simp add: flags_def)
  obtain a b where 1: "to_be_bytes flags = [a, b]" "\<And>rest. be16 (a # b # rest) = flags"
    using u16_octets [of flags] by blast
  obtain c d where 2: "to_be_bytes seqno = [c, d]" "\<And>rest. be16 (c # d # rest) = seqno"
    using u16_octets [of seqno] by blast
  obtain e f where 3: "to_be_bytes interval = [e, f]" "\<And>rest. be16 (e # f # rest) = interval"
    using u16_octets [of interval] by blast
  obtain o2 where s: "encode_sub_tlvs ss = Inr o2"
    and p: "put_tlv TLV_HELLO ([a, b, c, d, e, f] @ o2) = Inr out"
    using assms(1) 1(1) 2(1) 3(1) by (auto simp: encode_hello_def and_then_Inr flags_def [symmetric])
  have "decode_tlv N TLV_HELLO ([a, b, c, d, e, f] @ o2) st =
      Inr (Some (Hello unicast seqno interval (sub_sent ss)), st)"
    by (simp add: decode_tlv_def with_state_def decode_hello_def slice_def 1(2) 2(2) 3(2) fl
        decode_sub_tlvs_round_trip [OF s assms(2)])
  then show ?thesis by (intro decodes_put [OF p]) simp_all
qed

lemma decodes_ihu:
  assumes "encode_ihu a rxcost interval ss = Inr out" "list_all (sub_ok SubIhu) ss"
    "case a of None \<Rightarrow> True | Some x \<Rightarrow> addr_ok x"
  shows "decodes N out st [Ihu a rxcost interval (sub_sent ss)] st"
proof -
  obtain ae bytes where e: "encode_optional_address a = (ae, bytes)" by (cases "encode_optional_address a")
  obtain c d where 2: "to_be_bytes rxcost = [c, d]" "\<And>rest. be16 (c # d # rest) = rxcost"
    using u16_octets [of rxcost] by blast
  obtain f g where 3: "to_be_bytes interval = [f, g]" "\<And>rest. be16 (f # g # rest) = interval"
    using u16_octets [of interval] by blast
  obtain o2 where s: "encode_sub_tlvs ss = Inr o2" and i: "interval \<noteq> 0"
    and p: "put_tlv TLV_IHU ([ae_as_u8 ae, 0, c, d, f, g] @ bytes @ o2) = Inr out"
    using assms(1) 2(1) 3(1) e by (auto simp: encode_ihu_def and_then_Inr require_nonzero_def split: if_splits)
  define val where "val = [ae_as_u8 ae, 0, c, d, f, g] @ bytes @ o2"
  have l: "address_len ae = Some (length bytes)" "ae \<noteq> Ipv4ViaIpv6"
    "(if ae = Wildcard then Inr None else and_then (ok_or (InvalidTlv TLV_IHU) (decode_address ae bytes)) (\<lambda>a. Inr (Some a)))
      = Inr a"
    using e assms(3) encode_address_round_trip [of _ ae bytes]
    by (cases a; auto simp: encode_optional_address_def)+
  have "drop (length bytes) (drop 6 val) = o2" by (simp add: val_def)
  then have d: "drop (6 + length bytes) val = o2" by (simp only: drop_drop add.commute)
  have v: "slice 6 (6 + length bytes) val = bytes" "val ! 0 = ae_as_u8 ae" "\<not> length val < 6 + length bytes"
    "\<not> length val < 6" "be16 (slice 2 4 val) = rxcost" "be16 (slice 4 6 val) = interval"
    by (simp_all add: slice_def val_def 2(2) 3(2))
  have "decode_ihu N val = Inr (Some (Ihu a rxcost interval (sub_sent ss)))"
    unfolding decode_ihu_def Let_def v from_u8_ae l option.case ok_or_Some and_then.simps d
      decode_sub_tlvs_round_trip [OF s assms(2)]
    using i l v by simp
  then have "decode_tlv N TLV_IHU val st = Inr (Some (Ihu a rxcost interval (sub_sent ss)), st)"
    by (simp add: decode_tlv_def with_state_def)
  then show ?thesis by (intro decodes_put [OF p [folded val_def]]) simp_all
qed

context ipnet_package
begin

lemma decodes_route_request:
  assumes e: "encode_route_request key ss = Inr out" and ok: "tlv_ok N src (OutRouteRequest key ss)"
  shows "decodes N out st [RouteRequest key (sub_sent ss)] st"
proof (cases key)
  case None
  then obtain o2 where s: "encode_sub_tlvs ss = Inr o2" and p: "put_tlv TLV_ROUTE_REQUEST ([0, 0] @ o2) = Inr out"
    using e by (auto simp: encode_route_request_def and_then_Inr)
  have "decode_tlv N TLV_ROUTE_REQUEST ([0, 0] @ o2) st = Inr (Some (RouteRequest None (sub_sent ss)), st)"
    using ok None decode_sub_tlvs_round_trip [OF s, of "SubPrefix Wildcard"]
    by (simp add: decode_tlv_def with_state_def decode_route_request_def from_u8_def tlv_ok_def)
  then show ?thesis using None by (intro decodes_put [OF p]) simp_all
next
  case (Some k)
  define ae where "ae = ae_for_key k False"
  define w where "w = prefix_wire_bytes (destination k) ae"
  have kk: "key_ok N k" and so: "list_all (sub_ok (SubPrefix ae)) ss"
    using ok Some by (auto simp: tlv_ok_def ae_def)
  have ff: "False \<longrightarrow> is_ipv4 (net_addr (destination k))" by simp
  have aes: "ae \<noteq> Wildcard" by (auto simp: ae_def ae_for_key_def)
  obtain o1 o2 where s: "encode_source_prefix (source k) ae = Inr o1" "encode_sub_tlvs ss = Inr o2"
    and p: "put_tlv TLV_ROUTE_REQUEST ([ae_as_u8 ae, prefix_len (destination k)] @ w @ o1 @ o2) = Inr out"
    using e Some by (auto simp: encode_route_request_def Let_def ae_def [symmetric] w_def [symmetric] and_then_Inr)
  define val where "val = [ae_as_u8 ae, prefix_len (destination k)] @ w @ o1 @ o2"
  note pre = decode_key_prefix [OF kk ff ae_def, folded w_def]
  have "drop (length w) (drop 2 val) = o1 @ o2" by (simp add: val_def)
  then have d: "drop (2 + length w) val = o1 @ o2" by (simp only: drop_drop add.commute)
  have v: "slice 2 (2 + length w) val = w" "val ! 0 = ae_as_u8 ae" "val ! 1 = prefix_len (destination k)"
    "\<not> length val < 2 + length w" "\<not> length val < 2"
    by (simp_all add: slice_def val_def)
  have "decode_route_request N val = Inr (Some (RouteRequest key (sub_sent ss)))"
    unfolding decode_route_request_def Let_def v from_u8_ae option.case pre ok_or_Some and_then.simps d
      decode_key_subs [OF kk ff ae_def s so]
    using aes Some v by (simp add: pre)
  then have "decode_tlv N TLV_ROUTE_REQUEST val st = Inr (Some (RouteRequest key (sub_sent ss)), st)"
    by (simp add: decode_tlv_def with_state_def)
  then show ?thesis by (intro decodes_put [OF p [folded val_def]]) simp_all
qed

lemma decodes_seqno_request:
  assumes e: "encode_seqno_request k seqno hops i ss = Inr out"
    and ok: "tlv_ok N src (OutSeqnoRequest k seqno hops i ss)"
  shows "decodes N out st [SeqnoRequest k seqno hops i (sub_sent ss)] st"
proof -
  define ae where "ae = ae_for_key k False"
  define w where "w = prefix_wire_bytes (destination k) ae"
  define ib where "ib = to_be_bytes (octets i)"
  have kk: "key_ok N k" and so: "list_all (sub_ok (SubPrefix ae)) ss" and ri: "router_id_new (octets i) = Some i"
    using ok by (auto simp: tlv_ok_def ae_def router_id_ok_def)
  have ff: "False \<longrightarrow> is_ipv4 (net_addr (destination k))" by simp
  have aes: "ae \<noteq> Wildcard" by (auto simp: ae_def ae_for_key_def)
  obtain c d where 2: "to_be_bytes seqno = [c, d]" "\<And>rest. be16 (c # d # rest) = seqno"
    using u16_octets [of seqno] by blast
  obtain o1 o2 where s: "encode_source_prefix (source k) ae = Inr o1" "encode_sub_tlvs ss = Inr o2"
    and h: "(ucast hops :: u16) \<noteq> 0"
    and p: "put_tlv TLV_SEQNO_REQUEST
      ([ae_as_u8 ae, prefix_len (destination k), c, d, hops, 0] @ ib @ w @ o1 @ o2) = Inr out"
    using e 2(1) by (auto simp: encode_seqno_request_def Let_def ae_def [symmetric] w_def [symmetric]
        ib_def [symmetric] and_then_Inr require_nonzero_def split: if_splits)
  define val where "val = [ae_as_u8 ae, prefix_len (destination k), c, d, hops, 0] @ ib @ w @ o1 @ o2"
  note pre = decode_key_prefix [OF kk ff ae_def, folded w_def]
  have ibl: "length ib = 8" by (simp add: ib_def)
  have d14: "drop 14 val = w @ o1 @ o2" using ibl by (simp add: val_def)
  then have "drop (length w) (drop 14 val) = o1 @ o2" by simp
  then have d: "drop (14 + length w) val = o1 @ o2" by (simp only: drop_drop add.commute)
  have v: "slice 14 (14 + length w) val = w" "val ! 0 = ae_as_u8 ae" "val ! 1 = prefix_len (destination k)"
    "\<not> length val < 14 + length w" "\<not> length val < 14" "be16 (slice 2 4 val) = seqno" "val ! 4 = hops"
    "slice 6 14 val = ib"
    using d14 ibl by (simp_all add: slice_def val_def 2(2))
  have ib: "from_be_bytes ib = octets i" by (simp add: ib_def)
  have h': "hops \<noteq> 0" using h by auto
  have "decode_seqno_request N val = Inr (Some (SeqnoRequest k seqno hops i (sub_sent ss)))"
    unfolding decode_seqno_request_def Let_def v from_u8_ae option.case pre ok_or_Some and_then.simps d ib ri
      decode_key_subs [OF kk ff ae_def s so]
    using aes h' v by (simp add: pre)
  then have "decode_tlv N TLV_SEQNO_REQUEST val st = Inr (Some (SeqnoRequest k seqno hops i (sub_sent ss)), st)"
    by (simp add: decode_tlv_def with_state_def)
  then show ?thesis by (intro decodes_put [OF p [folded val_def]]) simp_all
qed

end

lemma ctx_rel_default [simp]: "ctx_rel src encode_context_default (parser_state_new src)"
  by (simp add: ctx_rel_def encode_context_default_def)

lemma requires_fresh_default [simp]: "\<not> requires_fresh_next_hop_context t encode_context_default"
  by (auto simp: requires_fresh_next_hop_context_def encode_context_default_def split: outbound_tlv.splits)

lemma parser_state_new_next_hop:
  "is_ipv4 src \<Longrightarrow> ps_next_hop_v4 (parser_state_new src) = Some src"
  "\<not> is_ipv4 src \<Longrightarrow> ps_next_hop_v6 (parser_state_new src) = Some src"
  by (cases src; simp add: parser_state_new_def)+

lemma decodes_router_context:
  assumes "encode_router_context u c = Inr (c1, out)" "update_ok N src u" "ctx_rel src c st"
  shows "\<exists>ts st1. decodes N out st ts st1 \<and> semantic ts = [] \<and> ctx_rel src c1 st1
    \<and> (ou_key u \<noteq> None \<longrightarrow> ou_metric u \<noteq> INFINITY \<longrightarrow> ps_router_id st1 = ou_router_id u)
    \<and> ec_next_hop_v4 c1 = ec_next_hop_v4 c \<and> ec_next_hop_v6 c1 = ec_next_hop_v6 c"
proof (cases "ou_key u \<noteq> None \<and> ou_metric u \<noteq> INFINITY")
  case False
  then have "c1 = c" "out = []" using assms(1) by (auto simp: encode_router_context_def)
  then show ?thesis using assms(3) False
    by (intro exI [of _ "[]"] exI [of _ st]) auto
next
  case True
  then obtain i where i: "ou_router_id u = Some i" "router_id_new (octets i) = Some i"
    using assms(2) by (auto simp: update_ok_def router_id_ok_def split: option.splits)
  show ?thesis
  proof (cases "ec_router_id c = Some i")
    case True
    then have "c1 = c" "out = []" using assms(1) i by (auto simp: encode_router_context_def split: if_splits)
    then show ?thesis using assms(3) i True
      by (intro exI [of _ "[]"] exI [of _ st]) (auto simp: ctx_rel_def)
  next
    case False
    then have e: "encode_router_id i = Inr out" and c1: "c1 = c\<lparr>ec_router_id := Some i\<rparr>"
      using assms(1) i True by (auto simp: encode_router_context_def and_then_Inr)
    show ?thesis
      by (intro exI conjI, rule decodes_router_id [OF e i(2)])
        (use assms(3) i c1 in \<open>auto simp: ctx_rel_def\<close>)
  qed
qed

lemma update_ok_next_hop:
  assumes "update_ok N src u" "ou_next_hop u = Some nh" "ou_metric u \<noteq> INFINITY"
  shows "addr_ok nh" "is_ipv4 nh = wants_v4 u" "ou_v4_via_v6 u \<or> \<not> is_ipv4 nh \<longleftrightarrow> \<not> wants_v4 u"
  using assms by (auto simp: update_ok_def wants_v4_def split: option.splits)

lemma decodes_next_hop_context:
  assumes "encode_next_hop_context u c = Inr (c1, out)" "update_ok N src u" "ctx_rel src c st"
    and fresh: "ou_next_hop u = None \<Longrightarrow> ou_metric u \<noteq> INFINITY \<Longrightarrow>
      (if wants_v4 u then ec_next_hop_v4 c else ec_next_hop_v6 c) = None"
  shows "\<exists>ts st1. decodes N out st ts st1 \<and> semantic ts = [] \<and> ctx_rel src c1 st1
    \<and> ps_router_id st1 = ps_router_id st
    \<and> (ou_metric u \<noteq> INFINITY \<longrightarrow> (if wants_v4 u then ps_next_hop_v4 st1 else ps_next_hop_v6 st1)
          = Some (case ou_next_hop u of None \<Rightarrow> src | Some nh \<Rightarrow> nh))"
proof (cases "ou_metric u = INFINITY \<or> ou_next_hop u = None")
  case True
  then have c: "c1 = c" "out = []" using assms(1) by (auto simp: encode_next_hop_context_def split: option.splits)
  have "(if wants_v4 u then ps_next_hop_v4 st else ps_next_hop_v6 st) = Some src"
    if "ou_metric u \<noteq> INFINITY" "ou_next_hop u = None"
  proof -
    have "is_ipv4 src = wants_v4 u" using assms(2) that by (auto simp: update_ok_def wants_v4_def split: option.splits)
    then show ?thesis using fresh [OF that(2,1)] assms(3)
      by (auto simp: ctx_rel_def parser_state_new_next_hop split: if_splits)
  qed
  then show ?thesis using assms(3) True c
    by (intro exI [of _ "[]"] exI [of _ st]) auto
next
  case False
  then obtain nh where nh: "ou_next_hop u = Some nh" "ou_metric u \<noteq> INFINITY" by auto
  note ok = update_ok_next_hop [OF assms(2) nh]
  let ?cur = "if wants_v4 u then ec_next_hop_v4 c else ec_next_hop_v6 c"
  show ?thesis
  proof (cases "?cur = Some nh")
    case True
    then have "c1 = c" "out = []"
      using assms(1) nh ok(3) by (auto simp: encode_next_hop_context_def split: if_splits)
    then show ?thesis using assms(3) nh True
      by (intro exI [of _ "[]"] exI [of _ st]) (auto simp: ctx_rel_def split: if_splits)
  next
    case False
    then have e: "encode_next_hop nh = Inr out"
      and c1: "c1 = (if wants_v4 u then c\<lparr>ec_next_hop_v4 := Some nh\<rparr> else c\<lparr>ec_next_hop_v6 := Some nh\<rparr>)"
      using assms(1) nh ok(3) by (auto simp: encode_next_hop_context_def and_then_Inr split: if_splits)
    show ?thesis
      by (intro exI conjI, rule decodes_next_hop [OF e ok(1)])
        (use assms(3) ok(2) nh c1 in \<open>auto simp: ctx_rel_def\<close>)
  qed
qed

context ipnet_package
begin

lemma decodes_update:
  assumes e: "encode_update_tlv u c = Inr (c', out)" and ok: "update_ok N src u" and rel: "ctx_rel src c st"
    and fresh: "\<not> requires_fresh_next_hop_context (OutUpdate u) c"
  shows "\<exists>ts st'. decodes N out st ts st' \<and> semantic ts = [Update (delivered_update src u)] \<and> ctx_rel src c' st'"
proof -
  obtain c1 o1 o2 o3 where 1: "encode_router_context u c = Inr (c1, o1)"
    and 2: "encode_next_hop_context u c1 = Inr (c', o2)" and 3: "encode_update u = Inr o3"
    and out: "out = o1 @ o2 @ o3" and i: "ou_interval_cs u \<noteq> 0"
    using e by (auto simp: encode_update_tlv_def and_then_Inr require_nonzero_def split: if_splits)
  obtain ts1 st1 where d1: "decodes N o1 st ts1 st1" "semantic ts1 = []" "ctx_rel src c1 st1"
    and r1: "ou_key u \<noteq> None \<longrightarrow> ou_metric u \<noteq> INFINITY \<longrightarrow> ps_router_id st1 = ou_router_id u"
    and n1: "ec_next_hop_v4 c1 = ec_next_hop_v4 c" "ec_next_hop_v6 c1 = ec_next_hop_v6 c"
    using decodes_router_context [OF 1 ok rel] by blast
  have fr: "(if wants_v4 u then ec_next_hop_v4 c1 else ec_next_hop_v6 c1) = None"
    if "ou_next_hop u = None" "ou_metric u \<noteq> INFINITY"
    using fresh ok that n1
    by (auto simp: requires_fresh_next_hop_context_def update_ok_def wants_v4_def split: option.splits if_splits)
  obtain ts2 st2 where d2: "decodes N o2 st1 ts2 st2" "semantic ts2 = []" "ctx_rel src c' st2"
    and r2: "ps_router_id st2 = ps_router_id st1"
    and n2: "ou_metric u \<noteq> INFINITY \<longrightarrow> (if wants_v4 u then ps_next_hop_v4 st2 else ps_next_hop_v6 st2)
          = Some (case ou_next_hop u of None \<Rightarrow> src | Some nh \<Rightarrow> nh)"
    using decodes_next_hop_context [OF 2 ok d1(3) fr] by blast
  have "\<exists>t. decodes N o3 st2 [t] st2 \<and> semantic [t] = [Update (delivered_update src u)]"
  proof (cases "ou_key u")
    case None
    then have m: "ou_metric u = INFINITY" using ok by (simp add: update_ok_def)
    then have "semantic [Update (delivered_update src u)] = [Update (delivered_update src u)]"
      by (simp add: semantic_def is_context_tlv_def retraction_without_origin_def delivered_update_def)
    then show ?thesis using decode_tlv_wildcard_update [OF 3 None m i] by blast
  next
    case (Some k)
    show ?thesis
      by (rule decode_tlv_route_update [OF 3 Some ok i]) (use r1 r2 n2 Some in \<open>auto simp: wants_v4_def\<close>)
  qed
  then obtain t where "decodes N o3 st2 [t] st2" "semantic [t] = [Update (delivered_update src u)]" by blast
  with d1 d2 out show ?thesis
    by (intro exI [of _ "ts1 @ ts2 @ [t]"] exI [of _ st2]) (simp add: decodes_append)
qed

lemma decodes_outbound_tlv:
  assumes e: "encode_outbound_tlv t c = Inr (c', out)" and ok: "tlv_ok N src t" and rel: "ctx_rel src c st"
    and fresh: "\<not> requires_fresh_next_hop_context t c"
  shows "\<exists>ts st'. decodes N out st ts st' \<and> semantic ts = [delivered src t] \<and> ctx_rel src c' st'"
proof -
  have plain: ?thesis if "c' = c" "decodes N out st [delivered src t] st" "semantic [delivered src t] = [delivered src t]"
    using that rel by blast
  have sem: "semantic [delivered src t] = [delivered src t]" if "\<And>u. t \<noteq> OutUpdate u"
    using that by (cases t) (auto simp: semantic_def is_context_tlv_def retraction_without_origin_def delivered_def)
  show ?thesis
  proof (cases t)
    case OutPad1
    then show ?thesis using plain sem e by (auto simp: encode_outbound_tlv_def decodes_def delivered_def)
  next
    case (OutPadN v)
    then have "c' = c" "put_tlv TLV_PADN v = Inr out"
      using e by (auto simp: encode_outbound_tlv_def same_context_def and_then_Inr)
    then show ?thesis using plain sem OutPadN decodes_put [of TLV_PADN v out N st "PadN v" st]
      by (simp add: decode_tlv_def delivered_def)
  next
    case (OutAckRequest nonce interval)
    then have "c' = c" "put_tlv TLV_ACK_REQ ([0, 0] @ to_be_bytes nonce @ to_be_bytes interval) = Inr out" "interval \<noteq> 0"
      using e by (auto simp: encode_outbound_tlv_def same_context_def and_then_Inr require_nonzero_def split: if_splits)
    then show ?thesis using plain sem OutAckRequest decodes_ack_request by (simp add: delivered_def)
  next
    case (OutAck nonce)
    then have "c' = c" "put_tlv TLV_ACK (to_be_bytes nonce) = Inr out"
      using e by (auto simp: encode_outbound_tlv_def same_context_def and_then_Inr)
    then show ?thesis using plain sem OutAck decodes_ack by (simp add: delivered_def)
  next
    case (OutHello unicast seqno interval ss)
    then have "c' = c" "encode_hello unicast seqno interval ss = Inr out"
      using e by (auto simp: encode_outbound_tlv_def same_context_def and_then_Inr)
    then show ?thesis using plain sem OutHello ok decodes_hello by (simp add: delivered_def tlv_ok_def)
  next
    case (OutIhu a rxcost interval ss)
    then have "c' = c" "encode_ihu a rxcost interval ss = Inr out"
      using e by (auto simp: encode_outbound_tlv_def same_context_def and_then_Inr)
    then show ?thesis using plain sem OutIhu ok decodes_ihu by (simp add: delivered_def tlv_ok_def)
  next
    case (OutUpdate u)
    then show ?thesis using decodes_update [of u c c' out src st] e ok rel fresh
      by (simp add: encode_outbound_tlv_def tlv_ok_def delivered_def)
  next
    case (OutRouteRequest k ss)
    then have "c' = c" "encode_route_request k ss = Inr out"
      using e by (auto simp: encode_outbound_tlv_def same_context_def and_then_Inr)
    then show ?thesis using plain sem OutRouteRequest ok decodes_route_request [of k ss out src st]
      by (simp add: delivered_def)
  next
    case (OutSeqnoRequest k seqno hops i ss)
    then have "c' = c" "encode_seqno_request k seqno hops i ss = Inr out"
      using e by (auto simp: encode_outbound_tlv_def same_context_def and_then_Inr)
    then show ?thesis using plain sem OutSeqnoRequest ok decodes_seqno_request [of k seqno hops i ss out src st]
      by (simp add: delivered_def)
  next
    case (OutUnknown ty v)
    then have p: "c' = c" "put_tlv ty v = Inr out"
      using e by (auto simp: encode_outbound_tlv_def same_context_def and_then_Inr)
    have "TLV_SEQNO_REQUEST < ty" using ok OutUnknown by (simp add: tlv_ok_def)
    then have ne: "ty \<noteq> 0" "ty \<noteq> 1" "ty \<noteq> 2" "ty \<noteq> 3" "ty \<noteq> 4" "ty \<noteq> 5" "ty \<noteq> 6" "ty \<noteq> 7" "ty \<noteq> 8" "ty \<noteq> 9" "ty \<noteq> 10"
      by auto
    then show ?thesis using plain sem OutUnknown p decodes_put [OF p(2), of N st]
      by (simp add: delivered_def decode_tlv_def)
  qed
qed

end

end
