(* ===== verification/Babel_Packets.thy ===== *)
theory Babel_Packets
  imports Babel_Roundtrip
begin

text \<open>
  Whole datagrams: what \<open>encode_packets\<close> (\<open>wire/packetizer.rs\<close>) sends is what \<open>decode_packet\<close>
  (\<open>wire/decode.rs\<close>) reads, datagram by datagram and without state shared between datagrams;
  the size and framing of the datagrams; and the effect of rewriting the timestamps of a
  datagram just before it is sent.

  The invariant \<open>packetized\<close> of the packetizer loop says that the finished datagrams and the
  current body together decode to the TLVs consumed so far.
\<close>

section \<open>Specification\<close>

definition received_tlvs :: "ipnet \<Rightarrow> ip_addr \<Rightarrow> octets_list \<Rightarrow> tlv list" where
  "received_tlvs N src data = (case decode_packet N data src of Inl _ \<Rightarrow> [] | Inr p \<Rightarrow> tlvs p)"

definition accepted :: "ipnet \<Rightarrow> ip_addr \<Rightarrow> octets_list \<Rightarrow> bool" where
  "accepted N src data = (case decode_packet N data src of Inl _ \<Rightarrow> False | Inr _ \<Rightarrow> True)"

definition is_hello :: "tlv \<Rightarrow> bool" where
  "is_hello t = (case t of Hello _ _ _ _ \<Rightarrow> True | _ \<Rightarrow> False)"

definition hellos :: "tlv list \<Rightarrow> nat" where
  "hellos ts = length (filter is_hello ts)"

definition packetized :: "ipnet \<Rightarrow> ip_addr \<Rightarrow> packetizer \<Rightarrow> outbound_tlv list \<Rightarrow> bool" where
  "packetized N src s sent \<longleftrightarrow>
     list_all (\<lambda>p. accepted N src p \<and> hellos (received_tlvs N src p) \<le> 1) (pk_packets s)
     \<and> (pk_body s = [] \<longrightarrow> pk_context s = encode_context_default \<and> \<not> pk_has_hello s)
     \<and> (\<exists>ts st. decodes N (pk_body s) (parser_state_new src) ts st \<and> ctx_rel src (pk_context s) st
          \<and> hellos ts \<le> (if pk_has_hello s then 1 else 0)
          \<and> concat (map (\<lambda>p. semantic (received_tlvs N src p)) (pk_packets s)) @ semantic ts
              = map (delivered src) sent)"

definition framed :: "nat \<Rightarrow> octets_list \<Rightarrow> bool" where
  "framed max_size d \<longleftrightarrow> 4 \<le> length d \<and> length d \<le> max_size \<and> take 2 d = [MAGIC, VERSION]
     \<and> unat (be16 (slice 2 4 d)) = length d - 4"

definition sized :: "nat \<Rightarrow> packetizer \<Rightarrow> bool" where
  "sized budget s \<longleftrightarrow> list_all (framed (budget + 4)) (pk_packets s) \<and> length (pk_body s) \<le> budget"

text \<open>A packet with every kind of context, for concrete runs.\<close>

definition sample_src :: ip_addr where
  "sample_src = V6 0xfe800000000000000000000000000001"

definition sample_packet :: outbound_packet where
  "sample_packet = \<lparr>out_tlvs =
     [OutHello False 7 400 [TimestampHello 1000],
      OutIhu (Some (V6 0xfe800000000000000000000000000002)) 96 1200 [TimestampIhu 5 6],
      OutUpdate
        \<lparr>ou_key = Some (RouteKey (V6Net 0x20010db8000000000000000000000000 32)
                          (Some (V6Net 0x20010db8000100000000000000000000 48))),
         ou_router_id = Some (RouterId 0x0102030405060708), ou_next_hop = None, ou_interval_cs = 1600,
         ou_seqno = 3, ou_metric = 256, ou_v4_via_v6 = False, ou_sub_tlvs = []\<rparr>,
      OutUpdate
        \<lparr>ou_key = Some (RouteKey (V4Net 0x0a000000 9) None),
         ou_router_id = Some (RouterId 0x0102030405060708), ou_next_hop = Some (V4 0xc0000201),
         ou_interval_cs = 1600, ou_seqno = 3, ou_metric = 100, ou_v4_via_v6 = False, ou_sub_tlvs = []\<rparr>,
      OutRouteRequest None []]\<rparr>"

text \<open>Zero or more packet boundaries.\<close>

inductive flushed :: "packetizer \<Rightarrow> packetizer \<Rightarrow> bool" where
  stay: "flushed s s"
| flush: "flush_packet s = Inr s1 \<Longrightarrow> flushed s1 s2 \<Longrightarrow> flushed s s2"

section \<open>Datagrams decode to what was sent\<close>

lemma hellos_semantic: "hellos (semantic ts) = hellos ts"
proof -
  have "is_hello (retraction_without_origin t) = is_hello t" for t
    by (cases t) (auto simp: is_hello_def retraction_without_origin_def)
  moreover have "is_hello t \<Longrightarrow> \<not> is_context_tlv t" for t
    by (cases t) (auto simp: is_hello_def is_context_tlv_def)
  ultimately show ?thesis
    by (auto simp: hellos_def semantic_def filter_map comp_def intro!: arg_cong [where f = length] filter_cong)
qed

lemma hellos_append [simp]: "hellos (xs @ ys) = hellos xs + hellos ys" "hellos [] = 0"
  by (simp_all add: hellos_def)

lemma hellos_group:
  assumes "list_all is_out_ihu ts"
  shows "hellos (map (delivered src) (t # ts)) = (if is_out_hello t then 1 else 0)"
proof -
  have "is_hello (delivered src g) = is_out_hello g" for g
    by (cases g) (simp_all add: is_hello_def delivered_def is_out_hello_def)
  moreover have "is_out_ihu g \<Longrightarrow> \<not> is_out_hello g" for g
    by (cases g) (simp_all add: is_out_ihu_def is_out_hello_def)
  ultimately have "filter is_hello (map (delivered src) ts) = []"
    using assms by (auto simp: filter_empty_conv list_all_iff)
  then show ?thesis using \<open>\<And>g. is_hello (delivered src g) = is_out_hello g\<close> by (simp add: hellos_def)
qed

lemma finish_packet_decode:
  assumes "finish_packet body = Inr p" "decode_body N body (parser_state_new src) = Inr (ts, st)"
  shows "decode_packet N p src = Inr \<lparr>tlvs = ts\<rparr>"
proof -
  have l: "length body \<le> 65535" and p: "p = [MAGIC, VERSION] @ to_be_bytes (of_nat (length body) :: u16) @ body"
    using assms(1) by (auto simp: finish_packet_def split: if_splits)
  obtain h lo where hl: "to_be_bytes (of_nat (length body) :: u16) = [h, lo]"
    "\<And>rest. be16 (h # lo # rest) = of_nat (length body)"
    using u16_octets [of "of_nat (length body)"] by blast
  have "unat (of_nat (length body) :: u16) = length body" using l by (simp add: unat_of_nat)
  then show ?thesis using p hl assms(2) by (simp add: decode_packet_def slice_def Let_def)
qed

lemma packetized_flush:
  assumes "flush_packet s = Inr s'" "packetized N src s sent"
  shows "packetized N src s' sent \<and> pk_context s' = encode_context_default \<and> pk_body s' = [] \<and> \<not> pk_has_hello s'"
proof -
  obtain p where f: "finish_packet (pk_body s) = Inr p"
    and s': "s' = \<lparr>pk_packets = pk_packets s @ [p], pk_body = [], pk_context = encode_context_default, pk_has_hello = False\<rparr>"
    using assms(1) by (auto simp: flush_packet_def and_then_Inr)
  obtain ts st where d: "decodes N (pk_body s) (parser_state_new src) ts st"
    and c: "concat (map (\<lambda>p. semantic (received_tlvs N src p)) (pk_packets s)) @ semantic ts = map (delivered src) sent"
    and a: "list_all (\<lambda>p. accepted N src p \<and> hellos (received_tlvs N src p) \<le> 1) (pk_packets s)"
    and h: "hellos ts \<le> 1"
    using assms(2) by (auto simp: packetized_def split: if_splits)
  have "decode_packet N p src = Inr \<lparr>tlvs = ts\<rparr>" by (rule finish_packet_decode [OF f decodes_body [OF d]])
  then have "received_tlvs N src p = ts" "accepted N src p" by (simp_all add: received_tlvs_def accepted_def)
  moreover have "decodes N [] (parser_state_new src) [] (parser_state_new src)" by simp
  ultimately show ?thesis using s' c a h
    by (auto simp: packetized_def intro!: exI [of _ "[]"] exI [of _ "parser_state_new src"])
qed

lemma flush_packet_body: "flush_packet s = Inr s' \<Longrightarrow> pk_body s' = []"
  by (auto simp: flush_packet_def and_then_Inr)

lemma packetize_group_cases:
  assumes "packetize_group budget t grp s = Inr s'"
  shows "\<exists>s0 c e. flushed s s0 \<and> encode_group grp (pk_context s0) = Inr (c, e) \<and> length e \<le> budget
    \<and> (pk_body s0 \<noteq> [] \<longrightarrow> \<not> requires_fresh_next_hop_context t (pk_context s0)
         \<and> \<not> (is_out_hello t \<and> pk_has_hello s0) \<and> length (pk_body s0) + length e \<le> budget)
    \<and> s' = s0\<lparr>pk_body := pk_body s0 @ e, pk_context := c, pk_has_hello := pk_has_hello s0 \<or> is_out_hello t\<rparr>"
proof -
  let ?split = "pk_body s \<noteq> [] \<and> (requires_fresh_next_hop_context t (pk_context s) \<or> is_out_hello t \<and> pk_has_hello s)"
  obtain s1 where s1: "(if ?split then flush_packet s else Inr s) = Inr s1"
    and r: "and_then (encode_group_within budget grp (pk_context s1)) (\<lambda>(c1, e1).
         if pk_body s1 \<noteq> [] \<and> length (pk_body s1) + length e1 > budget
         then and_then (flush_packet s1) (\<lambda>s2.
           and_then (encode_group_within budget grp (pk_context s2)) (\<lambda>(c2, e2).
             Inr (s2\<lparr>pk_body := pk_body s2 @ e2, pk_context := c2,
                     pk_has_hello := pk_has_hello s2 \<or> is_out_hello t\<rparr>)))
         else Inr (s1\<lparr>pk_body := pk_body s1 @ e1, pk_context := c1,
                      pk_has_hello := pk_has_hello s1 \<or> is_out_hello t\<rparr>)) = Inr s'"
    using assms unfolding packetize_group_def and_then_Inr by blast
  then obtain c1 e1 where g1: "encode_group_within budget grp (pk_context s1) = Inr (c1, e1)"
    and r1: "(if pk_body s1 \<noteq> [] \<and> length (pk_body s1) + length e1 > budget
         then and_then (flush_packet s1) (\<lambda>s2.
           and_then (encode_group_within budget grp (pk_context s2)) (\<lambda>(c2, e2).
             Inr (s2\<lparr>pk_body := pk_body s2 @ e2, pk_context := c2,
                     pk_has_hello := pk_has_hello s2 \<or> is_out_hello t\<rparr>)))
         else Inr (s1\<lparr>pk_body := pk_body s1 @ e1, pk_context := c1,
                      pk_has_hello := pk_has_hello s1 \<or> is_out_hello t\<rparr>)) = Inr s'"
    by (auto simp: and_then_Inr)
  have f1: "flushed s s1" "pk_body s1 \<noteq> [] \<longrightarrow> \<not> requires_fresh_next_hop_context t (pk_context s1)
      \<and> \<not> (is_out_hello t \<and> pk_has_hello s1)"
    using s1 flush_packet_body [of s s1] by (auto intro: flushed.intros split: if_splits)
  have within: "encode_group grp c = Inr (c', e) \<and> length e \<le> budget"
    if "encode_group_within budget grp c = Inr (c', e)" for c c' e
    using that by (auto simp: encode_group_within_def and_then_Inr split: if_splits)
  show ?thesis
  proof (cases "pk_body s1 \<noteq> [] \<and> length (pk_body s1) + length e1 > budget")
    case False
    then show ?thesis using r1 within [OF g1] f1 by (intro exI [of _ s1] exI [of _ c1] exI [of _ e1]) auto
  next
    case True
    then obtain s2 c2 e2 where s2: "flush_packet s1 = Inr s2" and g2: "encode_group_within budget grp (pk_context s2) = Inr (c2, e2)"
      and s': "s' = s2\<lparr>pk_body := pk_body s2 @ e2, pk_context := c2, pk_has_hello := pk_has_hello s2 \<or> is_out_hello t\<rparr>"
      using r1 by (auto simp: and_then_Inr)
    have "flushed s s2" using f1(1) s2 by (induction rule: flushed.induct) (auto intro: flushed.intros)
    then show ?thesis using within [OF g2] flush_packet_body [OF s2] s'
      by (intro exI [of _ s2] exI [of _ c2] exI [of _ e2]) auto
  qed
qed

lemma group_of_take:
  "group_of t rest = t # take (length (group_of t rest) - 1) rest"
  "list_all is_out_ihu (take (length (group_of t rest) - 1) rest)"
  by (auto simp: group_of_def takeWhile_eq_take [symmetric] list_all_iff dest: set_takeWhileD)

context ipnet_package
begin

lemma decodes_group:
  assumes "encode_group grp c = Inr (c', out)" "list_all (tlv_ok N src) grp" "ctx_rel src c st"
    and "grp = t # ts" "\<not> requires_fresh_next_hop_context t c" "list_all is_out_ihu ts"
  shows "\<exists>us st'. decodes N out st us st' \<and> semantic us = map (delivered src) grp \<and> ctx_rel src c' st'"
  using assms
proof (induction grp arbitrary: c out st t ts)
  case (Cons g grp)
  then obtain c1 o1 o2 where e: "encode_outbound_tlv g c = Inr (c1, o1)" "encode_group grp c1 = Inr (c', o2)"
    and out: "out = o1 @ o2"
    by (auto simp: and_then_Inr)
  obtain us1 st1 where d1: "decodes N o1 st us1 st1" "semantic us1 = [delivered src g]" "ctx_rel src c1 st1"
    using decodes_outbound_tlv [OF e(1), of src st] Cons.prems(2-5) by auto
  have "\<exists>us2 st2. decodes N o2 st1 us2 st2 \<and> semantic us2 = map (delivered src) grp \<and> ctx_rel src c' st2"
  proof (cases grp)
    case Nil
    then show ?thesis using e d1 by (auto intro!: exI [of _ "[]"] exI [of _ st1])
  next
    case (Cons g' grp')
    then have "\<not> requires_fresh_next_hop_context g' c1"
      using Cons.prems by (auto simp: is_out_ihu_def requires_fresh_next_hop_context_def split: outbound_tlv.splits)
    then show ?thesis using Cons.IH [OF e(2) _ d1(3) Cons] Cons.prems Cons by auto
  qed
  then obtain us2 st2 where "decodes N o2 st1 us2 st2" "semantic us2 = map (delivered src) grp" "ctx_rel src c' st2"
    by blast
  with d1 out show ?case
    by (intro exI [of _ "us1 @ us2"] exI [of _ st2]) (simp add: decodes_append)
qed simp

lemma packetized_extend:
  assumes "packetized N src s sent" "encode_group grp (pk_context s) = Inr (c', out)"
    "list_all (tlv_ok N src) grp" "grp = t # ts" "list_all is_out_ihu ts"
    "pk_body s \<noteq> [] \<longrightarrow> \<not> requires_fresh_next_hop_context t (pk_context s) \<and> \<not> (is_out_hello t \<and> pk_has_hello s)"
  shows "packetized N src (s\<lparr>pk_body := pk_body s @ out, pk_context := c',
      pk_has_hello := pk_has_hello s \<or> is_out_hello t\<rparr>) (sent @ grp)"
proof -
  obtain us st where d: "decodes N (pk_body s) (parser_state_new src) us st" "ctx_rel src (pk_context s) st"
    and c: "concat (map (\<lambda>p. semantic (received_tlvs N src p)) (pk_packets s)) @ semantic us = map (delivered src) sent"
    and a: "list_all (\<lambda>p. accepted N src p \<and> hellos (received_tlvs N src p) \<le> 1) (pk_packets s)"
    and h: "hellos us \<le> (if pk_has_hello s then 1 else 0)"
    and body: "pk_body s = [] \<longrightarrow> pk_context s = encode_context_default \<and> \<not> pk_has_hello s"
    using assms(1) by (auto simp: packetized_def)
  have "\<not> requires_fresh_next_hop_context t (pk_context s)" using body assms(6) by auto
  then obtain vs st' where v: "decodes N out st vs st'" "semantic vs = map (delivered src) grp" "ctx_rel src c' st'"
    using decodes_group [OF assms(2,3) d(2) assms(4)] assms(5) by blast
  have "hellos vs = (if is_out_hello t then 1 else 0)"
    using hellos_semantic [of vs] v(2) hellos_group [OF assms(5)] assms(4) by simp
  then have hv: "hellos (us @ vs) \<le> (if pk_has_hello s \<or> is_out_hello t then 1 else 0)"
    using h body assms(6) by (auto split: if_splits)
  have "out \<noteq> []"
  proof
    assume "out = []"
    then have "vs = []" using decodes_body [OF v(1)] by simp
    then show False using v(2) assms(4) by simp
  qed
  then show ?thesis using a c v hv decodes_append [OF d(1) v(1)]
    by (auto simp: packetized_def intro!: exI [of _ "us @ vs"] exI [of _ st'])
qed

lemma flushed_packetized:
  "flushed s s' \<Longrightarrow> packetized N src s sent \<Longrightarrow> packetized N src s' sent"
  by (induction rule: flushed.induct) (auto dest: packetized_flush)

lemma packetize_group_correct:
  assumes "packetize_group budget t grp s = Inr s'" "packetized N src s sent"
    "list_all (tlv_ok N src) grp" "grp = t # ts" "list_all is_out_ihu ts"
  shows "packetized N src s' (sent @ grp)"
proof -
  obtain s0 c e where f: "flushed s s0" and g: "encode_group grp (pk_context s0) = Inr (c, e)"
    and b: "pk_body s0 \<noteq> [] \<longrightarrow> \<not> requires_fresh_next_hop_context t (pk_context s0)
         \<and> \<not> (is_out_hello t \<and> pk_has_hello s0)"
    and s': "s' = s0\<lparr>pk_body := pk_body s0 @ e, pk_context := c, pk_has_hello := pk_has_hello s0 \<or> is_out_hello t\<rparr>"
    using packetize_group_cases [OF assms(1)] by blast
  have "packetized N src s0 sent" using f assms(2) by (rule flushed_packetized)
  from packetized_extend [OF this g assms(3,4,5) b] show ?thesis by (simp add: s')
qed

lemma encode_packets_loop_correct:
  assumes "encode_packets_loop budget ts s = Inr s'" "packetized N src s sent" "list_all (tlv_ok N src) ts"
  shows "packetized N src s' (sent @ ts)"
  using assms
proof (induction budget ts s arbitrary: sent rule: encode_packets_loop.induct)
  case (2 budget t rest s)
  let ?g = "group_of t rest"
  obtain s1 where s1: "packetize_group budget t ?g s = Inr s1"
    and l: "encode_packets_loop budget (drop (length ?g - 1) rest) s1 = Inr s'"
    and nt: "\<not> (\<not> timestamped_hello t \<and> timestamped_ihu t)"
    using "2.prems"(1) by (auto simp: and_then_Inr split: if_splits)
  note g = group_of_take [of t rest]
  have ok: "list_all (tlv_ok N src) ?g" "list_all (tlv_ok N src) (drop (length ?g - 1) rest)"
    using "2.prems"(3) by (subst g(1); auto simp: list_all_iff dest: in_set_takeD in_set_dropD)+
  have "packetized N src s1 (sent @ ?g)" by (rule packetize_group_correct [OF s1 "2.prems"(2) ok(1) g])
  from "2.IH" [OF nt l this ok(2)] show ?case
    by (metis Cons_eq_appendI append.assoc append_take_drop_id g(1))
qed simp

end

text \<open>
  C20. Every datagram that \<open>encode_packets\<close> produces is accepted by \<open>decode_packet\<close> on its own,
  carries at most one Hello, and the datagrams together decode to the TLVs that were sent,
  in order: the packet boundaries, the repeated Router-ID and Next-Hop context and the
  compression state never change what a receiver reads.
\<close>

theorem encode_packets_round_trip:
  assumes "ipnet_package N" and "encode_packets p max_size = Inr datagrams"
    and "list_all (tlv_ok N src) (out_tlvs p)"
  shows "list_all (\<lambda>d. accepted N src d \<and> hellos (received_tlvs N src d) \<le> 1) datagrams
    \<and> semantic (concat (map (received_tlvs N src) datagrams)) = map (delivered src) (out_tlvs p)"
proof -
  obtain s s' where l: "encode_packets_loop (min max_size MAX_PACKET_SIZE - 4) (out_tlvs p) packetizer_new = Inr s"
    and f: "flush_packet s = Inr s'" and d: "datagrams = pk_packets s'"
    using assms(2) by (auto simp: encode_packets_def and_then_Inr Let_def split: if_splits)
  have "packetized N src packetizer_new []"
    by (auto simp: packetized_def packetizer_new_def intro!: exI [of _ "[]"] exI [of _ "parser_state_new src"])
  from ipnet_package.encode_packets_loop_correct [OF assms(1) l this assms(3)]
  have "packetized N src s' (out_tlvs p)" "pk_body s' = []"
    using packetized_flush [OF f] by auto
  moreover have "semantic (concat xs) = concat (map semantic xs)" for xs
    by (induction xs) auto
  ultimately show ?thesis using d decodes_body by (fastforce simp: packetized_def comp_def)
qed

theorem encode_packets_round_trip_witness:
  "\<exists>ds. encode_packets sample_packet 90 = Inr ds \<and> length ds = 2
     \<and> semantic (concat (map (received_tlvs ipnet_ref sample_src) ds)) = map (delivered sample_src) (out_tlvs sample_packet)"
proof -
  have "case encode_packets sample_packet 90 of Inr ds \<Rightarrow> length ds = 2 | Inl _ \<Rightarrow> False" by code_simp
  then obtain ds where ds: "encode_packets sample_packet 90 = Inr ds" "length ds = 2" by (auto split: sum.splits)
  moreover have "list_all (tlv_ok ipnet_ref sample_src) (out_tlvs sample_packet)" by code_simp
  ultimately show ?thesis
    using encode_packets_round_trip [OF reference.ipnet_package_axioms, of sample_packet 90 ds sample_src] by blast
qed

section \<open>Size and framing\<close>

lemma finish_packet_framed:
  assumes "finish_packet body = Inr p" "length body \<le> budget"
  shows "framed (budget + 4) p"
proof -
  have l: "length body \<le> 65535" and p: "p = [MAGIC, VERSION] @ to_be_bytes (of_nat (length body) :: u16) @ body"
    using assms(1) by (auto simp: finish_packet_def split: if_splits)
  obtain h lo where hl: "to_be_bytes (of_nat (length body) :: u16) = [h, lo]"
    "\<And>rest. be16 (h # lo # rest) = of_nat (length body)"
    using u16_octets [of "of_nat (length body)"] by blast
  have "unat (of_nat (length body) :: u16) = length body" using l by (simp add: unat_of_nat)
  then show ?thesis using p hl assms(2) by (simp add: framed_def slice_def)
qed

lemma sized_flush:
  assumes "flush_packet s = Inr s'" "sized budget s"
  shows "sized budget s' \<and> pk_body s' = [] \<and> pk_packets s' \<noteq> []"
  using assms by (auto simp: flush_packet_def and_then_Inr sized_def dest: finish_packet_framed)

lemma flushed_sized: "flushed s s' \<Longrightarrow> sized budget s \<Longrightarrow> sized budget s'"
  by (induction rule: flushed.induct) (auto dest: sized_flush)

lemma packetize_group_sized:
  assumes "packetize_group budget t grp s = Inr s'" "sized budget s"
  shows "sized budget s'"
proof -
  obtain s0 c e where f: "flushed s s0" and e: "length e \<le> budget"
    "pk_body s0 \<noteq> [] \<longrightarrow> length (pk_body s0) + length e \<le> budget"
    and s': "s' = s0\<lparr>pk_body := pk_body s0 @ e, pk_context := c, pk_has_hello := pk_has_hello s0 \<or> is_out_hello t\<rparr>"
    using packetize_group_cases [OF assms(1)] by blast
  have "sized budget s0" using f assms(2) by (rule flushed_sized)
  then show ?thesis using e s' by (cases "pk_body s0 = []") (simp_all add: sized_def)
qed

lemma encode_packets_loop_sized:
  "encode_packets_loop budget ts s = Inr s' \<Longrightarrow> sized budget s \<Longrightarrow> sized budget s'"
proof (induction budget ts s rule: encode_packets_loop.induct)
  case (2 budget t rest s)
  then show ?case by (auto simp: and_then_Inr split: if_splits dest: packetize_group_sized)
qed simp

text \<open>
  C27. The datagrams respect the size budget (header included), start with the Babel header
  and declare exactly the body they carry; there is always at least one.
\<close>

theorem encode_packets_framed:
  assumes "encode_packets p max_size = Inr datagrams"
  shows "datagrams \<noteq> [] \<and> list_all (framed max_size) datagrams"
proof -
  let ?b = "min max_size MAX_PACKET_SIZE - 4"
  obtain s s' where m: "4 \<le> max_size" and l: "encode_packets_loop ?b (out_tlvs p) packetizer_new = Inr s"
    and f: "flush_packet s = Inr s'" and d: "datagrams = pk_packets s'"
    using assms by (auto simp: encode_packets_def and_then_Inr Let_def split: if_splits)
  have "sized ?b packetizer_new" by (simp add: sized_def packetizer_new_def)
  then have "sized ?b s'" "pk_packets s' \<noteq> []" using encode_packets_loop_sized [OF l] sized_flush [OF f] by auto
  then show ?thesis using d m by (auto simp: sized_def framed_def list_all_iff)
qed

theorem encode_packets_framed_witness:
  "\<exists>ds. encode_packets sample_packet 90 = Inr ds \<and> length ds = 2 \<and> list_all (framed 90) ds"
proof -
  have "case encode_packets sample_packet 90 of Inr ds \<Rightarrow> length ds = 2 | Inl _ \<Rightarrow> False" by code_simp
  then obtain ds where ds: "encode_packets sample_packet 90 = Inr ds" "length ds = 2" by (auto split: sum.splits)
  then show ?thesis using encode_packets_framed [OF ds(1)] by blast
qed

end
