(* ===== verification/Babel_Timestamps.thy ===== *)
theory Babel_Timestamps
  imports Babel_Packets
begin

text \<open>
  \<open>stamp_hello_timestamps\<close> (\<open>wire/packetizer.rs\<close>) rewrites a datagram in place just before the
  socket call. It has its own TLV walk, separate from the decoder; this theory shows that
  the two walks agree: the rewritten datagram decodes to the same packet, with the timestamp
  of every Hello replaced and nothing else.
\<close>

section \<open>Specification\<close>

definition restamp_sub :: "u32 \<Rightarrow> sub_tlv \<Rightarrow> sub_tlv" where
  "restamp_sub timestamp s = (case s of TimestampHello _ \<Rightarrow> TimestampHello timestamp | _ \<Rightarrow> s)"

definition restamp :: "u32 \<Rightarrow> tlv \<Rightarrow> tlv" where
  "restamp timestamp t =
     (case t of Hello unicast seqno interval ss \<Rightarrow> Hello unicast seqno interval (map (restamp_sub timestamp) ss)
      | _ \<Rightarrow> t)"

fun map_ok :: "('a \<Rightarrow> 'b) \<Rightarrow> 'e + 'a \<Rightarrow> 'e + 'b" where
  "map_ok f (Inl e) = Inl e"
| "map_ok f (Inr x) = Inr (f x)"

definition restamp_subs :: "u32 \<Rightarrow> decoded_sub_tlvs \<Rightarrow> decoded_sub_tlvs" where
  "restamp_subs timestamp r = r\<lparr>sub_values := map (restamp_sub timestamp) (sub_values r)\<rparr>"

definition stamped_sub :: "u32 \<Rightarrow> u8 \<Rightarrow> octets_list \<Rightarrow> octets_list" where
  "stamped_sub timestamp type body =
     (if type = SUBTLV_TIMESTAMP \<and> length body \<ge> 4 then to_be_bytes timestamp @ drop 4 body else body)"

definition stamp_tlv :: "u32 \<Rightarrow> u8 \<Rightarrow> octets_list \<Rightarrow> octets_list wire_result" where
  "stamp_tlv timestamp type val =
     (if type = TLV_HELLO \<and> length val \<ge> 6
      then and_then (stamp_sub_tlvs timestamp (drop 6 val)) (\<lambda>sub. Inr (take 6 val @ sub)) else Inr val)"

definition restamp_pair :: "u32 \<Rightarrow> tlv option \<times> parser_state \<Rightarrow> tlv option \<times> parser_state" where
  "restamp_pair timestamp = map_prod (map_option (restamp timestamp)) id"

section \<open>The two walks agree\<close>

lemma length_stamped_sub [simp]: "length (stamped_sub timestamp type body) = length body"
  by (simp add: stamped_sub_def)

lemma stamp_sub_tlvs_pad [simp]:
  "stamp_sub_tlvs timestamp (0 # rest) = and_then (stamp_sub_tlvs timestamp rest) (\<lambda>out. Inr (0 # out))"
  by simp

lemma stamp_sub_tlvs_step:
  assumes "type \<noteq> 0"
  shows "stamp_sub_tlvs timestamp [type] = Inl (InvalidTlv TLV_HELLO)"
    and "stamp_sub_tlvs timestamp (type # len # rest) =
      (if length rest < unat len then Inl (InvalidTlv TLV_HELLO)
       else and_then (stamp_sub_tlvs timestamp (drop (unat len) rest))
         (\<lambda>out. Inr (type # len # stamped_sub timestamp type (take (unat len) rest) @ out)))"
  using assms by (simp_all add: stamped_sub_def Let_def min_absorb2)

declare stamp_sub_tlvs.simps(2) [simp del]

lemma stamp_sub_tlvs_length: "stamp_sub_tlvs timestamp data = Inr data' \<Longrightarrow> length data' = length data"
proof (induction timestamp data arbitrary: data' rule: stamp_sub_tlvs.induct)
  case (2 timestamp type rest)
  show ?case
  proof (cases "type = 0")
    case True
    then obtain out where o: "stamp_sub_tlvs timestamp rest = Inr out" "data' = 0 # out"
      using "2.prems" by (auto simp: and_then_Inr)
    then show ?thesis using "2.IH"(1) [OF True o(1)] by simp
  next
    case False
    then obtain len rest' where r: "rest = len # rest'" "\<not> length rest' < unat len"
      using "2.prems" by (cases rest) (auto simp: stamp_sub_tlvs_step split: if_splits)
    obtain out where o: "stamp_sub_tlvs timestamp (drop (unat len) rest') = Inr out"
      "data' = type # len # stamped_sub timestamp type (take (unat len) rest') @ out"
      using "2.prems" False r by (auto simp: stamp_sub_tlvs_step and_then_Inr)
    then show ?thesis using r "2.IH"(2) [OF False r refl refl o(1)] by simp
  qed
qed simp

lemma restamp_push_sub:
  "restamp_subs timestamp (push_sub s r) = push_sub (restamp_sub timestamp s) (restamp_subs timestamp r)"
  by (simp add: restamp_subs_def push_sub_def)

lemma restamp_mark_mandatory:
  "restamp_subs timestamp (mark_mandatory r) = mark_mandatory (restamp_subs timestamp r)"
  by (simp add: restamp_subs_def mark_mandatory_def)

lemma decode_sub_tlv_restamp:
  "decode_sub_tlv N SubHello dst type (stamped_sub timestamp type body) (restamp_subs timestamp r) =
    restamp_subs timestamp (decode_sub_tlv N SubHello dst type body r)"
proof (cases "type = SUBTLV_TIMESTAMP \<and> length body \<ge> 4")
  case True
  then have "stamped_sub timestamp type body = to_be_bytes timestamp @ drop 4 body" by (simp add: stamped_sub_def)
  moreover have "length (stamped_sub timestamp type body) \<ge> 4" using True by simp
  ultimately show ?thesis using True
    by (simp add: decode_sub_tlv_def restamp_push_sub restamp_sub_def be32_to_be_bytes)
next
  case False
  then have "stamped_sub timestamp type body = body" by (auto simp: stamped_sub_def)
  then show ?thesis using False
    by (auto simp: decode_sub_tlv_def restamp_push_sub restamp_sub_def restamp_mark_mandatory decode_source_prefix_def)
qed

lemma decode_sub_tlvs_step:
  assumes "type \<noteq> 0"
  shows "decode_sub_tlvs_loop N context dst [type] r = Inl (InvalidTlv type)"
    and "decode_sub_tlvs_loop N context dst (type # len # rest) r =
      (if length rest < unat len then Inl (InvalidTlv type)
       else decode_sub_tlvs_loop N context dst (drop (unat len) rest)
         (decode_sub_tlv N context dst type (take (unat len) rest) r))"
  using assms by simp_all

lemma decode_sub_tlvs_pad:
  "decode_sub_tlvs_loop N context dst (0 # rest) r = decode_sub_tlvs_loop N context dst rest (push_sub SubPad1 r)"
  by simp

declare decode_sub_tlvs_loop.simps(2) [simp del]

lemma decode_sub_tlvs_restamp:
  assumes "stamp_sub_tlvs timestamp data = Inr data'"
  shows "decode_sub_tlvs_loop N SubHello dst data' (restamp_subs timestamp r) =
    map_ok (restamp_subs timestamp) (decode_sub_tlvs_loop N SubHello dst data r)"
  using assms
proof (induction timestamp data arbitrary: data' r rule: stamp_sub_tlvs.induct)
  case (2 timestamp type rest)
  show ?case
  proof (cases "type = 0")
    case True
    then obtain out where o: "stamp_sub_tlvs timestamp rest = Inr out" "data' = 0 # out"
      using "2.prems" by (auto simp: and_then_Inr)
    have s: "push_sub SubPad1 (restamp_subs timestamp r) = restamp_subs timestamp (push_sub SubPad1 r)"
      by (simp add: restamp_push_sub restamp_sub_def)
    show ?thesis using True o "2.IH"(1) [OF True o(1), of "push_sub SubPad1 r"]
      by (simp add: decode_sub_tlvs_pad s)
  next
    case False
    then obtain len rest' where r: "rest = len # rest'" "\<not> length rest' < unat len"
      using "2.prems" by (cases rest) (auto simp: stamp_sub_tlvs_step split: if_splits)
    let ?body = "take (unat len) rest'"
    obtain out where o: "stamp_sub_tlvs timestamp (drop (unat len) rest') = Inr out"
      "data' = type # len # stamped_sub timestamp type ?body @ out"
      using "2.prems" False r by (auto simp: stamp_sub_tlvs_step and_then_Inr)
    have l: "length (stamped_sub timestamp type ?body) = unat len" using r by simp
    show ?thesis
      using False r o l "2.IH"(2) [OF False r(1,2) refl refl o(1), of "decode_sub_tlv N SubHello dst type ?body r"]
      by (simp add: decode_sub_tlvs_step decode_sub_tlv_restamp)
  qed
qed simp

lemma decode_hello_restamp:
  assumes "stamp_sub_tlvs timestamp (drop 6 val) = Inr sub" "6 \<le> length val"
  shows "decode_hello N (take 6 val @ sub) = map_ok (map_option (restamp timestamp)) (decode_hello N val)"
proof -
  let ?v = "take 6 val @ sub"
  have n: "length (take 6 val) = 6" using assms(2) by simp
  have f: "be16 ?v = be16 val" "be16 (slice 2 4 ?v) = be16 (slice 2 4 val)" "be16 (slice 4 6 ?v) = be16 (slice 4 6 val)"
    "drop 6 ?v = sub" "\<not> length ?v < 6" "\<not> length val < 6"
    using assms(2) n by (simp_all add: be16_def slice_def drop_take min_def)
  have s: "decode_sub_tlvs N sub SubHello None =
      map_ok (restamp_subs timestamp) (decode_sub_tlvs N (drop 6 val) SubHello None)"
    using decode_sub_tlvs_restamp [OF assms(1), of N None decoded_sub_tlvs_default]
    by (simp add: decode_sub_tlvs_def restamp_subs_def decoded_sub_tlvs_default_def)
  show ?thesis
    unfolding decode_hello_def f s
    using f by (cases "decode_sub_tlvs N (drop 6 val) SubHello None")
      (simp_all add: restamp_subs_def restamp_def)
qed

lemma stamp_body_pad: "stamp_body timestamp (0 # rest) = and_then (stamp_body timestamp rest) (\<lambda>out. Inr (0 # out))"
  by simp

lemma stamp_body_step:
  assumes "type \<noteq> 0"
  shows "stamp_body timestamp [type] = Inl (TruncatedTlv type)"
    and "stamp_body timestamp (type # len # rest) =
      (if length rest < unat len then Inl (TruncatedTlv type)
       else and_then (stamp_tlv timestamp type (take (unat len) rest)) (\<lambda>val'.
         and_then (stamp_body timestamp (drop (unat len) rest)) (\<lambda>out. Inr (type # len # val' @ out))))"
  using assms by (simp_all add: stamp_tlv_def Let_def min_absorb2)

lemma decode_body_pad: "decode_body N (0 # rest) st = and_then (decode_body N rest st) (\<lambda>(ts, st). Inr (Pad1 # ts, st))"
  by simp

lemma decode_body_step:
  assumes "type \<noteq> 0"
  shows "decode_body N [type] st = Inl (TruncatedTlv type)"
    and "decode_body N (type # len # rest) st =
      (if length rest < unat len then Inl (TruncatedTlv type)
       else and_then (decode_tlv N type (take (unat len) rest) st) (\<lambda>(t, st).
         and_then (decode_body N (drop (unat len) rest) st) (\<lambda>(ts, st').
           Inr ((case t of None \<Rightarrow> ts | Some x \<Rightarrow> x # ts), st'))))"
  using assms by simp_all

declare stamp_body.simps(2) [simp del] decode_body.simps(2) [simp del]

lemma length_stamp_tlv: "stamp_tlv timestamp type val = Inr val' \<Longrightarrow> length val' = length val"
  by (auto simp: stamp_tlv_def and_then_Inr dest!: stamp_sub_tlvs_length split: if_splits)

lemma restamp_other: "\<not> is_hello t \<Longrightarrow> restamp timestamp t = t"
  by (cases t) (simp_all add: restamp_def is_hello_def)

lemma not_hello_decoders:
  "decode_ack_request N val = Inr (Some t) \<Longrightarrow> \<not> is_hello t"
  "decode_ack N val = Inr (Some t) \<Longrightarrow> \<not> is_hello t"
  "decode_ihu N val = Inr (Some t) \<Longrightarrow> \<not> is_hello t"
  "decode_route_request N val = Inr (Some t) \<Longrightarrow> \<not> is_hello t"
  "decode_seqno_request N val = Inr (Some t) \<Longrightarrow> \<not> is_hello t"
  by (auto simp: is_hello_def decode_ack_request_def decode_ack_def decode_ihu_def decode_route_request_def
      decode_seqno_request_def Let_def and_then_Inr split: if_splits option.splits)

lemma not_hello_context_decoders:
  "decode_router_id N val st = Inr (Some t, st') \<Longrightarrow> \<not> is_hello t"
  "decode_next_hop N val st = Inr (Some t, st') \<Longrightarrow> \<not> is_hello t"
  by (auto simp: is_hello_def decode_router_id_def decode_next_hop_def Let_def and_then_Inr
      split: if_splits option.splits)

lemma not_hello_resolve_update:
  "decode_wildcard_update N val st = Inr (Some t, st') \<Longrightarrow> \<not> is_hello t"
  "resolve_update N val ae prefix natural st = Inr (Some t, st') \<Longrightarrow> \<not> is_hello t"
  by (auto simp: is_hello_def decode_wildcard_update_def resolve_update_def Let_def and_then_Inr split: if_splits)

lemma not_hello_update: "decode_update N val st = Inr (Some t, st') \<Longrightarrow> \<not> is_hello t"
  unfolding decode_update_def Let_def
  by (auto simp: and_then_Inr dest: not_hello_resolve_update split: if_splits option.splits)

lemma decode_tlv_not_hello:
  assumes "decode_tlv N type val st = Inr (Some t, st')" "type \<noteq> TLV_HELLO"
  shows "\<not> is_hello t"
  using assms
  by (auto simp: decode_tlv_def with_state_def and_then_Inr is_hello_def [of "PadN _"] is_hello_def [of "Unknown _ _"]
      dest: not_hello_decoders not_hello_context_decoders not_hello_update split: if_splits)

lemma decode_tlv_restamp:
  assumes "stamp_tlv timestamp type val = Inr val'"
  shows "decode_tlv N type val' st = map_ok (restamp_pair timestamp) (decode_tlv N type val st)"
proof (cases "type = TLV_HELLO \<and> length val \<ge> 6")
  case True
  then obtain sub where s: "stamp_sub_tlvs timestamp (drop 6 val) = Inr sub" "val' = take 6 val @ sub"
    using assms by (auto simp: stamp_tlv_def and_then_Inr)
  show ?thesis using True s decode_hello_restamp [OF s(1), of N]
    by (cases "decode_hello N val") (simp_all add: decode_tlv_def with_state_def restamp_pair_def)
next
  case False
  then have v: "val' = val" using assms by (auto simp: stamp_tlv_def)
  have "map_ok (restamp_pair timestamp) (decode_tlv N type val st) = decode_tlv N type val st"
  proof (cases "decode_tlv N type val st")
    case (Inr r)
    obtain t st' where r: "r = (t, st')" by (cases r)
    have "type \<noteq> TLV_HELLO" using Inr False by (auto simp: decode_tlv_def with_state_def decode_hello_def)
    then have "map_option (restamp timestamp) t = t"
      using decode_tlv_not_hello Inr r restamp_other by (cases t) auto
    then show ?thesis using Inr r by (simp add: restamp_pair_def)
  qed simp
  then show ?thesis using v by simp
qed

lemma decode_body_restamp:
  assumes "stamp_body timestamp data = Inr data'"
  shows "length data' = length data \<and>
    decode_body N data' st = map_ok (map_prod (map (restamp timestamp)) id) (decode_body N data st)"
  using assms
proof (induction timestamp data arbitrary: data' st rule: stamp_body.induct)
  case (2 timestamp type rest)
  show ?case
  proof (cases "type = 0")
    case True
    then obtain out where o: "stamp_body timestamp rest = Inr out" "data' = 0 # out"
      using "2.prems" by (auto simp: stamp_body_pad and_then_Inr)
    then show ?thesis using True "2.IH"(1) [OF True o(1), of st]
      by (cases "decode_body N rest st") (auto simp: decode_body_pad restamp_def)
  next
    case False
    then obtain len rest' where r: "rest = len # rest'" "\<not> length rest' < unat len"
      using "2.prems" by (cases rest) (auto simp: stamp_body_step split: if_splits)
    let ?val = "take (unat len) rest'"
    obtain val' out where o: "stamp_tlv timestamp type ?val = Inr val'"
      "stamp_body timestamp (drop (unat len) rest') = Inr out" "data' = type # len # val' @ out"
      using "2.prems" False r by (auto simp: stamp_body_step and_then_Inr)
    have l: "length val' = unat len" using length_stamp_tlv [OF o(1)] r by simp
    note IH = "2.IH"(2) [OF False r refl o(2)]
    note d = decode_tlv_restamp [OF o(1), of N st]
    show ?thesis
    proof (cases "decode_tlv N type ?val st")
      case (Inl e)
      then show ?thesis using IH d o r l False by (simp add: decode_body_step)
    next
      case (Inr p)
      obtain t st1 where p: "p = (t, st1)" by (cases p)
      have dv: "decode_tlv N type val' st = Inr (map_option (restamp timestamp) t, st1)"
        using d Inr p by (simp add: restamp_pair_def)
      show ?thesis using IH [of st1] dv Inr p o r l False
        by (cases "decode_body N (drop (unat len) rest') st1"; cases t) (auto simp: decode_body_step)
    qed
  qed
qed simp

text \<open>
  C28. Rewriting the timestamps of a datagram keeps its length, and the datagram decodes to the
  same packet, or fails with the same error, with the timestamp of every Hello replaced and
  nothing else changed.
\<close>

theorem stamp_hello_timestamps_decode:
  assumes "stamp_hello_timestamps data timestamp = Inr data'"
  shows "length data' = length data \<and>
    decode_packet N data' src = map_ok (\<lambda>p. \<lparr>tlvs = map (restamp timestamp) (tlvs p)\<rparr>) (decode_packet N data src)"
proof -
  define n where "n = unat (be16 (slice 2 4 data))"
  have h: "4 \<le> length data" "data ! 0 = MAGIC" "data ! 1 = VERSION" "\<not> length data < 4 + n"
    and s: "\<exists>body. stamp_body timestamp (slice 4 (4 + n) data) = Inr body \<and> data' = take 4 data @ body @ drop (4 + n) data"
    using assms by (auto simp: stamp_hello_timestamps_def n_def Let_def and_then_Inr split: if_splits)
  then obtain body where b: "stamp_body timestamp (slice 4 (4 + n) data) = Inr body"
    and d': "data' = take 4 data @ body @ drop (4 + n) data" by blast
  note r = decode_body_restamp [OF b, of N "parser_state_new src"]
  have lb: "length body = n" using r h by (simp add: slice_def)
  have t4: "length (take 4 data) = 4" using h by simp
  have f: "data' ! 0 = data ! 0" "data' ! 1 = data ! 1" "slice 2 4 data' = slice 2 4 data"
    "slice 4 (4 + n) data' = body" "length data' = length data"
    using h t4 lb by (simp_all add: d' slice_def nth_append drop_take)
  show ?thesis
    unfolding decode_packet_def f Let_def n_def [symmetric]
    using h r f by (cases "decode_body N (slice 4 (4 + n) data) (parser_state_new src)") auto
qed

theorem stamp_hello_timestamps_decode_witness:
  "\<exists>data data'. encode_packet sample_packet = Inr data \<and> stamp_hello_timestamps data 77 = Inr data'
     \<and> data' \<noteq> data \<and> decode_packet ipnet_ref data' sample_src =
         map_ok (\<lambda>p. \<lparr>tlvs = map (restamp 77) (tlvs p)\<rparr>) (decode_packet ipnet_ref data sample_src)"
proof -
  have "case encode_packet sample_packet of Inl _ \<Rightarrow> False
      | Inr data \<Rightarrow> (case stamp_hello_timestamps data 77 of Inl _ \<Rightarrow> False | Inr data' \<Rightarrow> data' \<noteq> data)"
    by code_simp
  then obtain data data' where d: "encode_packet sample_packet = Inr data"
    "stamp_hello_timestamps data 77 = Inr data'" "data' \<noteq> data"
    by (auto split: sum.splits)
  then show ?thesis using stamp_hello_timestamps_decode [OF d(2), of ipnet_ref sample_src] by blast
qed

end
