(* ===== verification/Babel_Mac.thy ===== *)
theory Babel_Mac
  imports Babel_Wire
begin

text \<open>
  Packet authentication (RFC 8967), \<open>mac.rs\<close>: an interface signs every outgoing datagram with a
  packet counter and one MAC per key, and accepts an incoming one if a MAC verifies and its counter
  is newer than the last one of its sender, whose counter it learns by a challenge.

  The digests of the \<open>hmac\<close>, \<open>sha2\<close> and \<open>blake2\<close> packages and the comparison of the \<open>subtle\<close>
  package are parameters (\<open>mac_crypto\<close>). The caller's random source is a function on a state that
  is threaded through the calls; it may fail. An array \<open>[u8; 16]\<close> is the 128-bit word of its
  octets. A call that fails part way keeps the changes it made, so every operation returns the
  session next to its result.
\<close>

section \<open>Keys and configuration\<close>

abbreviation (input) MAC_TLV :: u8 where "MAC_TLV \<equiv> 16"
abbreviation (input) PC_TLV :: u8 where "PC_TLV \<equiv> 17"
abbreviation (input) REQUEST_TLV :: u8 where "REQUEST_TLV \<equiv> 18"
abbreviation (input) REPLY_TLV :: u8 where "REPLY_TLV \<equiv> 19"
abbreviation (input) RATE_MS :: u64 where "RATE_MS \<equiv> 300"
abbreviation (input) CHALLENGE_MS :: u64 where "CHALLENGE_MS \<equiv> 30000"
abbreviation (input) EXPIRE_MS :: u64 where "EXPIRE_MS \<equiv> 300000"

type_synonym octets16 = "128 word"

datatype mac_error = KeyLength | KeyCount | MacPacket | Entropy

datatype mac_algorithm = HmacSha256 | Blake2s128

record mac_crypto =
  hmac_sha256 :: "u8 list \<Rightarrow> u8 list \<Rightarrow> u8 list"
  blake2s_128 :: "u8 list \<Rightarrow> u8 list \<Rightarrow> u8 list"
  ct_eq :: "u8 list \<Rightarrow> u8 list \<Rightarrow> bool"

record mac_key =
  mk_algorithm :: mac_algorithm
  mk_bytes :: "u8 list"

definition mac_key_new :: "mac_algorithm \<Rightarrow> u8 list \<Rightarrow> mac_error + mac_key" where
  "mac_key_new algorithm bytes =
     (if bytes = [] \<or> length bytes > 4096 \<or> algorithm = Blake2s128 \<and> length bytes > 32
      then Inl KeyLength
      else Inr \<lparr>mk_algorithm = algorithm, mk_bytes = bytes\<rparr>)"

definition digest :: "mac_crypto \<Rightarrow> mac_key \<Rightarrow> u8 list \<Rightarrow> u8 list" where
  "digest C key data =
     (case mk_algorithm key of
        HmacSha256 \<Rightarrow> hmac_sha256 C (mk_bytes key) data
      | Blake2s128 \<Rightarrow> blake2s_128 C (mk_bytes key) data)"

record mac_config =
  mc_keys :: "mac_key list"
  mc_accept_unverified :: bool

definition mac_config_new :: "mac_key list \<Rightarrow> mac_error + mac_config" where
  "mac_config_new keys =
     (if keys = [] \<or> length keys > 8 then Inl KeyCount
      else Inr \<lparr>mc_keys = keys, mc_accept_unverified = False\<rparr>)"

definition accept_unverified :: "bool \<Rightarrow> mac_config \<Rightarrow> mac_config" where
  "accept_unverified enabled c = c\<lparr>mc_accept_unverified := enabled\<rparr>"

definition is_strict :: "mac_config \<Rightarrow> bool" where
  "is_strict c = (\<not> mc_accept_unverified c)"

definition mac_overhead :: "mac_config \<Rightarrow> nat" where
  "mac_overhead c =
     22 + sum_list (map (\<lambda>k. case mk_algorithm k of HmacSha256 \<Rightarrow> 34 | Blake2s128 \<Rightarrow> 18) (mc_keys c))"

section \<open>Endpoints\<close>

text \<open>A \<open>SocketAddr\<close>: address and port, and for IPv6 the flow information and the scope.\<close>

datatype socket_addr = SockV4 ipv4 u16 | SockV6 ipv6 u16 u32 u32

definition sock_ip :: "socket_addr \<Rightarrow> ip_addr" where
  "sock_ip s = (case s of SockV4 a _ \<Rightarrow> V4 a | SockV6 a _ _ _ \<Rightarrow> V6 a)"

definition sock_port :: "socket_addr \<Rightarrow> u16" where
  "sock_port s = (case s of SockV4 _ p \<Rightarrow> p | SockV6 _ p _ _ \<Rightarrow> p)"

definition sock_rank :: "socket_addr \<Rightarrow> ip_addr \<times> u16 \<times> u32 \<times> u32" where
  "sock_rank s = (case s of SockV4 a p \<Rightarrow> (V4 a, p, 0, 0) | SockV6 a p f i \<Rightarrow> (V6 a, p, f, i))"

lemma sock_rank_inj: "sock_rank a = sock_rank b \<Longrightarrow> a = b"
  by (auto simp: sock_rank_def split: socket_addr.splits)

instantiation socket_addr :: linorder
begin

definition less_eq_socket_addr :: "socket_addr \<Rightarrow> socket_addr \<Rightarrow> bool" where
  "less_eq_socket_addr a b = (sock_rank a \<le> sock_rank b)"

definition less_socket_addr :: "socket_addr \<Rightarrow> socket_addr \<Rightarrow> bool" where
  "less_socket_addr a b = (sock_rank a < sock_rank b)"

instance
  by standard (auto simp: less_eq_socket_addr_def less_socket_addr_def intro: sock_rank_inj)

end

record datagram_endpoints =
  ep_source :: socket_addr
  ep_destination :: socket_addr

definition authenticated_bytes :: "datagram_endpoints \<Rightarrow> u8 list \<Rightarrow> mac_error + u8 list" where
  "authenticated_bytes ep p =
     and_then
       (case (sock_ip (ep_source ep), sock_ip (ep_destination ep)) of
          (V4 s, V4 d) \<Rightarrow> Inr (to_be_bytes s @ to_be_bytes (sock_port (ep_source ep)) @ to_be_bytes d)
        | (V6 s, V6 d) \<Rightarrow> Inr (to_be_bytes s @ to_be_bytes (sock_port (ep_source ep)) @ to_be_bytes d)
        | _ \<Rightarrow> Inl MacPacket)
       (\<lambda>header. Inr (header @ to_be_bytes (sock_port (ep_destination ep)) @ p))"

definition to_multicast :: "datagram_endpoints \<Rightarrow> bool" where
  "to_multicast ep = addr_is_multicast (sock_ip (ep_destination ep))"

section \<open>Framing\<close>

definition body_end :: "u8 list \<Rightarrow> mac_error + nat" where
  "body_end p =
     (if length p < 4 \<or> take 2 p \<noteq> [42, 2] then Inl MacPacket
      else let stop = 4 + unat (be16 (slice 2 4 p))
           in if stop > length p then Inl MacPacket else Inr stop)"

function mac_tlvs :: "u8 list \<Rightarrow> mac_error + (u8 \<times> u8 list) list" where
  "mac_tlvs [] = Inr []"
| "mac_tlvs (t # rest) =
     (if t = 0 then mac_tlvs rest
      else case rest of
        [] \<Rightarrow> Inl MacPacket
      | len # rest' \<Rightarrow>
          if unat len > length rest' then Inl MacPacket
          else and_then (mac_tlvs (drop (unat len) rest')) (\<lambda>ts. Inr ((t, take (unat len) rest') # ts)))"
  by pat_completeness auto
termination
  by (relation "measure length") auto

definition control :: "u8 \<Rightarrow> u8 list \<Rightarrow> u8 list" where
  "control type nonce =
     [42, 2] @ to_be_bytes (of_nat (length nonce + 2) :: u16) @ [type, of_nat (length nonce)] @ nonce"

section \<open>Sessions\<close>

record peer =
  p_index :: "u8 list option"
  p_unicast :: u32
  p_multicast :: u32
  p_nonce :: "(octets16 \<times> u64) option"
  p_last_reply :: "u64 option"
  p_expires :: u64

definition peer_new :: "u64 \<Rightarrow> peer" where
  "peer_new now =
     \<lparr>p_index = None, p_unicast = 0, p_multicast = 0, p_nonce = None, p_last_reply = None,
      p_expires = sat_add now EXPIRE_MS\<rparr>"

record mac_reception =
  accepted_packet :: bool
  controls :: "u8 list list"

definition mac_reception_default :: mac_reception where
  "mac_reception_default = \<lparr>accepted_packet = False, controls = []\<rparr>"

record mac_session =
  ms_config :: mac_config
  ms_index :: octets16
  ms_counter :: u32
  ms_peers :: "(socket_addr, peer) table"
  ms_max_peers :: nat
  ms_last_challenge :: "u64 option"

type_synonym 'r random = "'r \<Rightarrow> (mac_error + octets16) \<times> 'r"

definition mac_session_new :: "mac_config \<Rightarrow> nat \<Rightarrow> 'r random \<Rightarrow> 'r \<Rightarrow> (mac_error + mac_session) \<times> 'r" where
  "mac_session_new c max_peers random r =
     (case random r of
        (Inl err, r') \<Rightarrow> (Inl err, r')
      | (Inr index, r') \<Rightarrow>
          (Inr \<lparr>ms_config = c, ms_index = index, ms_counter = 0, ms_peers = [],
                ms_max_peers = max_peers, ms_last_challenge = None\<rparr>, r'))"

text \<open>A new index is drawn once the counter is used up.\<close>

definition renew_index :: "'r random \<Rightarrow> mac_session \<Rightarrow> 'r \<Rightarrow> (mac_error + mac_session) \<times> 'r" where
  "renew_index random s r =
     (if ms_counter s = 0xffffffff
      then case random r of
             (Inl err, r') \<Rightarrow> (Inl err, r')
           | (Inr index, r') \<Rightarrow> (Inr (s\<lparr>ms_index := index, ms_counter := 0\<rparr>), r')
      else (Inr s, r))"

text \<open>The packet with its counter TLV and the length of its body written into the header.\<close>

definition add_counter :: "mac_session \<Rightarrow> u8 list \<Rightarrow> mac_error + u8 list" where
  "add_counter s p =
     (let out = p @ [PC_TLV, 20] @ to_be_bytes (ms_counter s) @ to_be_bytes (ms_index s);
          len = length out - 4
      in if len > 65535 then Inl MacPacket
         else Inr (take 2 out @ to_be_bytes (of_nat len :: u16) @ drop 4 out))"

definition mac_trailer :: "mac_crypto \<Rightarrow> mac_key list \<Rightarrow> u8 list \<Rightarrow> u8 list" where
  "mac_trailer C keys data =
     concat (map (\<lambda>key. [MAC_TLV, of_nat (length (digest C key data))] @ digest C key data) keys)"

definition is_auth_tlv :: "u8 \<times> u8 list \<Rightarrow> bool" where
  "is_auth_tlv = (\<lambda>(t, _). t = PC_TLV \<or> t = MAC_TLV)"

definition sign :: "mac_crypto \<Rightarrow> 'r random \<Rightarrow> u8 list \<Rightarrow> datagram_endpoints
    \<Rightarrow> mac_session \<Rightarrow> 'r \<Rightarrow> (mac_error + u8 list) \<times> mac_session \<times> 'r" where
  "sign C random p ep s r =
     (case and_then (body_end p) (\<lambda>stop.
             if stop \<noteq> length p then Inl MacPacket else mac_tlvs (slice 4 stop p)) of
        Inl err \<Rightarrow> (Inl err, s, r)
      | Inr ts \<Rightarrow>
          if list_ex is_auth_tlv ts then (Inl MacPacket, s, r)
          else case renew_index random s r of
            (Inl err, r') \<Rightarrow> (Inl err, s, r')
          | (Inr s1, r') \<Rightarrow>
              (and_then (add_counter s1 p) (\<lambda>out.
                 and_then (authenticated_bytes ep out) (\<lambda>data.
                   Inr (out @ mac_trailer C (mc_keys (ms_config s1)) data))),
               s1\<lparr>ms_counter := ms_counter s1 + 1\<rparr>, r'))"

definition mac_expire :: "u64 \<Rightarrow> mac_session \<Rightarrow> mac_session" where
  "mac_expire now s = s\<lparr>ms_peers := filter (\<lambda>(_, p). now < p_expires p) (ms_peers s)\<rparr>"

text \<open>Whether some MAC of the trailer verifies under some key.\<close>

definition verify :: "mac_crypto \<Rightarrow> mac_config \<Rightarrow> datagram_endpoints \<Rightarrow> u8 list \<Rightarrow> nat \<Rightarrow> mac_error + bool" where
  "verify C c ep p stop =
     and_then (mac_tlvs (drop stop p)) (\<lambda>trailer.
       if \<not> list_ex (\<lambda>(t, _). t = MAC_TLV) trailer then Inr False
       else and_then (authenticated_bytes ep (take stop p)) (\<lambda>data.
         Inr (list_ex (\<lambda>key. list_ex (\<lambda>(t, v). t = MAC_TLV \<and> ct_eq C (digest C key data) v) trailer)
                (mc_keys c))))"

text \<open>What the loop over the body collects.\<close>

record mac_scan =
  sc_counter :: "(u32 \<times> u8 list) option"
  sc_request :: "u8 list option"
  sc_success :: bool

definition answers :: "mac_crypto \<Rightarrow> u64 \<Rightarrow> peer \<Rightarrow> u8 list \<Rightarrow> bool" where
  "answers C now p v =
     (case p_nonce p of
        None \<Rightarrow> False
      | Some (nonce, expires) \<Rightarrow> now < expires \<and> ct_eq C (to_be_bytes nonce) v)"

definition scan_tlv ::
    "mac_crypto \<Rightarrow> datagram_endpoints \<Rightarrow> u64 \<Rightarrow> peer \<Rightarrow> u8 \<times> u8 list \<Rightarrow> mac_scan \<Rightarrow> mac_scan" where
  "scan_tlv C ep now p = (\<lambda>(t, v) sc.
     if t = PC_TLV \<and> sc_counter sc = None \<and> 4 \<le> length v \<and> length v \<le> 36
     then sc\<lparr>sc_counter := Some (be32 v, drop 4 v)\<rparr>
     else if t = REQUEST_TLV \<and> length v \<le> 192 \<and> \<not> to_multicast ep then sc\<lparr>sc_request := Some v\<rparr>
     else if t = REPLY_TLV \<and> length v \<le> 192
     then sc\<lparr>sc_success := (sc_success sc \<or> answers C now p v)\<rparr>
     else sc)"

definition scan_body :: "mac_crypto \<Rightarrow> datagram_endpoints \<Rightarrow> u64 \<Rightarrow> peer \<Rightarrow> (u8 \<times> u8 list) list \<Rightarrow> mac_scan" where
  "scan_body C ep now p body =
     fold (scan_tlv C ep now p) body \<lparr>sc_counter = None, sc_request = None, sc_success = False\<rparr>"

definition rate_allows :: "u64 \<Rightarrow> u64 option \<Rightarrow> bool" where
  "rate_allows now prev = (case prev of None \<Rightarrow> True | Some t \<Rightarrow> sat_sub now t \<ge> RATE_MS)"

definition reply_to_request :: "u64 \<Rightarrow> u8 list option \<Rightarrow> peer \<Rightarrow> u8 list list \<times> peer" where
  "reply_to_request now request p =
     (case request of
        None \<Rightarrow> ([], p)
      | Some nonce \<Rightarrow>
          if rate_allows now (p_last_reply p)
          then ([control REPLY_TLV nonce], p\<lparr>p_last_reply := Some now\<rparr>) else ([], p))"

text \<open>The packet counter against what is known of the peer: whether the packet is fresh, the
  challenge to send, the peer and the time of the last challenge.\<close>

definition check_counter ::
    "'r random \<Rightarrow> datagram_endpoints \<Rightarrow> u64 \<Rightarrow> bool \<Rightarrow> u32 \<Rightarrow> u8 list \<Rightarrow> peer \<Rightarrow> u64 option \<Rightarrow> 'r
      \<Rightarrow> (mac_error + bool \<times> u8 list list) \<times> peer \<times> u64 option \<times> 'r" where
  "check_counter random ep now success pc index p challenged r =
     (if success
      then (Inr (True, []), p\<lparr>p_nonce := None, p_index := Some index, p_unicast := pc, p_multicast := pc,
              p_expires := sat_add now EXPIRE_MS\<rparr>, challenged, r)
      else if p_index p \<noteq> Some index
      then if rate_allows now challenged
           then case random r of
                  (Inl err, r') \<Rightarrow> (Inl err, p, challenged, r')
                | (Inr nonce, r') \<Rightarrow>
                    (Inr (False, [control REQUEST_TLV (to_be_bytes nonce)]),
                     p\<lparr>p_nonce := Some (nonce, sat_add now CHALLENGE_MS)\<rparr>, Some now, r')
           else (Inr (False, []), p, challenged, r)
      else if pc \<le> (if to_multicast ep then p_multicast p else p_unicast p)
      then (Inr (False, []), p, challenged, r)
      else (Inr (True, []),
            (if to_multicast ep then p\<lparr>p_multicast := pc\<rparr> else p\<lparr>p_unicast := pc\<rparr>)
              \<lparr>p_expires := sat_add now EXPIRE_MS\<rparr>, challenged, r))"

text \<open>A verified packet, with the TLVs of its body.\<close>

definition receive_verified ::
    "mac_crypto \<Rightarrow> 'r random \<Rightarrow> datagram_endpoints \<Rightarrow> u64 \<Rightarrow> (u8 \<times> u8 list) list
      \<Rightarrow> mac_session \<Rightarrow> 'r \<Rightarrow> (mac_error + mac_reception) \<times> mac_session \<times> 'r" where
  "receive_verified C random ep now body s r =
     (let src = ep_source ep; unverified = mc_accept_unverified (ms_config s)
      in if \<not> contains_key (ms_peers s) src \<and> length (ms_peers s) \<ge> ms_max_peers s
         then (Inr \<lparr>accepted_packet = unverified, controls = []\<rparr>, s, r)
         else
           let p0 = (case map_of (ms_peers s) src of None \<Rightarrow> peer_new now | Some p \<Rightarrow> p);
               sc = scan_body C ep now p0 body;
               (replies, p1) = reply_to_request now (sc_request sc) p0
           in case sc_counter sc of
                None \<Rightarrow> (Inr \<lparr>accepted_packet = unverified, controls = replies\<rparr>,
                         s\<lparr>ms_peers := bt_insert src p1 (ms_peers s)\<rparr>, r)
              | Some (pc, index) \<Rightarrow>
                  (case check_counter random ep now (sc_success sc) pc index p1 (ms_last_challenge s) r of
                     (verdict, p2, challenged, r') \<Rightarrow>
                       (and_then verdict (\<lambda>(fresh, challenges).
                          Inr \<lparr>accepted_packet = (unverified \<or> fresh), controls = replies @ challenges\<rparr>),
                        s\<lparr>ms_peers := bt_insert src p2 (ms_peers s), ms_last_challenge := challenged\<rparr>, r')))"

definition receive_inner ::
    "mac_crypto \<Rightarrow> 'r random \<Rightarrow> u8 list \<Rightarrow> datagram_endpoints \<Rightarrow> u64
      \<Rightarrow> mac_session \<Rightarrow> 'r \<Rightarrow> (mac_error + mac_reception) \<times> mac_session \<times> 'r" where
  "receive_inner C random p ep now s r =
     (case and_then (body_end p) (\<lambda>stop.
             and_then (if mc_accept_unverified (ms_config s) then Inr True
                       else verify C (ms_config s) ep p stop) (\<lambda>valid.
               if valid then and_then (mac_tlvs (slice 4 stop p)) (\<lambda>body. Inr (Some body)) else Inr None)) of
        Inl err \<Rightarrow> (Inl err, s, r)
      | Inr None \<Rightarrow> (Inr \<lparr>accepted_packet = mc_accept_unverified (ms_config s), controls = []\<rparr>, s, r)
      | Inr (Some body) \<Rightarrow> receive_verified C random ep now body s r)"

definition mac_receive ::
    "mac_crypto \<Rightarrow> 'r random \<Rightarrow> u8 list \<Rightarrow> datagram_endpoints \<Rightarrow> u64
      \<Rightarrow> mac_session \<Rightarrow> 'r \<Rightarrow> mac_reception \<times> mac_session \<times> 'r" where
  "mac_receive C random p ep now s r =
     (case receive_inner C random p ep now (mac_expire now s) r of
        (Inl _, s', r') \<Rightarrow> (mac_reception_default, s', r')
      | (Inr result, s', r') \<Rightarrow> (result, s', r'))"

end
