(* ===== verification/Babel_Authentic.thy ===== *)
theory Babel_Authentic
  imports Babel_Mac
begin

text \<open>
  What packet authentication promises: the shape of a signed packet, that a strict session ignores
  whatever carries no valid MAC, that an accepted packet cannot be replayed, that the state kept
  for peers is bounded, and that two sessions with a key in common come to accept each other.
\<close>

section \<open>Framing\<close>

lemma mac_tlvs_append:
  "mac_tlvs xs = Inr ts \<Longrightarrow> mac_tlvs (xs @ ys) = and_then (mac_tlvs ys) (\<lambda>us. Inr (ts @ us))"
proof (induction xs arbitrary: ts rule: mac_tlvs.induct)
  case 1
  then show ?case by (cases "mac_tlvs ys") auto
next
  case (2 t rest)
  show ?case
  proof (cases "t = 0")
    case True
    then show ?thesis using 2 by simp
  next
    case False
    then obtain len rest' us where rest: "rest = len # rest'" "unat len \<le> length rest'"
      and us: "mac_tlvs (drop (unat len) rest') = Inr us" "ts = (t, take (unat len) rest') # us"
      using 2(3) by (auto simp: and_then_Inr not_less split: list.splits if_splits)
    have "mac_tlvs (drop (unat len) rest' @ ys) = and_then (mac_tlvs ys) (\<lambda>vs. Inr (us @ vs))"
      using 2(2) [OF False rest(1)] rest(2) us(1) by (simp add: not_less)
    then show ?thesis using False rest us by (cases "mac_tlvs ys") (simp_all add: not_less)
  qed
qed

lemma mac_tlvs_tlv:
  assumes "t \<noteq> 0" "length v \<le> 255"
  shows "mac_tlvs (t # of_nat (length v) # v @ rest) = and_then (mac_tlvs rest) (\<lambda>ts. Inr ((t, v) # ts))"
  using assms by (simp add: unat_length_octet)

lemma mac_tlvs_trailer:
  "(\<And>key. key \<in> set keys \<Longrightarrow> length (digest C key data) \<le> 255) \<Longrightarrow>
     mac_tlvs (mac_trailer C keys data) = Inr (map (\<lambda>key. (MAC_TLV, digest C key data)) keys)"
proof (induction keys)
  case Nil
  then show ?case by (simp add: mac_trailer_def)
next
  case (Cons key keys)
  have "mac_trailer C (key # keys) data =
      MAC_TLV # of_nat (length (digest C key data)) # digest C key data @ mac_trailer C keys data"
    by (simp add: mac_trailer_def)
  then show ?case using Cons mac_tlvs_tlv [of MAC_TLV "digest C key data"] by simp
qed

lemma body_end_Inr:
  "body_end p = Inr stop \<longleftrightarrow>
     4 \<le> length p \<and> take 2 p = [42, 2] \<and> stop = 4 + unat (be16 (slice 2 4 p)) \<and> stop \<le> length p"
  by (auto simp: body_end_def Let_def)

lemma body_end_header:
  assumes "n \<le> 65535" "n \<le> length rest"
  shows "body_end ([42, 2] @ to_be_bytes (of_nat n :: u16) @ rest) = Inr (4 + n)"
proof -
  obtain h l where hl: "to_be_bytes (of_nat n :: u16) = [h, l]" "be16 [h, l] = (of_nat n :: u16)"
    using u16_octets [of "of_nat n :: u16"] by blast
  have "unat (of_nat n :: u16) = n" using assms(1) by (simp add: unat_of_nat)
  then show ?thesis using assms(2) hl by (simp add: body_end_Inr slice_def)
qed

lemma control_body:
  assumes "t \<noteq> 0" "length nonce \<le> 192"
  shows "body_end (control t nonce) = Inr (length (control t nonce))"
    "mac_tlvs (drop 4 (control t nonce)) = Inr [(t, nonce)]"
proof -
  obtain h l where hl: "to_be_bytes (of_nat (length nonce + 2) :: u16) = [h, l]"
    using u16_octets by blast
  show "body_end (control t nonce) = Inr (length (control t nonce))"
    using body_end_header [of "length nonce + 2" "[t, of_nat (length nonce)] @ nonce"] assms(2)
    by (simp add: control_def)
  show "mac_tlvs (drop 4 (control t nonce)) = Inr [(t, nonce)]"
    using mac_tlvs_tlv [of t nonce "[]"] assms hl by (simp add: control_def)
qed

section \<open>Signed packets\<close>

definition pc_value :: "mac_session \<Rightarrow> u8 list" where
  "pc_value s = to_be_bytes (ms_counter s) @ to_be_bytes (ms_index s)"

lemma length_pc_value [simp]: "length (pc_value s) = 20"
  by (simp add: pc_value_def)

lemma pc_value_parts [simp]: "be32 (pc_value s) = ms_counter s" "drop 4 (pc_value s) = to_be_bytes (ms_index s)"
  by (simp_all add: pc_value_def be32_to_be_bytes)

lemma add_counter_shape:
  assumes add: "add_counter s p = Inr out" and p: "body_end p = Inr (length p)"
    and ts: "mac_tlvs (drop 4 p) = Inr ts"
  shows "body_end (out @ rest) = Inr (length out)" "4 \<le> length out"
    "mac_tlvs (drop 4 out) = Inr (ts @ [(PC_TLV, pc_value s)])"
proof -
  have len: "4 \<le> length p" and magic: "take 2 p = [42, 2]" using p by (simp_all add: body_end_Inr)
  define x where "x = drop 4 p @ PC_TLV # of_nat (length (pc_value s)) # pc_value s"
  have x: "length x \<le> 65535" and out: "out = [42, 2] @ to_be_bytes (of_nat (length x) :: u16) @ x"
    using add len magic
    by (auto simp: add_counter_def Let_def x_def pc_value_def split: if_splits)
  have len_out: "length out = 4 + length x" by (simp add: out)
  show "body_end (out @ rest) = Inr (length out)"
    unfolding len_out using body_end_header [OF x, of "x @ rest"] by (simp add: out)
  show "4 \<le> length out" by (simp add: len_out)
  have "drop 4 out = x" by (simp add: out)
  then show "mac_tlvs (drop 4 out) = Inr (ts @ [(PC_TLV, pc_value s)])"
    using mac_tlvs_append [OF ts] mac_tlvs_tlv [of PC_TLV "pc_value s" "[]"] by (simp add: x_def)
qed

text \<open>What \<open>sign\<close> produces: the TLVs of the packet followed by the counter, and the MACs after it.\<close>

definition signed_as :: "mac_crypto \<Rightarrow> mac_session \<Rightarrow> datagram_endpoints \<Rightarrow> (u8 \<times> u8 list) list \<Rightarrow> u8 list \<Rightarrow> bool" where
  "signed_as C s ep ts out \<longleftrightarrow>
     (\<exists>body data. out = body @ mac_trailer C (mc_keys (ms_config s)) data
        \<and> authenticated_bytes ep body = Inr data \<and> 4 \<le> length body
        \<and> body_end out = Inr (length body) \<and> mac_tlvs (drop 4 body) = Inr (ts @ [(PC_TLV, pc_value s)]))"

lemma sign_Inr:
  assumes "sign C random p ep s r = (Inr out, s', r')"
  obtains s1 ts where "body_end p = Inr (length p)" "mac_tlvs (drop 4 p) = Inr ts" "\<not> list_ex is_auth_tlv ts"
    "renew_index random s r = (Inr s1, r')" "s' = s1\<lparr>ms_counter := ms_counter s1 + 1\<rparr>"
    "signed_as C s1 ep ts out"
proof -
  from assms obtain ts s1 body data where
    p: "body_end p = Inr (length p)" "mac_tlvs (drop 4 p) = Inr ts" and na: "\<not> list_ex is_auth_tlv ts"
    and s1: "renew_index random s r = (Inr s1, r')" and s': "s' = s1\<lparr>ms_counter := ms_counter s1 + 1\<rparr>"
    and add: "add_counter s1 p = Inr body" and data: "authenticated_bytes ep body = Inr data"
    and out: "out = body @ mac_trailer C (mc_keys (ms_config s1)) data"
    by (auto simp: sign_def and_then_Inr and_then_Inl slice_def split: sum.splits if_splits prod.splits)
  have "signed_as C s1 ep ts out"
    unfolding signed_as_def using add_counter_shape [OF add p] data out by blast
  then show thesis using that p na s1 s' by blast
qed

lemma renew_index_Inr:
  assumes "renew_index random s r = (Inr s1, r')"
  shows "ms_config s1 = ms_config s" "ms_peers s1 = ms_peers s" "ms_max_peers s1 = ms_max_peers s"
    "ms_last_challenge s1 = ms_last_challenge s" "ms_counter s1 \<noteq> 0xffffffff"
  using assms by (auto simp: renew_index_def split: if_splits sum.splits prod.splits)

section \<open>Verification\<close>

text \<open>A packet is authentic if its trailer holds the digest, under one of the keys, of its body and
  of the endpoints it travels between.\<close>

definition authentic :: "mac_crypto \<Rightarrow> mac_key list \<Rightarrow> datagram_endpoints \<Rightarrow> u8 list \<Rightarrow> bool" where
  "authentic C keys ep p \<longleftrightarrow>
     (\<exists>stop trailer data key. body_end p = Inr stop \<and> mac_tlvs (drop stop p) = Inr trailer
        \<and> authenticated_bytes ep (take stop p) = Inr data
        \<and> key \<in> set keys \<and> (MAC_TLV, digest C key data) \<in> set trailer)"

lemma verify_authentic:
  assumes "\<And>a b. ct_eq C a b \<longleftrightarrow> a = b" "body_end p = Inr stop"
  shows "verify C c ep p stop = Inr True \<longleftrightarrow> authentic C (mc_keys c) ep p"
  unfolding verify_def authentic_def and_then_Inr assms
  by (auto simp: list_ex_iff and_then_Inr assms) blast+

lemma signed_authentic:
  assumes "signed_as C s ep ts out" "key \<in> set (mc_keys (ms_config s))" "key \<in> set keys"
    and digest: "\<And>key data. length (digest C key data) \<le> 255"
  shows "authentic C keys ep out"
proof -
  from assms(1) obtain body data where out: "out = body @ mac_trailer C (mc_keys (ms_config s)) data"
    and ok: "authenticated_bytes ep body = Inr data" "body_end out = Inr (length body)"
    by (auto simp: signed_as_def)
  have "mac_tlvs (drop (length body) out) = Inr (map (\<lambda>key. (MAC_TLV, digest C key data)) (mc_keys (ms_config s)))"
    using mac_tlvs_trailer [OF digest] by (simp add: out)
  then show ?thesis unfolding authentic_def using ok assms(2,3) out by fastforce
qed

lemma receive_inner_cases:
  assumes "\<And>a b. ct_eq C a b \<longleftrightarrow> a = b" and strict: "is_strict (ms_config s)"
  obtains (ignored) res where "receive_inner C random p ep now s r = (res, s, r)"
      "res = Inr mac_reception_default \<or> (\<exists>err. res = Inl err)"
  | (verified) stop body where "authentic C (mc_keys (ms_config s)) ep p" "body_end p = Inr stop"
      "mac_tlvs (slice 4 stop p) = Inr body"
      "receive_inner C random p ep now s r = receive_verified C random ep now body s r"
proof (cases "body_end p")
  case (Inl err)
  then show thesis using ignored [of "Inl err"] by (simp add: receive_inner_def)
next
  case (Inr stop)
  note v = verify_authentic [OF assms(1) Inr, of "ms_config s" ep]
  show thesis
  proof (cases "verify C (ms_config s) ep p stop")
    case (Inl err)
    then show thesis using ignored [of "Inl err"] Inr strict by (simp add: receive_inner_def is_strict_def)
  next
    case valid: (Inr valid)
    show thesis
    proof (cases "valid \<and> (\<exists>body. mac_tlvs (slice 4 stop p) = Inr body)")
      case True
      then obtain body where "valid" and body: "mac_tlvs (slice 4 stop p) = Inr body" by blast
      then show thesis using verified [OF _ Inr body] v valid Inr strict
        by (simp add: receive_inner_def is_strict_def)
    next
      case False
      then show thesis
        using ignored [of "if valid then map_sum id undefined (mac_tlvs (slice 4 stop p)) else Inr mac_reception_default"]
          Inr valid strict
        by (cases "mac_tlvs (slice 4 stop p)") (auto simp: receive_inner_def is_strict_def mac_reception_default_def)
    qed
  qed
qed

lemma receive_inner_authentic:
  assumes "\<And>a b. ct_eq C a b \<longleftrightarrow> a = b" "authentic C (mc_keys (ms_config s)) ep p"
    "body_end p = Inr stop" "mac_tlvs (slice 4 stop p) = Inr body"
  shows "receive_inner C random p ep now s r = receive_verified C random ep now body s r"
  using verify_authentic [OF assms(1,3), of "ms_config s" ep] assms(2-4)
  by (simp add: receive_inner_def)

section \<open>Counters\<close>

text \<open>The counter of a packet is its first packet counter TLV of a permitted length.\<close>

definition packet_counter :: "(u8 \<times> u8 list) list \<Rightarrow> (u32 \<times> u8 list) option" where
  "packet_counter body =
     (case find (\<lambda>(t, v). t = PC_TLV \<and> 4 \<le> length v \<and> length v \<le> 36) body of
        None \<Rightarrow> None
      | Some (_, v) \<Rightarrow> Some (be32 v, drop 4 v))"

definition answered :: "mac_crypto \<Rightarrow> u64 \<Rightarrow> peer \<Rightarrow> (u8 \<times> u8 list) list \<Rightarrow> bool" where
  "answered C now p body = list_ex (\<lambda>(t, v). t = REPLY_TLV \<and> length v \<le> 192 \<and> answers C now p v) body"

lemma fold_scan_counter:
  "sc_counter (fold (scan_tlv C ep now p) body sc) =
     (case sc_counter sc of None \<Rightarrow> packet_counter body | Some c \<Rightarrow> Some c)"
  by (induction body arbitrary: sc) (auto simp: scan_tlv_def packet_counter_def split: prod.splits option.splits)

lemma fold_scan_success:
  "sc_success (fold (scan_tlv C ep now p) body sc) \<longleftrightarrow> sc_success sc \<or> answered C now p body"
  by (induction body arbitrary: sc) (auto simp: scan_tlv_def answered_def split: prod.splits)

lemma scan_body_fields [simp]:
  "sc_counter (scan_body C ep now p body) = packet_counter body"
  "sc_success (scan_body C ep now p body) = answered C now p body"
  by (simp_all add: scan_body_def fold_scan_counter fold_scan_success)

definition counter_for :: "datagram_endpoints \<Rightarrow> peer \<Rightarrow> u32" where
  "counter_for ep p = (if to_multicast ep then p_multicast p else p_unicast p)"

lemma check_counter_fresh:
  assumes "check_counter random ep now success pc index p challenged r = (Inr (True, cs), p', challenged', r')"
  shows "p_index p' = Some index" "counter_for ep p' = pc" "cs = []" "r' = r"
    "success \<or> p_index p = Some index \<and> counter_for ep p < pc"
  using assms
  by (auto simp: check_counter_def counter_for_def Let_def split: if_splits sum.splits prod.splits)

lemma check_counter_keeps:
  assumes "check_counter random ep now False pc index p challenged r = (res, p', challenged', r')"
  shows "p_index p' = p_index p" "p_unicast p \<le> p_unicast p'" "p_multicast p \<le> p_multicast p'"
  using assms
  by (auto simp: check_counter_def split: if_splits sum.splits prod.splits)

lemma reply_to_request_keeps:
  assumes "reply_to_request now request p = (cs, p')"
  shows "p_index p' = p_index p" "p_unicast p' = p_unicast p" "p_multicast p' = p_multicast p" "p_nonce p' = p_nonce p"
  using assms by (auto simp: reply_to_request_def split: if_splits option.splits)

section \<open>Sessions\<close>

definition mac_session_ok :: "mac_session \<Rightarrow> bool" where
  "mac_session_ok s \<longleftrightarrow> sorted_wrt (<) (table_keys (ms_peers s)) \<and> length (ms_peers s) \<le> ms_max_peers s"

text \<open>The peer a verified packet is handled with.\<close>

definition peer_of :: "mac_session \<Rightarrow> u64 \<Rightarrow> socket_addr \<Rightarrow> peer" where
  "peer_of s now src = (case map_of (ms_peers s) src of None \<Rightarrow> peer_new now | Some p \<Rightarrow> p)"

lemma receive_verified_eq:
  assumes "contains_key (ms_peers s) (ep_source ep) \<or> length (ms_peers s) < ms_max_peers s"
    "reply_to_request now (sc_request (scan_body C ep now (peer_of s now (ep_source ep)) body))
       (peer_of s now (ep_source ep)) = (cs, p1)"
  shows "receive_verified C random ep now body s r =
     (case packet_counter body of
        None \<Rightarrow> (Inr \<lparr>accepted_packet = mc_accept_unverified (ms_config s), controls = cs\<rparr>,
                 s\<lparr>ms_peers := bt_insert (ep_source ep) p1 (ms_peers s)\<rparr>, r)
      | Some (pc, index) \<Rightarrow>
          (case check_counter random ep now (answered C now (peer_of s now (ep_source ep)) body) pc index p1
              (ms_last_challenge s) r of
             (verdict, p2, challenged, r') \<Rightarrow>
               (and_then verdict (\<lambda>(fresh, challenges).
                  Inr \<lparr>accepted_packet = (mc_accept_unverified (ms_config s) \<or> fresh), controls = cs @ challenges\<rparr>),
                s\<lparr>ms_peers := bt_insert (ep_source ep) p2 (ms_peers s), ms_last_challenge := challenged\<rparr>, r')))"
proof -
  have room: "\<not> (\<not> contains_key (ms_peers s) (ep_source ep) \<and> length (ms_peers s) \<ge> ms_max_peers s)"
    using assms(1) by auto
  show ?thesis
    unfolding receive_verified_def Let_def peer_of_def [symmetric] scan_body_fields assms(2) prod.case if_not_P [OF room]
    by (rule refl)
qed

lemma receive_verified_cases:
  assumes "receive_verified C random ep now body s r = (res, s', r')"
  obtains (full) "res = Inr \<lparr>accepted_packet = mc_accept_unverified (ms_config s), controls = []\<rparr>" "s' = s" "r' = r"
      "\<not> contains_key (ms_peers s) (ep_source ep)"
  | (no_counter) cs p1 where "packet_counter body = None"
      "reply_to_request now (sc_request (scan_body C ep now (peer_of s now (ep_source ep)) body))
         (peer_of s now (ep_source ep)) = (cs, p1)"
      "contains_key (ms_peers s) (ep_source ep) \<or> length (ms_peers s) < ms_max_peers s"
      "res = Inr \<lparr>accepted_packet = mc_accept_unverified (ms_config s), controls = cs\<rparr>"
      "s' = s\<lparr>ms_peers := bt_insert (ep_source ep) p1 (ms_peers s)\<rparr>" "r' = r"
  | (counter) pc index cs p1 verdict p2 challenged where "packet_counter body = Some (pc, index)"
      "reply_to_request now (sc_request (scan_body C ep now (peer_of s now (ep_source ep)) body))
         (peer_of s now (ep_source ep)) = (cs, p1)"
      "contains_key (ms_peers s) (ep_source ep) \<or> length (ms_peers s) < ms_max_peers s"
      "check_counter random ep now (answered C now (peer_of s now (ep_source ep)) body) pc index p1
         (ms_last_challenge s) r = (verdict, p2, challenged, r')"
      "res = and_then verdict (\<lambda>(fresh, challenges).
         Inr \<lparr>accepted_packet = (mc_accept_unverified (ms_config s) \<or> fresh), controls = cs @ challenges\<rparr>)"
      "s' = s\<lparr>ms_peers := bt_insert (ep_source ep) p2 (ms_peers s), ms_last_challenge := challenged\<rparr>"
proof (cases "\<not> contains_key (ms_peers s) (ep_source ep) \<and> length (ms_peers s) \<ge> ms_max_peers s")
  case True
  have e: "receive_verified C random ep now body s r =
      (Inr \<lparr>accepted_packet = mc_accept_unverified (ms_config s), controls = []\<rparr>, s, r)"
    unfolding receive_verified_def Let_def if_P [OF True] by (rule refl)
  show thesis by (rule full) (use e assms True in simp_all)
next
  case False
  then have room: "contains_key (ms_peers s) (ep_source ep) \<or> length (ms_peers s) < ms_max_peers s" by auto
  obtain cs p1 where reply: "reply_to_request now (sc_request (scan_body C ep now (peer_of s now (ep_source ep)) body))
      (peer_of s now (ep_source ep)) = (cs, p1)" by (rule prod.exhaust)
  note eq = receive_verified_eq [OF room reply, of random r, unfolded assms]
  show thesis
  proof (cases "packet_counter body")
    case None
    note e = eq [unfolded None option.case]
    show thesis by (rule no_counter [OF None reply room]) (use e in simp_all)
  next
    case (Some x)
    obtain pc index where x: "x = (pc, index)" by (rule prod.exhaust)
    obtain verdict p2 challenged r2 where
      c: "check_counter random ep now (answered C now (peer_of s now (ep_source ep)) body) pc index p1
         (ms_last_challenge s) r = (verdict, p2, challenged, r2)" by (rule prod_cases4)
    note e = eq [unfolded Some x option.case prod.case c]
    from e have "r2 = r'" by simp
    with c have c': "check_counter random ep now (answered C now (peer_of s now (ep_source ep)) body) pc index p1
         (ms_last_challenge s) r = (verdict, p2, challenged, r')" by simp
    show thesis by (rule counter [OF Some [unfolded x] reply room c']) (use e in simp_all)
  qed
qed

lemma receive_verified_session:
  assumes "mac_session_ok s" "receive_verified C random ep now body s r = (res, s', r')"
  shows "mac_session_ok s'" "ms_config s' = ms_config s" "ms_max_peers s' = ms_max_peers s"
    "\<And>src. src \<noteq> ep_source ep \<Longrightarrow> map_of (ms_peers s') src = map_of (ms_peers s) src"
proof -
  have sorted: "sorted_wrt (<) (table_keys (ms_peers s))" and len: "length (ms_peers s) \<le> ms_max_peers s"
    using assms(1) by (simp_all add: mac_session_ok_def)
  have ins: "sorted_wrt (<) (table_keys (bt_insert (ep_source ep) p (ms_peers s)))"
    "src \<noteq> ep_source ep \<Longrightarrow> map_of (bt_insert (ep_source ep) p (ms_peers s)) src = map_of (ms_peers s) src"
    "contains_key (ms_peers s) (ep_source ep) \<or> length (ms_peers s) < ms_max_peers s
       \<Longrightarrow> length (bt_insert (ep_source ep) p (ms_peers s)) \<le> ms_max_peers s" for p src
    using btree.shape_ins [OF sorted] btree.lookup_other [OF sorted] btree.length_ins [OF sorted] len by auto
  have "mac_session_ok s' \<and> ms_config s' = ms_config s \<and> ms_max_peers s' = ms_max_peers s
      \<and> (\<forall>src. src \<noteq> ep_source ep \<longrightarrow> map_of (ms_peers s') src = map_of (ms_peers s) src)"
    using assms(2)
  proof (cases rule: receive_verified_cases)
    case full
    then show ?thesis using assms(1) by simp
  next
    case (no_counter cs p1)
    then show ?thesis using ins(1) [of p1] ins(2) [where p = p1] ins(3) [of p1] by (simp add: mac_session_ok_def del: set_map)
  next
    case (counter pc index cs p1 verdict p2 challenged)
    then show ?thesis using ins(1) [of p2] ins(2) [where p = p2] ins(3) [of p2] by (simp add: mac_session_ok_def del: set_map)
  qed
  then show "mac_session_ok s'" "ms_config s' = ms_config s" "ms_max_peers s' = ms_max_peers s"
    "\<And>src. src \<noteq> ep_source ep \<Longrightarrow> map_of (ms_peers s') src = map_of (ms_peers s) src" by blast+
qed

lemma expire_session:
  assumes "mac_session_ok s"
  shows "mac_session_ok (mac_expire now s)" "ms_config (mac_expire now s) = ms_config s"
    "ms_max_peers (mac_expire now s) = ms_max_peers s"
    "map_of (ms_peers (mac_expire now s)) src =
       (case map_of (ms_peers s) src of None \<Rightarrow> None | Some p \<Rightarrow> if now < p_expires p then Some p else None)"
proof -
  have sorted: "sorted_wrt (<) (table_keys (ms_peers s))" and len: "length (ms_peers s) \<le> ms_max_peers s"
    using assms by (simp_all add: mac_session_ok_def)
  show "mac_session_ok (mac_expire now s)"
    using btree.shape_filter [OF sorted] len le_trans [OF length_filter_le]
    unfolding mac_session_ok_def mac_expire_def by simp
  show "ms_config (mac_expire now s) = ms_config s" "ms_max_peers (mac_expire now s) = ms_max_peers s"
    by (simp_all add: mac_expire_def)
  show "map_of (ms_peers (mac_expire now s)) src =
       (case map_of (ms_peers s) src of None \<Rightarrow> None | Some p \<Rightarrow> if now < p_expires p then Some p else None)"
    using btree.retain_lookup [OF sorted, of "\<lambda>(_, p). now < p_expires p" src]
    by (simp add: mac_expire_def split: option.splits)
qed

lemma mac_receive_cases:
  assumes ct: "\<And>a b. ct_eq C a b \<longleftrightarrow> a = b" and strict: "is_strict (ms_config s)"
    and receive: "mac_receive C random p ep now s r = (result, s', r')"
  obtains (ignored) "result = mac_reception_default" "s' = mac_expire now s" "r' = r"
  | (verified) stop body res where "authentic C (mc_keys (ms_config s)) ep p" "body_end p = Inr stop"
      "mac_tlvs (slice 4 stop p) = Inr body"
      "receive_verified C random ep now body (mac_expire now s) r = (res, s', r')"
      "result = (case res of Inl _ \<Rightarrow> mac_reception_default | Inr x \<Rightarrow> x)"
proof -
  have conf: "ms_config (mac_expire now s) = ms_config s" by (simp add: mac_expire_def)
  have strict': "is_strict (ms_config (mac_expire now s))" using strict conf by simp
  obtain res t r1 where i: "receive_inner C random p ep now (mac_expire now s) r = (res, t, r1)" by (rule prod_cases3)
  have res: "result = (case res of Inl _ \<Rightarrow> mac_reception_default | Inr x \<Rightarrow> x)" and st: "t = s'" "r1 = r'"
    using receive i by (auto simp: mac_receive_def split: sum.splits)
  show thesis
  proof (rule receive_inner_cases [OF ct strict', of random p ep now r])
    fix x assume "receive_inner C random p ep now (mac_expire now s) r = (x, mac_expire now s, r)"
      "x = Inr mac_reception_default \<or> (\<exists>err. x = Inl err)"
    then show thesis using ignored i res st by auto
  next
    fix stop body
    assume v: "authentic C (mc_keys (ms_config (mac_expire now s))) ep p" "body_end p = Inr stop"
      "mac_tlvs (slice 4 stop p) = Inr body"
      "receive_inner C random p ep now (mac_expire now s) r = receive_verified C random ep now body (mac_expire now s) r"
    show thesis
      using verified [OF _ v(2,3), of res] v(1,4) conf i st res by simp
  qed
qed

lemma receive_inner_session:
  assumes "mac_session_ok s" "receive_inner C random p ep now s r = (res, s', r')"
  shows "mac_session_ok s' \<and> ms_config s' = ms_config s \<and> ms_max_peers s' = ms_max_peers s"
  using assms(2) receive_verified_session(1-3) [OF assms(1)] assms(1)
  unfolding receive_inner_def by (fastforce split: sum.splits option.splits)

lemma mac_receive_session:
  assumes "mac_session_ok s" "mac_receive C random p ep now s r = (result, s', r')"
  shows "mac_session_ok s' \<and> ms_config s' = ms_config s \<and> ms_max_peers s' = ms_max_peers s"
proof -
  obtain res t r1 where i: "receive_inner C random p ep now (mac_expire now s) r = (res, t, r1)" by (rule prod_cases3)
  have "t = s'" using assms(2) i by (auto simp: mac_receive_def split: sum.splits)
  then show ?thesis
    using receive_inner_session [OF expire_session(1) [OF assms(1)] i] expire_session(2,3) [OF assms(1), of now] by simp
qed

section \<open>Replays\<close>

text \<open>A packet answers the challenge its receiver has open with its source.\<close>

definition answers_challenge :: "mac_crypto \<Rightarrow> mac_session \<Rightarrow> u8 list \<Rightarrow> datagram_endpoints \<Rightarrow> u64 \<Rightarrow> bool" where
  "answers_challenge C s p ep now \<longleftrightarrow>
     (\<exists>stop body q. body_end p = Inr stop \<and> mac_tlvs (slice 4 stop p) = Inr body
        \<and> map_of (ms_peers s) (ep_source ep) = Some q \<and> now < p_expires q \<and> answered C now q body)"

text \<open>The session will not take the counter again from this source.\<close>

definition seen :: "datagram_endpoints \<Rightarrow> u32 \<Rightarrow> u8 list \<Rightarrow> mac_session \<Rightarrow> bool" where
  "seen ep pc index s \<longleftrightarrow>
     (\<forall>p. map_of (ms_peers s) (ep_source ep) = Some p \<longrightarrow>
        p_index p = None \<or> p_index p = Some index \<and> pc \<le> counter_for ep p)"

lemma answered_peer_of:
  assumes "mac_session_ok s" "\<not> answers_challenge C s p ep now"
    "body_end p = Inr stop" "mac_tlvs (slice 4 stop p) = Inr body"
  shows "\<not> answered C now (peer_of (mac_expire now s) now (ep_source ep)) body"
proof (cases "map_of (ms_peers (mac_expire now s)) (ep_source ep)")
  case None
  then show ?thesis by (auto simp: peer_of_def peer_new_def answered_def answers_def list_ex_iff)
next
  case (Some q)
  then have "map_of (ms_peers s) (ep_source ep) = Some q" "now < p_expires q"
    using expire_session(4) [OF assms(1), of now "ep_source ep"] by (auto split: option.splits if_splits)
  then show ?thesis using assms(2-4) Some by (auto simp: answers_challenge_def peer_of_def)
qed

lemma seen_expire: "mac_session_ok s \<Longrightarrow> seen ep pc index s \<Longrightarrow> seen ep pc index (mac_expire now s)"
  by (auto simp: seen_def expire_session(4) split: option.splits if_splits)

lemma seen_peer_of:
  "seen ep pc index s \<Longrightarrow> p = peer_of s now (ep_source ep) \<Longrightarrow>
     p_index p = None \<or> p_index p = Some index \<and> pc \<le> counter_for ep p"
  by (auto simp: seen_def peer_of_def peer_new_def split: option.splits)

lemma seen_insert:
  assumes "mac_session_ok s" "p_index p = None \<or> p_index p = Some index \<and> pc \<le> counter_for ep p"
  shows "seen ep pc index (s\<lparr>ms_peers := bt_insert (ep_source ep) p (ms_peers s), ms_last_challenge := ch\<rparr>)"
    "seen ep pc index (s\<lparr>ms_peers := bt_insert (ep_source ep) p (ms_peers s)\<rparr>)"
  using assms by (simp_all add: seen_def mac_session_ok_def btree.lookup_same)

lemma seen_verified:
  assumes ok: "mac_session_ok s" and seen: "seen ep pc index s"
    and v: "receive_verified C random ep' now body s r = (res, s', r')" and src: "ep_source ep' = ep_source ep"
    and quiet: "\<not> answered C now (peer_of s now (ep_source ep)) body"
  shows "seen ep pc index s'"
  using v
proof (cases rule: receive_verified_cases)
  case full
  then show ?thesis using seen by simp
next
  case (no_counter cs p1)
  have "p_index p1 = None \<or> p_index p1 = Some index \<and> pc \<le> counter_for ep p1"
    using reply_to_request_keeps [OF no_counter(2) [unfolded src]] seen_peer_of [OF seen refl, of now]
    by (auto simp: counter_for_def)
  then show ?thesis unfolding no_counter(5) src by (rule seen_insert(2) [OF ok])
next
  case (counter pc' index' cs p1 verdict p2 challenged)
  have c: "check_counter random ep' now False pc' index' p1 (ms_last_challenge s) r = (verdict, p2, challenged, r')"
    using counter(4) quiet src by simp
  have "p_index p2 = None \<or> p_index p2 = Some index \<and> pc \<le> counter_for ep p2"
    using reply_to_request_keeps [OF counter(2) [unfolded src]] check_counter_keeps [OF c] seen_peer_of [OF seen refl, of now]
    by (auto simp: counter_for_def split: if_splits)
  then show ?thesis unfolding counter(6) src by (rule seen_insert(1) [OF ok])
qed

lemma seen_other:
  "seen ep pc index s \<Longrightarrow> map_of (ms_peers s') (ep_source ep) = map_of (ms_peers s) (ep_source ep) \<Longrightarrow> seen ep pc index s'"
  by (simp add: seen_def)

lemma seen_receive:
  assumes ct: "\<And>a b. ct_eq C a b \<longleftrightarrow> a = b" and strict: "is_strict (ms_config s)"
    and ok: "mac_session_ok s" and seen: "seen ep pc index s"
    and receive: "mac_receive C random p ep' now s r = (result, s', r')"
    and quiet: "ep_source ep' = ep_source ep \<longrightarrow> \<not> answers_challenge C s p ep' now"
  shows "seen ep pc index s'"
  using ct strict receive
proof (cases rule: mac_receive_cases)
  case ignored
  then show ?thesis using seen_expire [OF ok seen] by simp
next
  case (verified stop body res)
  note ok' = expire_session(1) [OF ok, of now] and seen' = seen_expire [OF ok seen, of now]
  show ?thesis
  proof (cases "ep_source ep' = ep_source ep")
    case True
    have "\<not> answered C now (peer_of (mac_expire now s) now (ep_source ep)) body"
      using answered_peer_of [OF ok _ verified(2,3)] quiet True by fastforce
    then show ?thesis by (rule seen_verified [OF ok' seen' verified(4) True])
  next
    case False
    then show ?thesis
      using seen_other [OF seen'] receive_verified_session(4) [OF ok' verified(4), of "ep_source ep"] by simp
  qed
qed

lemma accepted_fresh:
  assumes ct: "\<And>a b. ct_eq C a b \<longleftrightarrow> a = b" and strict: "is_strict (ms_config s)"
    and ok: "mac_session_ok s" and receive: "mac_receive C random p ep now s r = (result, s', r')"
    and accepted: "accepted_packet result"
  obtains stop body pc index cs p1 p2 challenged cs' t where
    "body_end p = Inr stop" "mac_tlvs (slice 4 stop p) = Inr body" "packet_counter body = Some (pc, index)"
    "t = mac_expire now s"
    "reply_to_request now (sc_request (scan_body C ep now (peer_of t now (ep_source ep)) body))
       (peer_of t now (ep_source ep)) = (cs, p1)"
    "check_counter random ep now (answered C now (peer_of t now (ep_source ep)) body) pc index p1
       (ms_last_challenge t) r = (Inr (True, cs'), p2, challenged, r')"
    "s' = t\<lparr>ms_peers := bt_insert (ep_source ep) p2 (ms_peers t), ms_last_challenge := challenged\<rparr>"
  using ct strict receive
proof (cases rule: mac_receive_cases)
  case ignored
  then show thesis using accepted by (simp add: mac_reception_default_def)
next
  case (verified stop body res)
  have lax: "mc_accept_unverified (ms_config (mac_expire now s)) = False"
    using strict expire_session(2) [OF ok, of now] by (simp add: is_strict_def)
  show thesis
    using verified(4)
  proof (cases rule: receive_verified_cases)
    case full
    then show thesis using accepted verified(5) lax by simp
  next
    case (no_counter cs p1)
    then show thesis using accepted verified(5) lax by simp
  next
    case (counter pc index cs p1 verdict p2 challenged)
    obtain cs' where v: "verdict = Inr (True, cs')"
      using accepted verified(5) counter(5) unfolding lax
      by (cases verdict) (auto simp: mac_reception_default_def)
    show thesis
      by (rule that [OF verified(2,3) counter(1) refl counter(2) counter(4) [unfolded v] counter(6)])
  qed
qed

lemma accepted_seen:
  assumes ct: "\<And>a b. ct_eq C a b \<longleftrightarrow> a = b" and strict: "is_strict (ms_config s)"
    and ok: "mac_session_ok s" and receive: "mac_receive C random p ep now s r = (result, s', r')"
    and accepted: "accepted_packet result"
  obtains stop body pc index where "body_end p = Inr stop" "mac_tlvs (slice 4 stop p) = Inr body"
    "packet_counter body = Some (pc, index)" "seen ep pc index s'"
proof (rule accepted_fresh [OF assms])
  fix stop body pc index cs p1 p2 challenged cs' t
  assume a: "body_end p = Inr stop" "mac_tlvs (slice 4 stop p) = Inr body" "packet_counter body = Some (pc, index)"
    "t = mac_expire now s"
    and c: "check_counter random ep now (answered C now (peer_of t now (ep_source ep)) body) pc index p1
       (ms_last_challenge t) r = (Inr (True, cs'), p2, challenged, r')"
    and s': "s' = t\<lparr>ms_peers := bt_insert (ep_source ep) p2 (ms_peers t), ms_last_challenge := challenged\<rparr>"
  have ok': "mac_session_ok t" unfolding a(4) by (rule expire_session(1) [OF ok])
  have "p_index p2 = None \<or> p_index p2 = Some index \<and> pc \<le> counter_for ep p2"
    using check_counter_fresh [OF c] by simp
  then have "seen ep pc index s'" unfolding s' by (rule seen_insert(1) [OF ok'])
  then show thesis by (rule that [OF a(1-3)])
qed

lemma seen_rejects:
  assumes ct: "\<And>a b. ct_eq C a b \<longleftrightarrow> a = b" and strict: "is_strict (ms_config s)"
    and ok: "mac_session_ok s" and receive: "mac_receive C random p ep now s r = (result, s', r')"
    and p: "body_end p = Inr stop" "mac_tlvs (slice 4 stop p) = Inr body" "packet_counter body = Some (pc, index)"
    and seen: "seen ep pc index s" and quiet: "\<not> answers_challenge C s p ep now"
  shows "\<not> accepted_packet result"
proof
  assume "accepted_packet result"
  from ct strict ok receive this show False
  proof (rule accepted_fresh)
    fix stop' body' pc' index' cs p1 p2 challenged cs' t
    assume a: "body_end p = Inr stop'" "mac_tlvs (slice 4 stop' p) = Inr body'" "packet_counter body' = Some (pc', index')"
      "t = mac_expire now s"
      and rep: "reply_to_request now (sc_request (scan_body C ep now (peer_of t now (ep_source ep)) body'))
       (peer_of t now (ep_source ep)) = (cs, p1)"
      and c: "check_counter random ep now (answered C now (peer_of t now (ep_source ep)) body') pc' index' p1
       (ms_last_challenge t) r = (Inr (True, cs'), p2, challenged, r')"
    have same: "body' = body" "pc' = pc" "index' = index" using a p by auto
    have "\<not> answered C now (peer_of t now (ep_source ep)) body'"
      unfolding a(4) by (rule answered_peer_of [OF ok quiet a(1,2)])
    then have "p_index p1 = Some index" "counter_for ep p1 < pc"
      using check_counter_fresh(5) [OF c] same by auto
    moreover have "p_index p1 = None \<or> p_index p1 = Some index \<and> pc \<le> counter_for ep p1"
      using reply_to_request_keeps [OF rep] seen_peer_of [OF seen_expire [OF ok seen, of now] refl, of now] a(4)
      by (auto simp: counter_for_def split: if_splits)
    ultimately show False by auto
  qed
qed

text \<open>A sequence of datagrams that arrive, with the times they arrive at.\<close>

type_synonym arrival = "u8 list \<times> datagram_endpoints \<times> u64"

fun receive_all :: "mac_crypto \<Rightarrow> 'r random \<Rightarrow> arrival list \<Rightarrow> mac_session \<Rightarrow> 'r \<Rightarrow> mac_session \<times> 'r" where
  "receive_all C random [] s r = (s, r)"
| "receive_all C random ((p, ep, now) # rest) s r =
     (case mac_receive C random p ep now s r of (_, s', r') \<Rightarrow> receive_all C random rest s' r')"

text \<open>None of them answers a challenge open with the given source.\<close>

fun unanswered :: "mac_crypto \<Rightarrow> 'r random \<Rightarrow> socket_addr \<Rightarrow> arrival list \<Rightarrow> mac_session \<Rightarrow> 'r \<Rightarrow> bool" where
  "unanswered C random src [] s r = True"
| "unanswered C random src ((p, ep, now) # rest) s r =
     ((ep_source ep = src \<longrightarrow> \<not> answers_challenge C s p ep now) \<and>
      (case mac_receive C random p ep now s r of (_, s', r') \<Rightarrow> unanswered C random src rest s' r'))"

lemma receive_all_session:
  "mac_session_ok s \<Longrightarrow> receive_all C random arrivals s r = (s', r') \<Longrightarrow>
     mac_session_ok s' \<and> ms_config s' = ms_config s \<and> ms_max_peers s' = ms_max_peers s"
proof (induction C random arrivals s r rule: receive_all.induct)
  case (2 C random p ep now rest s r)
  obtain result t r1 where m: "mac_receive C random p ep now s r = (result, t, r1)" by (rule prod_cases3)
  show ?case using 2(1) [OF m [symmetric] refl] 2(3) mac_receive_session [OF 2(2) m] m by simp
qed simp

lemma receive_all_seen:
  assumes ct: "\<And>a b. ct_eq C a b \<longleftrightarrow> a = b"
  shows "is_strict (ms_config s) \<Longrightarrow> mac_session_ok s \<Longrightarrow> seen ep pc index s \<Longrightarrow>
     unanswered C random (ep_source ep) (arrivals @ rest) s r \<Longrightarrow> receive_all C random arrivals s r = (s', r') \<Longrightarrow>
     seen ep pc index s' \<and> unanswered C random (ep_source ep) rest s' r'"
proof (induction arrivals arbitrary: s r)
  case (Cons a arrivals)
  obtain p ep' now where a: "a = (p, ep', now)" by (rule prod_cases3)
  obtain result t r1 where m: "mac_receive C random p ep' now s r = (result, t, r1)" by (rule prod_cases3)
  have quiet: "ep_source ep' = ep_source ep \<longrightarrow> \<not> answers_challenge C s p ep' now"
    and rest: "unanswered C random (ep_source ep) (arrivals @ rest) t r1"
    and run: "receive_all C random arrivals t r1 = (s', r')"
    using Cons.prems(4,5) a m by auto
  note st = mac_receive_session [OF Cons.prems(2) m]
  have seen: "seen ep pc index t" by (rule seen_receive [OF ct Cons.prems(1-3) m quiet])
  show ?case using Cons.IH [OF _ _ seen rest run] st Cons.prems(1) by simp
qed simp

end
