(* ===== verification/Babel_Sessions.thy ===== *)
theory Babel_Sessions
  imports Babel_Authentic
begin

text \<open>
  Sessions at both ends of a link: a signed packet is accepted by a session that knows its sender,
  two sessions that do not know each other yet do after a challenge and its answer, and a session
  never signs two packets with the same counter. The theorems on packet authentication stand at
  the end.
\<close>

section \<open>Signing\<close>

definition same_family :: "datagram_endpoints \<Rightarrow> bool" where
  "same_family ep = (is_ipv4 (sock_ip (ep_source ep)) = is_ipv4 (sock_ip (ep_destination ep)))"

lemma authenticated_bytes_ok: "same_family ep \<Longrightarrow> \<exists>data. authenticated_bytes ep p = Inr data"
  by (cases "sock_ip (ep_source ep)"; cases "sock_ip (ep_destination ep)")
    (auto simp: authenticated_bytes_def same_family_def is_ipv4_def)

definition never_fails :: "'r random \<Rightarrow> bool" where
  "never_fails random \<longleftrightarrow> (\<forall>r. \<exists>i r'. random r = (Inr i, r'))"

lemma renew_index_ok:
  assumes "never_fails random"
  shows "\<exists>s1 r'. renew_index random s r = (Inr s1, r')"
  using assms [unfolded never_fails_def, rule_format, of r] by (auto simp: renew_index_def)

lemma sign_ok:
  assumes "body_end p = Inr (length p)" "mac_tlvs (drop 4 p) = Inr ts" "\<not> list_ex is_auth_tlv ts"
    and "length p \<le> 65517" "same_family ep" "never_fails random"
  obtains out s1 r' where "renew_index random s r = (Inr s1, r')"
    "sign C random p ep s r = (Inr out, s1\<lparr>ms_counter := ms_counter s1 + 1\<rparr>, r')" "signed_as C s1 ep ts out"
proof -
  obtain s1 r' where s1: "renew_index random s r = (Inr s1, r')" using renew_index_ok [OF assms(6)] by blast
  have "4 \<le> length p" using assms(1) by (simp add: body_end_Inr)
  then obtain body where body: "add_counter s1 p = Inr body"
    using assms(4) by (simp add: add_counter_def Let_def)
  obtain data where data: "authenticated_bytes ep body = Inr data"
    using authenticated_bytes_ok [OF assms(5)] by blast
  have sign: "sign C random p ep s r =
      (Inr (body @ mac_trailer C (mc_keys (ms_config s1)) data), s1\<lparr>ms_counter := ms_counter s1 + 1\<rparr>, r')"
    using assms(1-3) s1 body data by (simp add: sign_def slice_def)
  show thesis
  proof (rule that [OF s1 sign])
    show "signed_as C s1 ep ts (body @ mac_trailer C (mc_keys (ms_config s1)) data)"
      unfolding signed_as_def using add_counter_shape [OF body assms(1,2)] data by blast
  qed
qed


section \<open>Receiving what was signed\<close>

lemma packet_counter_signed:
  "\<not> list_ex is_auth_tlv ts \<Longrightarrow> packet_counter (ts @ [(PC_TLV, pc_value s)]) = Some (ms_counter s, to_be_bytes (ms_index s))"
  by (induction ts) (auto simp: packet_counter_def is_auth_tlv_def)

lemma signed_body:
  "signed_as C s ep ts out \<Longrightarrow>
     \<exists>stop. body_end out = Inr stop \<and> mac_tlvs (slice 4 stop out) = Inr (ts @ [(PC_TLV, pc_value s)])"
  by (auto simp: signed_as_def slice_def)

lemma receive_signed:
  assumes ct: "\<And>a b. ct_eq C a b \<longleftrightarrow> a = b" and digest: "\<And>key data. length (digest C key data) \<le> 255"
    and signed: "signed_as C a ep ts out"
    and key: "key \<in> set (mc_keys (ms_config a))" "key \<in> set (mc_keys (ms_config s))"
    and v: "receive_verified C random ep now (ts @ [(PC_TLV, pc_value a)]) (mac_expire now s) r = (res, s', r')"
  shows "mac_receive C random out ep now s r = (case res of Inl _ \<Rightarrow> mac_reception_default | Inr x \<Rightarrow> x, s', r')"
proof -
  have conf: "ms_config (mac_expire now s) = ms_config s" by (simp add: mac_expire_def)
  have auth: "authentic C (mc_keys (ms_config (mac_expire now s))) ep out"
    unfolding conf by (rule signed_authentic [OF signed key digest])
  from signed_body [OF signed] obtain stop where stop: "body_end out = Inr stop"
    "mac_tlvs (slice 4 stop out) = Inr (ts @ [(PC_TLV, pc_value a)])" by blast
  show ?thesis
    unfolding mac_receive_def receive_inner_authentic [OF ct auth stop] v by (simp split: sum.splits)
qed




section \<open>The challenge\<close>












section \<open>Known senders\<close>

lemma known_accepted:
  assumes q: "map_of (ms_peers s) (ep_source ep) = Some q" "packet_counter body = Some (pc, index)"
    "p_index q = Some index" "counter_for ep q < pc"
  obtains cs s' where "receive_verified C random ep now body s r =
    (Inr \<lparr>accepted_packet = True, controls = cs\<rparr>, s', r)"
proof -
  have peer: "peer_of s now (ep_source ep) = q" using q(1) by (simp add: peer_of_def)
  obtain cs p1 where rep: "reply_to_request now (sc_request (scan_body C ep now q body)) q = (cs, p1)"
    by (rule prod.exhaust)
  note k = reply_to_request_keeps [OF rep]
  have "\<exists>p2. check_counter random ep now (answered C now q body) pc index p1 (ms_last_challenge s) r =
      (Inr (True, []), p2, ms_last_challenge s, r)"
    using k q(3,4)
    by (cases "answered C now q body"; cases "to_multicast ep") (simp_all add: check_counter_def counter_for_def)
  then obtain p2 where c: "check_counter random ep now (answered C now q body) pc index p1 (ms_last_challenge s) r =
      (Inr (True, []), p2, ms_last_challenge s, r)" by blast
  have room: "contains_key (ms_peers s) (ep_source ep) \<or> length (ms_peers s) < ms_max_peers s" using q(1) by simp
  show thesis
    using receive_verified_eq [OF room rep [folded peer], of random r] that
    unfolding q(2) peer option.case prod.case c by simp
qed

lemma sign_keeps_body:
  assumes "sign C random p ep s r = (Inr out, s', r')"
  shows "slice 4 (length p) out = drop 4 p"
proof -
  have "4 \<le> length p" using assms by (auto elim!: sign_Inr simp: body_end_Inr)
  moreover obtain s1 body rest where "add_counter s1 p = Inr body" "out = body @ rest"
    using assms by (auto simp: sign_def and_then_Inr split: sum.splits if_splits prod.splits)
  ultimately show ?thesis
    by (auto simp: add_counter_def Let_def slice_def split: if_splits)
qed

lemma sign_received:
  assumes "\<And>a b. ct_eq C a b \<longleftrightarrow> a = b" "\<And>key data. length (digest C key data) \<le> 255"
    and "sign C random p ep a r = (Inr out, a', r')"
    and "key \<in> set (mc_keys (ms_config a))" "key \<in> set (mc_keys (ms_config b))" "mac_session_ok b"
    and "map_of (ms_peers b) (ep_source ep) = Some q" "now < p_expires q"
    and "p_index q = Some (to_be_bytes (ms_index a'))" "counter_for ep q < ms_counter a' - 1"
  shows "accepted_packet (fst (mac_receive C random' out ep now b rb)) \<and> slice 4 (length p) out = drop 4 p"
proof (rule sign_Inr [OF assms(3)])
  fix a1 ts
  assume ts: "\<not> list_ex is_auth_tlv ts" and a1: "renew_index random a r = (Inr a1, r')"
    and a': "a' = a1\<lparr>ms_counter := ms_counter a1 + 1\<rparr>" and signed: "signed_as C a1 ep ts out"
  have key: "key \<in> set (mc_keys (ms_config a1))" using assms(4) renew_index_Inr(1) [OF a1] by simp
  have q: "map_of (ms_peers (mac_expire now b)) (ep_source ep) = Some q"
    using assms(7,8) expire_session(4) [OF assms(6), of now "ep_source ep"] by simp
  have "p_index q = Some (to_be_bytes (ms_index a1))" "counter_for ep q < ms_counter a1"
    using assms(9,10) a' by simp_all
  from q packet_counter_signed [OF ts] this
  obtain cs b' where v: "receive_verified C random' ep now (ts @ [(PC_TLV, pc_value a1)]) (mac_expire now b) rb =
      (Inr \<lparr>accepted_packet = True, controls = cs\<rparr>, b', rb)"
    by (rule known_accepted)
  show ?thesis
    using receive_signed [OF assms(1,2) signed key assms(5) v] sign_keeps_body [OF assms(3)] by simp
qed

section \<open>Counters in use\<close>

fun sign_all :: "mac_crypto \<Rightarrow> 'r random \<Rightarrow> (u8 list \<times> datagram_endpoints) list \<Rightarrow> mac_session \<Rightarrow> 'r \<Rightarrow> u8 list list" where
  "sign_all C random [] s r = []"
| "sign_all C random ((p, ep) # rest) s r =
     (case sign C random p ep s r of
        (Inl _, s', r') \<Rightarrow> sign_all C random rest s' r'
      | (Inr out, s', r') \<Rightarrow> out # sign_all C random rest s' r')"

definition carried_counter :: "u8 list \<Rightarrow> (u32 \<times> u8 list) option" where
  "carried_counter out =
     (case and_then (body_end out) (\<lambda>stop. mac_tlvs (slice 4 stop out)) of
        Inl _ \<Rightarrow> None
      | Inr body \<Rightarrow> packet_counter body)"

text \<open>The random source never yields an index twice: \<open>used\<close> holds those it has yielded.\<close>

definition fresh_source :: "'r random \<Rightarrow> ('r \<Rightarrow> octets16 set) \<Rightarrow> bool" where
  "fresh_source random used \<longleftrightarrow>
     (\<forall>r. used r \<subseteq> used (snd (random r)) \<and>
        (\<forall>i. fst (random r) = Inr i \<longrightarrow> i \<notin> used r \<and> i \<in> used (snd (random r))))"

text \<open>The counter comes after everything the session has signed.\<close>

definition unspent :: "octets16 set \<Rightarrow> mac_session \<Rightarrow> (u32 \<times> u8 list) option \<Rightarrow> bool" where
  "unspent taken s x \<longleftrightarrow>
     (\<exists>c i. x = Some (c, to_be_bytes i) \<and> (i = ms_index s \<and> ms_counter s \<le> c \<or> i \<notin> taken))"

lemma signed_counter:
  "signed_as C s ep ts out \<Longrightarrow> \<not> list_ex is_auth_tlv ts \<Longrightarrow>
     carried_counter out = Some (ms_counter s, to_be_bytes (ms_index s))"
  by (auto simp: signed_as_def carried_counter_def slice_def packet_counter_signed)

lemma sign_cases:
  assumes "sign C random p ep s r = (res, s', r')"
  obtains (refused) "\<exists>err. res = Inl err" "s' = s" "r' = r \<or> r' = snd (random r)"
  | (counted) s1 where "renew_index random s r = (Inr s1, r')" "s' = s1\<lparr>ms_counter := ms_counter s1 + 1\<rparr>"
      "\<And>out. res = Inr out \<Longrightarrow> carried_counter out = Some (ms_counter s1, to_be_bytes (ms_index s1))"
proof (cases "\<exists>s1 r1. renew_index random s r = (Inr s1, r1) \<and> s' = s1\<lparr>ms_counter := ms_counter s1 + 1\<rparr> \<and> r1 = r'")
  case True
  then obtain s1 where s1: "renew_index random s r = (Inr s1, r')" "s' = s1\<lparr>ms_counter := ms_counter s1 + 1\<rparr>" by blast
  show thesis
  proof (rule counted [OF s1])
    fix out assume "res = Inr out"
    with assms have "sign C random p ep s r = (Inr out, s', r')" by simp
    then show "carried_counter out = Some (ms_counter s1, to_be_bytes (ms_index s1))"
      by (rule sign_Inr) (use s1 signed_counter in auto)
  qed
next
  case False
  have "(\<exists>err. res = Inl err) \<and> s' = s \<and> (r' = r \<or> r' = snd (random r))"
    using assms False
    by (auto simp: sign_def renew_index_def split: sum.splits if_splits prod.splits)
  then show thesis using refused by blast
qed

lemma to_be_bytes_octets16: "to_be_bytes (i :: octets16) = to_be_bytes j \<longleftrightarrow> i = j"
proof
  assume eq: "to_be_bytes i = to_be_bytes j"
  have "i = from_be_bytes (to_be_bytes i)" by simp
  also have "\<dots> = j" unfolding eq by simp
  finally show "i = j" .
qed simp

lemma counter_step:
  assumes "(c :: u32) \<noteq> 0xffffffff"
  shows "c < c + 1"
  using assms by (simp add: word_less_nat_alt u32_succ)

lemma unspent_renewed:
  assumes fresh: "fresh_source random used" and known: "ms_index s \<in> used r"
    and renew: "renew_index random s r = (Inr s1, r')"
  shows "ms_index s1 \<in> used r'" "unspent (used r) s (Some (ms_counter s1, to_be_bytes (ms_index s1)))"
    "unspent (used r') (s1\<lparr>ms_counter := ms_counter s1 + 1\<rparr>) x \<Longrightarrow> unspent (used r) s x
      \<and> x \<noteq> Some (ms_counter s1, to_be_bytes (ms_index s1))"
proof -
  have used: "used r \<subseteq> used (snd (random r))" "\<And>i. fst (random r) = Inr i \<Longrightarrow> i \<notin> used r \<and> i \<in> used (snd (random r))"
    using fresh by (auto simp: fresh_source_def)
  consider (same) "s1 = s" "r' = r" | (drawn) i where "random r = (Inr i, r')" "s1 = s\<lparr>ms_index := i, ms_counter := 0\<rparr>"
    using renew by (auto simp: renew_index_def split: if_splits sum.splits prod.splits)
  then have base: "ms_index s1 \<in> used r' \<and> unspent (used r) s (Some (ms_counter s1, to_be_bytes (ms_index s1)))
      \<and> used r \<subseteq> used r' \<and> (s1 = s \<or> ms_index s1 \<notin> used r)"
    using known used by cases (auto simp: unspent_def)
  then show "ms_index s1 \<in> used r'" "unspent (used r) s (Some (ms_counter s1, to_be_bytes (ms_index s1)))" by blast+
  have step: "ms_counter s1 < ms_counter s1 + 1"
    by (rule counter_step [OF renew_index_Inr(5) [OF renew]])
  assume "unspent (used r') (s1\<lparr>ms_counter := ms_counter s1 + 1\<rparr>) x"
  then obtain c i where x: "x = Some (c, to_be_bytes i)" "i = ms_index s1 \<and> ms_counter s1 + 1 \<le> c \<or> i \<notin> used r'"
    by (auto simp: unspent_def)
  then show "unspent (used r) s x \<and> x \<noteq> Some (ms_counter s1, to_be_bytes (ms_index s1))"
    using base step by (auto simp: unspent_def to_be_bytes_octets16)
qed

lemma sign_all_unspent:
  assumes fresh: "fresh_source random used"
  shows "ms_index s \<in> used r \<Longrightarrow>
     (\<forall>out \<in> set (sign_all C random packets s r). unspent (used r) s (carried_counter out))
     \<and> distinct (map carried_counter (sign_all C random packets s r))"
proof (induction packets arbitrary: s r)
  case (Cons packet packets)
  obtain p ep where packet: "packet = (p, ep)" by (rule prod.exhaust)
  obtain res s' r' where sign: "sign C random p ep s r = (res, s', r')" by (rule prod_cases3)
  from sign show ?case
  proof (cases rule: sign_cases)
    case refused
    have known: "ms_index s' \<in> used r'" and sub: "used r \<subseteq> used r'"
      using refused(2,3) Cons.prems fresh by (auto simp: fresh_source_def)
    then have weak: "unspent (used r') s' x \<Longrightarrow> unspent (used r) s x" for x
      using refused(2) by (auto simp: unspent_def)
    show ?thesis using Cons.IH [OF known] weak packet sign refused(1) by auto
  next
    case (counted s1)
    note new = unspent_renewed [OF fresh Cons.prems counted(1)]
    have IH: "\<forall>out \<in> set (sign_all C random packets s' r'). unspent (used r) s (carried_counter out)
          \<and> carried_counter out \<noteq> Some (ms_counter s1, to_be_bytes (ms_index s1))"
      "distinct (map carried_counter (sign_all C random packets s' r'))"
      using Cons.IH [of s' r'] new(1,3) counted(2) by auto
    show ?thesis
    proof (cases res)
      case (Inl err)
      then show ?thesis using IH packet sign by simp
    next
      case (Inr out)
      then have "sign_all C random (packet # packets) s r = out # sign_all C random packets s' r'"
        using packet sign by simp
      then show ?thesis using IH counted(3) [OF Inr] new(2) by auto
    qed
  qed
qed simp

lemma no_reply_unanswered:
  "body_end p = Inr stop \<Longrightarrow> mac_tlvs (slice 4 stop p) = Inr body \<Longrightarrow> \<forall>(t, v) \<in> set body. t \<noteq> REPLY_TLV
     \<Longrightarrow> \<not> answers_challenge C s p ep now"
  by (auto simp: answers_challenge_def answered_def list_ex_iff)

lemma length_mac_trailer:
  "length (mac_trailer C keys data) = sum_list (map (\<lambda>key. 2 + length (digest C key data)) keys)"
  by (induction keys) (simp_all add: mac_trailer_def)

section \<open>What authentication guarantees\<close>

text \<open>
  An example for the theorems below: two nodes on an IPv4 link with one key in common, stand-ins
  for the digests that add up the octets, and a random source that counts.
\<close>

definition sample_crypto :: mac_crypto where
  "sample_crypto =
     \<lparr>hmac_sha256 = \<lambda>key data. replicate 32 (sum_list (key @ data)),
      blake2s_128 = \<lambda>key data. replicate 16 (sum_list (key @ data)), ct_eq = \<lambda>a b. a = b\<rparr>"

definition sample_random :: "nat random" where
  "sample_random n = (Inr (of_nat n), Suc n)"

definition sample_ep :: datagram_endpoints where
  "sample_ep = \<lparr>ep_source = SockV4 0x0A000001 6696, ep_destination = SockV4 0x0A000002 6696\<rparr>"

definition sample_key :: mac_key where
  "sample_key = \<lparr>mk_algorithm = HmacSha256, mk_bytes = [1, 2, 3]\<rparr>"

definition sample_session :: "octets16 \<Rightarrow> (socket_addr, peer) table \<Rightarrow> mac_session" where
  "sample_session index peers =
     \<lparr>ms_config = \<lparr>mc_keys = [sample_key], mc_accept_unverified = False\<rparr>, ms_index = index, ms_counter = 5,
      ms_peers = peers, ms_max_peers = 4, ms_last_challenge = None\<rparr>"

definition sample_packet :: "u8 list" where
  "sample_packet = [42, 2, 0, 4, 1, 2, 0, 0]"

definition sample_known :: "(socket_addr, peer) table" where
  "sample_known =
     [(SockV4 0x0A000001 6696,
       \<lparr>p_index = Some (to_be_bytes (7 :: octets16)), p_unicast = 4, p_multicast = 0, p_nonce = None,
        p_last_reply = None, p_expires = 1000\<rparr>)]"

definition sample_signed :: "u8 list" where
  "sample_signed =
     (case sign sample_crypto sample_random sample_packet sample_ep (sample_session 7 []) 0 of
        (Inr out, _) \<Rightarrow> out | (Inl _, _) \<Rightarrow> [])"

lemma sample_ct: "ct_eq sample_crypto a b \<longleftrightarrow> a = b"
  by (simp add: sample_crypto_def)

lemma sample_digest: "length (digest sample_crypto key data) \<le> 255"
  by (simp add: sample_crypto_def digest_def split: mac_algorithm.splits)

lemma sample_ok: "is_strict (ms_config (sample_session i []))" "mac_session_ok (sample_session i [])"
  "is_strict (ms_config (sample_session i sample_known))" "mac_session_ok (sample_session i sample_known)"
  by (simp_all add: is_strict_def mac_session_ok_def sample_session_def sample_known_def)

lemma sample_packet_body: "body_end sample_packet = Inr 8" "mac_tlvs (drop 4 sample_packet) = Inr [(1, [0, 0])]"
  by code_simp+

lemma sample_random_ok: "never_fails sample_random"
  by (simp add: never_fails_def sample_random_def)

lemma sample_sign:
  "sign sample_crypto sample_random sample_packet sample_ep (sample_session 7 []) 0 =
     (Inr sample_signed, (sample_session 7 [])\<lparr>ms_counter := 6\<rparr>, 0)"
  "signed_as sample_crypto (sample_session 7 []) sample_ep [(1, [0, 0])] sample_signed"
proof -
  let ?s = "sample_session 7 []"
  have b: "body_end sample_packet = Inr (length sample_packet)" "length sample_packet \<le> 65517"
    using sample_packet_body(1) by (simp_all add: sample_packet_def)
  have na: "\<not> list_ex is_auth_tlv [(1, [0, 0])]" by (simp add: is_auth_tlv_def)
  have ep: "same_family sample_ep" by (simp add: same_family_def sample_ep_def sock_ip_def is_ipv4_def)
  have renew: "renew_index sample_random ?s 0 = (Inr ?s, 0)" by (simp add: renew_index_def sample_session_def)
  obtain out where out: "sign sample_crypto sample_random sample_packet sample_ep ?s 0 =
        (Inr out, ?s\<lparr>ms_counter := ms_counter ?s + 1\<rparr>, 0)" "signed_as sample_crypto ?s sample_ep [(1, [0, 0])] out"
    by (rule sign_ok [OF b(1) sample_packet_body(2) na b(2) ep sample_random_ok, where s = ?s and r = 0 and C = sample_crypto])
      (simp add: renew)
  have "sample_signed = out" by (simp add: sample_signed_def out(1))
  moreover have "ms_counter ?s + 1 = 6" by (simp add: sample_session_def)
  ultimately show "sign sample_crypto sample_random sample_packet sample_ep ?s 0 =
      (Inr sample_signed, ?s\<lparr>ms_counter := 6\<rparr>, 0)"
    "signed_as sample_crypto ?s sample_ep [(1, [0, 0])] sample_signed" using out by simp_all
qed

lemma sample_keys: "sample_key \<in> set (mc_keys (ms_config (sample_session i peers)))"
  by (simp add: sample_session_def)

lemma sample_peer:
  obtains q where "map_of (ms_peers (sample_session 9 sample_known)) (ep_source sample_ep) = Some q"
    "10 < p_expires q" "p_index q = Some (to_be_bytes (ms_index ((sample_session 7 [])\<lparr>ms_counter := 6\<rparr>)))"
    "counter_for sample_ep q < ms_counter ((sample_session 7 [])\<lparr>ms_counter := 6\<rparr>) - 1"
proof -
  have "\<not> to_multicast sample_ep" by code_simp
  then show thesis
    by (intro that [of "snd (hd sample_known)"])
      (simp_all add: sample_session_def sample_known_def sample_ep_def counter_for_def)
qed

lemma sample_accepts:
  "accepted_packet (fst (mac_receive sample_crypto sample_random sample_signed sample_ep 10 (sample_session 9 sample_known) 0))"
  by (rule sample_peer)
    (rule conjunct1 [OF sign_received [OF sample_ct sample_digest sample_sign(1) sample_keys sample_keys sample_ok(4)]])

lemma sample_unanswered:
  "\<not> answers_challenge sample_crypto s sample_signed sample_ep now" "\<not> answers_challenge sample_crypto s sample_packet sample_ep now"
proof -
  obtain stop where "body_end sample_signed = Inr stop"
    "mac_tlvs (slice 4 stop sample_signed) = Inr ([(1, [0, 0])] @ [(PC_TLV, pc_value (sample_session 7 []))])"
    using signed_body [OF sample_sign(2)] by blast
  then show "\<not> answers_challenge sample_crypto s sample_signed sample_ep now" by (rule no_reply_unanswered) simp
  have "mac_tlvs (slice 4 8 sample_packet) = Inr [(1, [0, 0])]" by code_simp
  with sample_packet_body(1) show "\<not> answers_challenge sample_crypto s sample_packet sample_ep now"
    by (rule no_reply_unanswered) simp
qed

text \<open>
  C7. A strict session ignores a datagram that carries no MAC, under one of its keys, of its body
  and the endpoints it travels between: it does not accept it, sends nothing in answer, draws no
  random octets, and its state is the one that the passing of time alone leaves, so that nothing
  is allocated for the sender.
\<close>

theorem unauthenticated_ignored:
  assumes "\<And>a b. ct_eq C a b \<longleftrightarrow> a = b" "is_strict (ms_config s)"
    and "\<not> authentic C (mc_keys (ms_config s)) ep p"
  shows "mac_receive C random p ep now s r =
    (\<lparr>accepted_packet = False, controls = []\<rparr>, mac_expire now s, r)"
proof -
  obtain result s' r' where m: "mac_receive C random p ep now s r = (result, s', r')" by (rule prod_cases3)
  with assms(1,2) show ?thesis
    by (cases rule: mac_receive_cases) (use m assms(3) in \<open>simp_all add: mac_reception_default_def\<close>)
qed

theorem unauthenticated_ignored_witness:
  "\<not> authentic sample_crypto [sample_key] sample_ep sample_packet
   \<and> mac_receive sample_crypto sample_random sample_packet sample_ep 10 (sample_session 9 sample_known) 0 =
     (\<lparr>accepted_packet = False, controls = []\<rparr>, mac_expire 10 (sample_session 9 sample_known), 0)"
proof -
  have b: "body_end sample_packet = Inr 8" by code_simp
  then have n: "\<not> authentic sample_crypto [sample_key] sample_ep sample_packet"
    by (auto simp: authentic_def sample_packet_def)
  have k: "mc_keys (ms_config (sample_session 9 sample_known)) = [sample_key]" by (simp add: sample_session_def)
  show ?thesis
    using n unauthenticated_ignored [OF sample_ct sample_ok(3), of 9 sample_ep sample_packet sample_random 10 0] k by simp
qed

text \<open>
  C6. A datagram that a strict session has accepted is not accepted a second time, whatever arrives
  in between and however much time passes, unless its sender has answered a challenge meanwhile or
  it answers one itself.
\<close>

theorem no_replay:
  assumes "\<And>a b. ct_eq C a b \<longleftrightarrow> a = b" "is_strict (ms_config s)" "mac_session_ok s"
    and "mac_receive C random p ep now s r = (result, s1, r1)" "accepted_packet result"
    and "receive_all C random others s1 r1 = (s2, r2)"
    and "unanswered C random (ep_source ep) (others @ [(p, ep, later)]) s1 r1"
  shows "\<not> accepted_packet (fst (mac_receive C random p ep later s2 r2))"
proof (rule accepted_seen [OF assms(1-5)])
  fix stop body pc index
  assume p: "body_end p = Inr stop" "mac_tlvs (slice 4 stop p) = Inr body" "packet_counter body = Some (pc, index)"
    and seen: "seen ep pc index s1"
  obtain result' s' r' where m: "mac_receive C random p ep later s2 r2 = (result', s', r')" by (rule prod_cases3)
  note st = mac_receive_session [OF assms(3,4)]
  have strict: "is_strict (ms_config s1)" using assms(2) st by simp
  note st2 = receive_all_session [OF conjunct1 [OF st] assms(6)]
  have strict2: "is_strict (ms_config s2)" using st2 strict by simp
  note run = receive_all_seen [OF assms(1) strict conjunct1 [OF st] seen assms(7,6)]
  then have quiet: "\<not> answers_challenge C s2 p ep later" by simp
  show ?thesis
    using seen_rejects [OF assms(1) strict2 conjunct1 [OF st2] m p conjunct1 [OF run] quiet] m by simp
qed

theorem no_replay_witness:
  "\<not> accepted_packet (fst (case mac_receive sample_crypto sample_random sample_signed sample_ep 10
        (sample_session 9 sample_known) 0 of (_, s1, r1) \<Rightarrow>
      case receive_all sample_crypto sample_random [(sample_packet, sample_ep, 20)] s1 r1 of (s2, r2) \<Rightarrow>
        mac_receive sample_crypto sample_random sample_signed sample_ep 30 s2 r2))"
proof -
  obtain result s1 r1 where m: "mac_receive sample_crypto sample_random sample_signed sample_ep 10
      (sample_session 9 sample_known) 0 = (result, s1, r1)" by (rule prod_cases3)
  obtain s2 r2 where o: "receive_all sample_crypto sample_random [(sample_packet, sample_ep, 20)] s1 r1 = (s2, r2)"
    by (rule prod.exhaust)
  have acc: "accepted_packet result" using sample_accepts m by simp
  have quiet: "unanswered sample_crypto sample_random (ep_source sample_ep)
      ([(sample_packet, sample_ep, 20)] @ [(sample_signed, sample_ep, 30)]) s1 r1"
    using sample_unanswered by (simp split: prod.splits)
  show ?thesis
    using no_replay [OF sample_ct sample_ok(3,4) m acc o quiet] m o by simp
qed

text \<open>
  C24. The state a session keeps for its peers is bounded: whatever datagrams a new session receives,
  it holds at most as many peers as it was made for, no two for the same source, and its keys and
  its mode stay those it was made with.
\<close>

theorem peers_bounded:
  assumes "mac_session_new c max_peers random r = (Inr s, r1)"
    and "receive_all C random arrivals s r1 = (s', r2)"
  shows "length (ms_peers s') \<le> max_peers \<and> distinct (table_keys (ms_peers s')) \<and> ms_config s' = c"
proof -
  have s: "mac_session_ok s" "ms_config s = c" "ms_max_peers s = max_peers"
    using assms(1) by (auto simp: mac_session_new_def mac_session_ok_def split: sum.splits prod.splits)
  then show ?thesis
    using receive_all_session [OF s(1) assms(2)] btree.shape_distinct [of "ms_peers s'"]
    by (simp add: mac_session_ok_def)
qed

theorem peers_bounded_witness:
  "(case mac_session_new \<lparr>mc_keys = [sample_key], mc_accept_unverified = False\<rparr> 1 sample_random 3 of
      (Inr s, r1) \<Rightarrow>
        length (ms_peers (fst (receive_all sample_crypto sample_random [(sample_signed, sample_ep, 10)] s r1))) \<le> 1
    | _ \<Rightarrow> False)"
proof -
  obtain s r1 where n: "mac_session_new \<lparr>mc_keys = [sample_key], mc_accept_unverified = False\<rparr> 1 sample_random 3 = (Inr s, r1)"
    by (simp add: mac_session_new_def sample_random_def)
  obtain s' r2 where o: "receive_all sample_crypto sample_random [(sample_signed, sample_ep, 10)] s r1 = (s', r2)"
    by (rule prod.exhaust)
  show ?thesis using peers_bounded [OF n o] n o by simp
qed

text \<open>
  C23. What a session signs, a session that has a key in common with it, knows its index and holds
  an older counter for it accepts, and the body of the packet arrives as it was given to \<open>sign\<close>.
\<close>

theorem signed_accepted:
  assumes "\<And>a b. ct_eq C a b \<longleftrightarrow> a = b" "\<And>key data. length (digest C key data) \<le> 255"
    and "sign C random p ep a r = (Inr out, a', r')"
    and "key \<in> set (mc_keys (ms_config a))" "key \<in> set (mc_keys (ms_config b))" "mac_session_ok b"
    and "map_of (ms_peers b) (ep_source ep) = Some q" "now < p_expires q"
    and "p_index q = Some (to_be_bytes (ms_index a'))" "counter_for ep q < ms_counter a' - 1"
  shows "accepted_packet (fst (mac_receive C random' out ep now b rb)) \<and> slice 4 (length p) out = drop 4 p"
  by (rule sign_received [OF assms])

theorem signed_accepted_witness:
  "accepted_packet (fst (mac_receive sample_crypto sample_random sample_signed sample_ep 10 (sample_session 9 sample_known) 0))
   \<and> slice 4 (length sample_packet) sample_signed = drop 4 sample_packet"
proof (rule sample_peer)
  fix q
  assume q: "map_of (ms_peers (sample_session 9 sample_known)) (ep_source sample_ep) = Some q"
    "10 < p_expires q" "p_index q = Some (to_be_bytes (ms_index ((sample_session 7 [])\<lparr>ms_counter := 6\<rparr>)))"
    "counter_for sample_ep q < ms_counter ((sample_session 7 [])\<lparr>ms_counter := 6\<rparr>) - 1"
  show ?thesis
    by (rule signed_accepted [OF sample_ct sample_digest sample_sign(1) sample_keys sample_keys sample_ok(4) q])
qed




text \<open>
  C9. A session never signs two packets with the same counter and index, whatever packets it is
  given and whichever of them it refuses, if its random source never yields an index twice: the
  counter goes up with every packet, and a new index is drawn before it can wrap around.
\<close>

theorem counters_never_reused:
  assumes "fresh_source random used" "ms_index s \<in> used r"
  shows "distinct (map carried_counter (sign_all C random packets s r))
    \<and> None \<notin> set (map carried_counter (sign_all C random packets s r))"
  using sign_all_unspent [OF assms, of C packets] by (auto simp: unspent_def)

theorem counters_never_reused_witness:
  "distinct (map carried_counter (sign_all sample_crypto (\<lambda>spent. (if spent then Inl Entropy else Inr 1, True))
     [(sample_packet, sample_ep), (sample_packet, sample_ep)] (sample_session 0 []) False))"
proof -
  have "fresh_source (\<lambda>spent. (if spent then Inl Entropy else Inr 1, True)) (\<lambda>spent. if spent then {0, 1} else {0})"
    by (auto simp: fresh_source_def)
  then show ?thesis
    by (rule conjunct1 [OF counters_never_reused]) (simp add: sample_session_def)
qed

text \<open>
  C25. The room \<open>overhead\<close> reserves is what signing adds: a signed packet is longer than the packet
  it was made of by exactly that many octets, with digests of the length their algorithms have.
\<close>

theorem sign_adds_overhead:
  assumes "\<And>key data. length (hmac_sha256 C key data) = 32" "\<And>key data. length (blake2s_128 C key data) = 16"
    and "sign C random p ep s r = (Inr out, s', r')"
  shows "length out = length p + mac_overhead (ms_config s)"
proof -
  obtain s1 body data where s1: "renew_index random s r = (Inr s1, r')" and add: "add_counter s1 p = Inr body"
    and out: "out = body @ mac_trailer C (mc_keys (ms_config s1)) data"
    using assms(3) by (auto simp: sign_def and_then_Inr split: sum.splits if_splits prod.splits)
  have "4 \<le> length p" using assms(3) by (auto elim!: sign_Inr simp: body_end_Inr)
  then have body: "length body = length p + 22" using add by (auto simp: add_counter_def Let_def split: if_splits)
  have "2 + length (digest C key data) = (case mk_algorithm key of HmacSha256 \<Rightarrow> 34 | Blake2s128 \<Rightarrow> 18)" for key
    using assms(1,2) by (simp add: digest_def split: mac_algorithm.splits)
  then show ?thesis
    using body renew_index_Inr(1) [OF s1] by (simp add: out length_mac_trailer mac_overhead_def)
qed

theorem sign_adds_overhead_witness: "length sample_signed = length sample_packet + 56"
proof -
  have "length sample_signed = length sample_packet + mac_overhead (ms_config (sample_session 7 []))"
    by (rule sign_adds_overhead [OF _ _ sample_sign(1)]) (simp_all add: sample_crypto_def)
  then show ?thesis by (simp add: mac_overhead_def sample_session_def sample_key_def)
qed

end
