(* ===== verification/Babel_Filter.thy ===== *)
theory Babel_Filter
  imports Babel_State
begin

text \<open>
  \<open>crates/babel-rs/src/policy.rs\<close>: the daemon's route filters, lists of rules of which the first
  that matches decides, and \<open>wildcard_match\<close> of \<open>config.rs\<close>, by which rules and interface sections
  name interfaces. The pattern matcher fills a table row by row; it is shown to decide the usual
  meaning of \<open>*\<close> and \<open>?\<close>.
\<close>

section \<open>Prefix containment\<close>

text \<open>The daemon uses two more functions of the \<open>ipnet\<close> package, both named \<open>contains\<close>.\<close>

record ipnet_sets = ipnet +
  net_contains :: "ip_net \<Rightarrow> ip_net \<Rightarrow> bool"
  net_contains_addr :: "ip_net \<Rightarrow> ip_addr \<Rightarrow> bool"

text \<open>The address lies in the prefix: it has its family and agrees with it on its first bits.\<close>

definition covers :: "ip_net \<Rightarrow> ip_addr \<Rightarrow> bool" where
  "covers n x =
     (case (n, x) of
        (V4Net a p, V4 b) \<Rightarrow> a AND NOT (mask (32 - unat p)) = b AND NOT (mask (32 - unat p))
      | (V6Net a p, V6 b) \<Rightarrow> a AND NOT (mask (128 - unat p)) = b AND NOT (mask (128 - unat p))
      | _ \<Rightarrow> False)"

definition subnet :: "ip_net \<Rightarrow> ip_net \<Rightarrow> bool" where
  "subnet m n = (prefix_len n \<le> prefix_len m \<and> covers n (net_addr m))"

locale ipnet_sets_package = ipnet_package "ipnet.truncate M" for M :: ipnet_sets +
  assumes contains_subnet: "net_contains M n m = subnet m n"
    and contains_covers: "net_contains_addr M n x = covers n x"

definition ipnet_sets_ref :: ipnet_sets where
  "ipnet_sets_ref = ipnet.extend ipnet_ref
     \<lparr>net_contains = (\<lambda>n m. subnet m n), net_contains_addr = covers\<rparr>"

interpretation sets_reference: ipnet_sets_package ipnet_sets_ref
proof -
  have base: "ipnet.truncate ipnet_sets_ref = ipnet_ref"
    by (simp add: ipnet_sets_ref_def ipnet.defs)
  have "ipnet_sets_package_axioms ipnet_sets_ref"
    by (simp add: ipnet_sets_package_axioms_def ipnet_sets_ref_def ipnet.defs)
  then show "ipnet_sets_package ipnet_sets_ref"
    unfolding ipnet_sets_package_def base using reference.ipnet_package_axioms by blast
qed

section \<open>Patterns\<close>

text \<open>One cell of the row for the token \<open>token\<close>, from the row before and the cell before.\<close>

definition wildcard_cell :: "char \<Rightarrow> string \<Rightarrow> bool list \<Rightarrow> nat \<Rightarrow> bool list \<Rightarrow> bool list" where
  "wildcard_cell token v previous index current =
     current[index :=
       (if token = CHR ''*'' then previous ! index \<or> current ! (index - 1)
        else if token = CHR ''?'' then previous ! (index - 1)
        else previous ! (index - 1) \<and> token = v ! (index - 1))]"

definition wildcard_row :: "string \<Rightarrow> char \<Rightarrow> bool list \<Rightarrow> bool list" where
  "wildcard_row v token previous =
     (let current = replicate (length v + 1) False;
          current = (if token = CHR ''*'' then current[0 := previous ! 0] else current)
      in fold (wildcard_cell token v previous) [1..<length v + 1] current)"

definition wildcard_match :: "string \<Rightarrow> string \<Rightarrow> bool" where
  "wildcard_match pattern v =
     fold (wildcard_row v) pattern ((replicate (length v + 1) False)[0 := True]) ! length v"

section \<open>Filters\<close>

datatype filter_action = Allow | Deny

datatype match_mode = Exact | Within

datatype filter_stage = Import | Announce | Install

record prefix_match =
  pm_prefix :: ip_net
  pm_mode :: match_mode

record filter_rule =
  rl_action :: filter_action
  rl_source :: "prefix_match option"
  rl_destination :: "prefix_match option"
  rl_interfaces :: "string list option"
  rl_neighbor :: "ip_addr option"
  rl_locally_originated :: "bool option"

record route_filter =
  fl_default :: filter_action
  fl_rules :: "filter_rule list"

record policies =
  pol_import :: route_filter
  pol_announce :: route_filter

definition filter_default :: route_filter where
  "filter_default = \<lparr>fl_default = Allow, fl_rules = []\<rparr>"

definition prefix_matches :: "ipnet_sets \<Rightarrow> prefix_match \<Rightarrow> ip_net \<Rightarrow> bool" where
  "prefix_matches M m prefix =
     (case pm_mode m of
        Exact \<Rightarrow> pm_prefix m = prefix
      | Within \<Rightarrow> net_contains M (pm_prefix m) prefix)"

definition normalize_match :: "ipnet_sets \<Rightarrow> prefix_match \<Rightarrow> prefix_match" where
  "normalize_match M m = m\<lparr>pm_prefix := trunc M (pm_prefix m)\<rparr>"

definition filter_normalize :: "ipnet_sets \<Rightarrow> route_filter \<Rightarrow> route_filter" where
  "filter_normalize M f =
     f\<lparr>fl_rules := map (\<lambda>r. r\<lparr>rl_source := map_option (normalize_match M) (rl_source r),
                            rl_destination := map_option (normalize_match M) (rl_destination r)\<rparr>) (fl_rules f)\<rparr>"

text \<open>The complaint about one rule, if there is one.\<close>

definition rule_error :: "filter_stage \<Rightarrow> filter_rule \<Rightarrow> string option" where
  "rule_error stage r =
     (if (case (rl_source r, rl_destination r) of
            (Some s, Some d) \<Rightarrow> is_ipv4 (net_addr (pm_prefix s)) \<noteq> is_ipv4 (net_addr (pm_prefix d))
          | _ \<Rightarrow> False)
      then Some ''source and destination must use the same address family''
      else if (case rl_interfaces r of None \<Rightarrow> False | Some names \<Rightarrow> names = [] \<or> list_ex (\<lambda>name. name = []) names)
      then Some ''interfaces must contain nonempty patterns''
      else if rl_neighbor r \<noteq> None \<and> stage \<noteq> Import
      then Some ''neighbor is only supported by policy.import''
      else if rl_locally_originated r \<noteq> None \<and> stage \<noteq> Announce
      then Some ''locally_originated is only supported by policy.announce''
      else if rl_interfaces r \<noteq> None \<and> stage = Install
      then Some ''export filters support only source and destination conditions''
      else None)"

text \<open>An error is the number of the rule, counted from one, and its complaint.\<close>

definition filter_validate :: "filter_stage \<Rightarrow> route_filter \<Rightarrow> (nat \<times> string) + unit" where
  "filter_validate stage f =
     (case find_map (\<lambda>(index, rule). map_option (Pair (index + 1)) (rule_error stage rule))
             (enumerate 0 (fl_rules f)) of
        Some err \<Rightarrow> Inl err
      | None \<Rightarrow> Inr ())"

text \<open>An ordinary route is matched as one from the zero-length source of its family.\<close>

definition effective_source :: "ipnet_sets \<Rightarrow> route_key \<Rightarrow> ip_net" where
  "effective_source M key =
     (case source key of
        Some s \<Rightarrow> s
      | None \<Rightarrow> the (if is_ipv4 (net_addr (destination key)) then v4_new M 0 0 else v6_new M 0 0))"

definition rule_applies ::
    "ipnet_sets \<Rightarrow> route_key \<Rightarrow> string option \<Rightarrow> ip_addr option \<Rightarrow> bool option \<Rightarrow> filter_rule \<Rightarrow> bool" where
  "rule_applies M key interface neighbor local rule =
     ((case rl_source rule of None \<Rightarrow> True | Some m \<Rightarrow> prefix_matches M m (effective_source M key))
      \<and> (case rl_destination rule of None \<Rightarrow> True | Some m \<Rightarrow> prefix_matches M m (destination key))
      \<and> (case rl_interfaces rule of
           None \<Rightarrow> True
         | Some patterns \<Rightarrow>
             (case interface of None \<Rightarrow> False | Some name \<Rightarrow> list_ex (\<lambda>p. wildcard_match p name) patterns))
      \<and> (case rl_neighbor rule of None \<Rightarrow> True | Some address \<Rightarrow> neighbor = Some address)
      \<and> (case rl_locally_originated rule of None \<Rightarrow> True | Some l \<Rightarrow> local = Some l))"

definition filter_allows ::
    "ipnet_sets \<Rightarrow> route_filter \<Rightarrow> route_key \<Rightarrow> string option \<Rightarrow> ip_addr option \<Rightarrow> bool option \<Rightarrow> bool" where
  "filter_allows M f key interface neighbor local =
     ((case find (rule_applies M key interface neighbor local) (fl_rules f) of
         None \<Rightarrow> fl_default f
       | Some rule \<Rightarrow> rl_action rule) = Allow)"

definition allows_key :: "ipnet_sets \<Rightarrow> route_filter \<Rightarrow> route_key \<Rightarrow> bool" where
  "allows_key M f key = filter_allows M f key None None None"

section \<open>The meaning of a pattern\<close>

fun glob :: "string \<Rightarrow> string \<Rightarrow> bool" where
  "glob [] v = (v = [])"
| "glob (c # p) [] = (c = CHR ''*'' \<and> glob p [])"
| "glob (c # p) (x # v) =
     (if c = CHR ''*'' then glob p (x # v) \<or> glob (c # p) v
      else (c = CHR ''?'' \<or> c = x) \<and> glob p v)"

lemma glob_append:
  "glob (p @ q) v \<longleftrightarrow> (\<exists>k \<le> length v. glob p (take k v) \<and> glob q (drop k v))"
proof (induction p v rule: glob.induct)
  case (1 v)
  show ?case by (auto intro: exI [of _ 0])
next
  case (2 c p)
  then show ?case by simp
next
  case (3 c p x v)
  show ?case
  proof (cases "c = CHR ''*''")
    case True
    have "glob (c # p @ q) (x # v) \<longleftrightarrow> glob (p @ q) (x # v) \<or> glob (c # p @ q) v" using True by simp
    also have "\<dots> \<longleftrightarrow> (\<exists>k \<le> length (x # v). glob p (take k (x # v)) \<and> glob q (drop k (x # v)))
        \<or> (\<exists>k \<le> length v. glob (c # p) (take k v) \<and> glob q (drop k v))"
      using 3(1,2) True by simp
    also have "\<dots> \<longleftrightarrow> (\<exists>k \<le> length (x # v). glob (c # p) (take k (x # v)) \<and> glob q (drop k (x # v)))"
    proof -
      have split: "(\<exists>k \<le> length (x # v). P k) \<longleftrightarrow> P 0 \<or> (\<exists>k \<le> length v. P (Suc k))" for P
        by (metis Suc_le_mono le0 length_Cons not0_implies_Suc)
      show ?thesis unfolding split using True by (auto simp: take_Cons')
    qed
    finally show ?thesis by simp
  next
    case False
    have split: "(\<exists>k \<le> length (x # v). P k) \<longleftrightarrow> P 0 \<or> (\<exists>k \<le> length v. P (Suc k))" for P
      by (metis Suc_le_mono le0 length_Cons not0_implies_Suc)
    show ?thesis unfolding split using 3(3) False by auto
  qed
qed

lemma glob_snoc:
  "glob (p @ [c]) v \<longleftrightarrow>
     (if c = CHR ''*'' then \<exists>k \<le> length v. glob p (take k v)
      else v \<noteq> [] \<and> glob p (butlast v) \<and> (c = CHR ''?'' \<or> c = last v))"
proof (cases "c = CHR ''*''")
  case True
  have "glob [c] w" for w using True by (induction w) auto
  then show ?thesis using True by (simp add: glob_append)
next
  case False
  have one: "glob [c] w \<longleftrightarrow> (\<exists>x. w = [x] \<and> (c = CHR ''?'' \<or> c = x))" for w
    using False by (cases w) auto
  have "glob (p @ [c]) v \<longleftrightarrow> (\<exists>k \<le> length v. glob p (take k v) \<and> (\<exists>x. drop k v = [x] \<and> (c = CHR ''?'' \<or> c = x)))"
    by (simp add: glob_append one)
  also have "\<dots> \<longleftrightarrow> v \<noteq> [] \<and> glob p (butlast v) \<and> (c = CHR ''?'' \<or> c = last v)"
  proof (cases v rule: rev_cases)
    case (snoc u y)
    have last_only: "drop k (u @ [y]) = [x] \<longleftrightarrow> k = length u \<and> x = y" if "k \<le> length (u @ [y])" for k x
      using that by (cases "k \<le> length u") (auto simp: append_eq_Cons_conv)
    have "(\<exists>k \<le> length (u @ [y]). glob p (take k (u @ [y])) \<and> (\<exists>x. drop k (u @ [y]) = [x] \<and> (c = CHR ''?'' \<or> c = x)))
        \<longleftrightarrow> (\<exists>k \<le> length (u @ [y]). glob p (take k (u @ [y])) \<and> k = length u \<and> (c = CHR ''?'' \<or> c = y))"
      using last_only by blast
    also have "\<dots> \<longleftrightarrow> glob p u \<and> (c = CHR ''?'' \<or> c = y)" by auto
    finally show ?thesis unfolding snoc by simp
  qed simp
  finally show ?thesis using False by simp
qed

lemma wildcard_row_cells:
  assumes "length previous = length v + 1"
  shows "length (wildcard_row v c previous) = length v + 1"
    "i \<le> length v \<Longrightarrow> wildcard_row v c previous ! i \<longleftrightarrow>
       (if c = CHR ''*'' then \<exists>k \<le> i. previous ! k
        else 0 < i \<and> previous ! (i - 1) \<and> (c = CHR ''?'' \<or> c = v ! (i - 1)))"
proof -
  let ?init = "if c = CHR ''*'' then (replicate (length v + 1) False)[0 := previous ! 0] else replicate (length v + 1) False"
  let ?spec = "\<lambda>i. if c = CHR ''*'' then \<exists>k \<le> i. previous ! k
        else 0 < i \<and> previous ! (i - 1) \<and> (c = CHR ''?'' \<or> c = v ! (i - 1))"
  have step: "length (fold (wildcard_cell c v previous) [1..<m + 1] ?init) = length v + 1
      \<and> (\<forall>i \<le> m. fold (wildcard_cell c v previous) [1..<m + 1] ?init ! i = ?spec i)" if "m \<le> length v" for m
    using that
  proof (induction m)
    case 0
    then show ?case by simp
  next
    case (Suc m)
    define row where "row = fold (wildcard_cell c v previous) [1..<m + 1] ?init"
    have IH: "length row = length v + 1" "\<And>i. i \<le> m \<Longrightarrow> row ! i = ?spec i"
      using Suc unfolding row_def by auto
    have f: "fold (wildcard_cell c v previous) [1..<Suc m + 1] ?init = wildcard_cell c v previous (Suc m) row"
      by (simp add: row_def)
    have star: "(\<exists>k \<le> Suc m. previous ! k) \<longleftrightarrow> previous ! Suc m \<or> (\<exists>k \<le> m. previous ! k)"
      by (auto simp: le_Suc_eq)
    have new: "wildcard_cell c v previous (Suc m) row ! Suc m = ?spec (Suc m)"
      using Suc.prems IH(1) IH(2) [OF le_refl] star by (simp add: wildcard_cell_def)
    have old: "wildcard_cell c v previous (Suc m) row ! i = ?spec i" if "i \<le> m" for i
      using that IH(2) [OF that] by (simp add: wildcard_cell_def)
    have "length (wildcard_cell c v previous (Suc m) row) = length v + 1"
      using IH(1) by (simp add: wildcard_cell_def)
    moreover have "wildcard_cell c v previous (Suc m) row ! i = ?spec i" if "i \<le> Suc m" for i
      using that new old by (cases "i = Suc m") simp_all
    ultimately show ?case unfolding f by blast
  qed
  show "length (wildcard_row v c previous) = length v + 1"
    using step [of "length v"] unfolding wildcard_row_def Let_def by blast
  show "i \<le> length v \<Longrightarrow> wildcard_row v c previous ! i \<longleftrightarrow> ?spec i"
    using step [of "length v"] unfolding wildcard_row_def Let_def by blast
qed

lemma wildcard_rows:
  "length (fold (wildcard_row v) p ((replicate (length v + 1) False)[0 := True])) = length v + 1
   \<and> (\<forall>i \<le> length v. fold (wildcard_row v) p ((replicate (length v + 1) False)[0 := True]) ! i = glob p (take i v))"
proof (induction p rule: rev_induct)
  case Nil
  then show ?case by (auto simp: nth_list_update nth_Cons')
next
  case (snoc c p)
  let ?row = "fold (wildcard_row v) p ((replicate (length v + 1) False)[0 := True])"
  have len: "length ?row = length v + 1" and cell: "\<And>i. i \<le> length v \<Longrightarrow> ?row ! i = glob p (take i v)"
    using snoc by auto
  have "wildcard_row v c ?row ! i = glob (p @ [c]) (take i v)" if i: "i \<le> length v" for i
  proof (cases "c = CHR ''*''")
    case True
    then show ?thesis using wildcard_row_cells(2) [OF len i, of c] i cell by (auto simp: glob_snoc min_def)
  next
    case False
    show ?thesis
    proof (cases i)
      case 0
      then show ?thesis using wildcard_row_cells(2) [OF len i, of c] False by (simp add: glob_snoc)
    next
      case (Suc j)
      then have "butlast (take i v) = take j v" "last (take i v) = v ! j"
        using i by (simp_all add: butlast_take take_Suc_conv_app_nth)
      then show ?thesis
        using wildcard_row_cells(2) [OF len i, of c] i cell [of j] False Suc by (auto simp: glob_snoc)
    qed
  qed
  then show ?case using wildcard_row_cells(1) [OF len, of c] by simp
qed

text \<open>
  C19. A pattern matches an interface name by the row-by-row algorithm exactly if it does by the
  meaning of its characters: \<open>*\<close> stands for any string, \<open>?\<close> for any one character, every other
  character for itself.
\<close>

theorem wildcard_match_glob: "wildcard_match pattern v = glob pattern v"
  using wildcard_rows [of v pattern] by (simp add: wildcard_match_def)

end
