(* ===== verification/Babel_Config.thy ===== *)
theory Babel_Config
  imports Babel_Filter Babel_Mac
begin

text \<open>
  \<open>crates/babel-rs/src/config.rs\<close>: the daemon's configuration once it has been read from its TOML
  file, its normalisation and validation, and the settings of an interface that follow from it.
  Reading the file and the derived deserialisation are outside the model, the text of a key file is
  a parameter, and so is floating-point arithmetic with the constant \<open>0.836\<close> (\<open>alpha\<close>).
\<close>

section \<open>Loops that may fail\<close>

text \<open>A loop whose body uses \<open>?\<close>, without and with a variable it updates.\<close>

fun try_for_each :: "('a \<Rightarrow> 'e + unit) \<Rightarrow> 'a list \<Rightarrow> 'e + unit" where
  "try_for_each f [] = Inr ()"
| "try_for_each f (x # xs) = and_then (f x) (\<lambda>_. try_for_each f xs)"

fun try_fold :: "('a \<Rightarrow> 's \<Rightarrow> 'e + 's) \<Rightarrow> 'a list \<Rightarrow> 's \<Rightarrow> 'e + 's" where
  "try_fold f [] s = Inr s"
| "try_fold f (x # xs) s = and_then (f x s) (try_fold f xs)"

fun map_err :: "('e \<Rightarrow> 'd) \<Rightarrow> 'e + 'a \<Rightarrow> 'd + 'a" where
  "map_err f (Inl e) = Inl (f e)"
| "map_err f (Inr x) = Inr x"

section \<open>The configuration\<close>

datatype daemon_error =
    CPolicy "string + u32" nat string
  | CMac "string + mac_error"
  | CNoInterfaces
  | CInvalidShutdownTimeout
  | CInvalidRecoveryWindow
  | CInvalidMetric string
  | CInvalidRouteSelection config_error
  | CEmptyInterfacePattern
  | CDuplicateInterfacePattern string
  | CInvalidInterfaceInterval string
  | CMixedAddressFamilies
  | CDuplicateOrigin route_key
  | CInvalidOriginMetric
  | CInvalidProtocol
  | CNoExportViews
  | CInvalidTable u32
  | CDuplicateView "u32 option" "ip_net option"
  | CSharedSourceTable
  | CSourceRuleOrder ip_net ip_net
  | CAutomaticSourceConfig
  | CSourcePriorityRange
  | COrdinaryRulePriority

datatype shutdown_policy = Clear | Retain

datatype link_type = Wired | Wireless | Tunnel

datatype base_metric_config = BaseWired u16 u8 u8 | BaseEtx u8

datatype metric_config =
    MetricWired u16 u8 u8
  | MetricEtx u8
  | MetricRtt base_metric_config u64 "u64 option" u32 u32 u16

record limits_section =
  ls_max_neighbors :: "nat option"
  ls_max_candidates :: "nat option"
  ls_max_candidates_per_neighbor :: "nat option"

record mac_section =
  mx_keys :: "(mac_algorithm \<times> string) list"
  mx_accept_unverified :: bool
  mx_resolved :: "mac_config option"

record interface_section =
  sec_patterns :: "string list"
  sec_link_type :: link_type
  sec_split_horizon :: "bool option"
  sec_ipv4_next_hop :: ipv4_next_hop
  sec_control_transport :: control_transport
  sec_hello_interval_ms :: "u64 option"
  sec_update_interval_ms :: "u64 option"
  sec_metric :: "metric_config option"
  sec_mac :: "mac_section option"

record origin_section =
  or_destination :: ip_net
  or_source :: "ip_net option"
  or_metric :: u16

record export_view =
  vw_table :: u32
  vw_source :: "ip_net option"
  vw_rule_priority :: "u32 option"
  vw_filter :: route_filter

record export =
  ex_protocol :: u8
  ex_device_only :: bool
  ex_manage_rules :: bool
  ex_automatic_sources :: bool
  ex_source_table_base :: u32
  ex_source_rule_priority :: u32
  ex_views :: "export_view list"

record daemon_config =
  dc_router_id :: "string option"
  dc_state_file :: string
  dc_shutdown_timeout_ms :: u32
  dc_shutdown_policy :: shutdown_policy
  dc_restart_recovery_seconds :: u32
  dc_interfaces :: "interface_section list"
  dc_route_selection :: route_selection_config
  dc_limits :: limits_section
  dc_origins :: "origin_section list"
  dc_policy :: policies
  dc_export :: export

record effective_interface =
  ei_mac :: "mac_config option"
  ei_section :: nat
  ei_control_transport :: control_transport
  ei_link_type :: link_type
  ei_metric :: metric_config
  ei_hello_interval_cs :: u16
  ei_update_interval_cs :: u16
  ei_split_horizon :: bool
  ei_ipv4_next_hop :: ipv4_next_hop

definition limits_effective :: "limits_section \<Rightarrow> resource_limits" where
  "limits_effective l =
     \<lparr>max_neighbors = case_option (max_neighbors resource_limits_default) id (ls_max_neighbors l),
      max_candidates = case_option (max_candidates resource_limits_default) id (ls_max_candidates l),
      max_candidates_per_neighbor =
        case_option (max_candidates_per_neighbor resource_limits_default) id (ls_max_candidates_per_neighbor l)\<rparr>"

section \<open>Keys\<close>

text \<open>\<open>char::to_digit(16)\<close> and \<open>str::trim\<close>, on ASCII text.\<close>

definition to_digit16 :: "char \<Rightarrow> nat option" where
  "to_digit16 c =
     (let n = (of_char c :: nat)
      in if 48 \<le> n \<and> n \<le> 57 then Some (n - 48)
         else if 97 \<le> n \<and> n \<le> 102 then Some (n - 87)
         else if 65 \<le> n \<and> n \<le> 70 then Some (n - 55)
         else None)"

definition is_ascii_space :: "char \<Rightarrow> bool" where
  "is_ascii_space c = (let n = (of_char c :: nat) in 9 \<le> n \<and> n \<le> 13 \<or> n = 32)"

definition trim :: "string \<Rightarrow> string" where
  "trim s = rev (dropWhile is_ascii_space (rev (dropWhile is_ascii_space s)))"

fun hex_pairs :: "string \<Rightarrow> (string + mac_error) + u8 list" where
  "hex_pairs (a # b # rest) =
     (case (to_digit16 a, to_digit16 b) of
        (Some h, Some l) \<Rightarrow> and_then (hex_pairs rest) (\<lambda>bytes. Inr (of_nat (h * 16 + l) # bytes))
      | _ \<Rightarrow> Inl (Inl ''MAC key file must contain hexadecimal bytes''))"
| "hex_pairs _ = Inr []"

definition key_bytes :: "string \<Rightarrow> (string + mac_error) + u8 list" where
  "key_bytes contents =
     (let t = trim contents
      in if t = [] \<or> length t > 8192 \<or> length t mod 2 \<noteq> 0
         then Inl (Inl ''MAC key file must contain hexadecimal bytes'')
         else hex_pairs t)"

definition resolve_key ::
    "(string \<Rightarrow> string option) \<Rightarrow> mac_algorithm \<times> string \<Rightarrow> mac_key list \<Rightarrow> daemon_error + mac_key list" where
  "resolve_key read = (\<lambda>(algorithm, key_file) keys.
     map_err CMac
       (case read key_file of
          None \<Rightarrow> Inl (Inl ''cannot read MAC key file'')
        | Some contents \<Rightarrow>
            and_then (key_bytes contents) (\<lambda>bytes.
              and_then (map_err Inr (mac_key_new algorithm bytes)) (\<lambda>key. Inr (keys @ [key])))))"

definition mac_resolve :: "(string \<Rightarrow> string option) \<Rightarrow> mac_section \<Rightarrow> daemon_error + mac_section" where
  "mac_resolve read m =
     and_then (try_fold (resolve_key read) (mx_keys m) []) (\<lambda>keys.
       and_then (map_err (CMac \<circ> Inr) (mac_config_new keys)) (\<lambda>c.
         Inr (m\<lparr>mx_resolved := Some (accept_unverified (mx_accept_unverified m) c)\<rparr>)))"

section \<open>Metrics and intervals\<close>

definition metric_default :: metric_config where
  "metric_default = MetricWired 96 2 3"

definition base_metric_default :: base_metric_config where
  "base_metric_default = BaseWired 96 2 3"

definition for_link_type :: "link_type \<Rightarrow> metric_config" where
  "for_link_type t =
     (case t of
        Wired \<Rightarrow> metric_default
      | Wireless \<Rightarrow> MetricEtx 6
      | Tunnel \<Rightarrow> MetricRtt base_metric_default 2000 None (10000 div 1000) (120000 div 1000) 150)"

definition base_metric_build :: "base_metric_config \<Rightarrow> daemon_error + 'f neighbor_metric metric_profile" where
  "base_metric_build c =
     (case c of
        BaseWired cost rcv window \<Rightarrow>
          ok_or (CInvalidMetric ''invalid wired base parameters'') (map_option wired_profile (wired_metric_new cost rcv window))
      | BaseEtx window \<Rightarrow>
          ok_or (CInvalidMetric ''ETX base window must be in 1..=16'') (map_option etx_profile (etx_metric_new window)))"

definition checked_mul_1000 :: "u32 \<Rightarrow> u32 option" where
  "checked_mul_1000 a = (if unat a * 1000 < 2 ^ 32 then Some (a * 1000) else None)"

definition metric_build ::
    "'f f64_ops \<Rightarrow> 'f \<Rightarrow> metric_config \<Rightarrow> daemon_error + 'f neighbor_metric metric_profile" where
  "metric_build F alpha c =
     (case c of
        MetricWired cost rcv window \<Rightarrow>
          ok_or (CInvalidMetric ''invalid wired parameters'') (map_option wired_profile (wired_metric_new cost rcv window))
      | MetricEtx window \<Rightarrow>
          ok_or (CInvalidMetric ''ETX window must be in 1..=16'') (map_option etx_profile (etx_metric_new window))
      | MetricRtt base probe half_life min_rtt_ms max_rtt_ms max_penalty \<Rightarrow>
          and_then (base_metric_build base) (\<lambda>base.
          and_then (ok_or (CInvalidMetric ''min_rtt_ms is too large'') (checked_mul_1000 min_rtt_ms)) (\<lambda>min_rtt_us.
          and_then (ok_or (CInvalidMetric ''max_rtt_ms is too large'') (checked_mul_1000 max_rtt_ms)) (\<lambda>max_rtt_us.
            ok_or (CInvalidMetric ''invalid RTT parameters'')
              (map_option rtt_profile
                (Option.bind (rtt_metric_new base probe (case_option 6000 id half_life) min_rtt_us max_rtt_us max_penalty)
                   (\<lambda>m. if half_life = None then with_sample_alpha F alpha m else Some m)))))))"

definition effective_interval :: "u64 option \<Rightarrow> string \<Rightarrow> daemon_error + u16" where
  "effective_interval value_ms field =
     (let ms = case_option (400 * 10) id value_ms
      in if ms = 0 \<or> ms > 65535 * 10 \<or> ms mod 10 \<noteq> 0 then Inl (CInvalidInterfaceInterval field)
         else Inr (ucast (ms div 10)))"

definition checked_mul_4 :: "u16 \<Rightarrow> u16 option" where
  "checked_mul_4 a = (if unat a * 4 < 2 ^ 16 then Some (a * 4) else None)"

definition effective_update_interval :: "interface_section \<Rightarrow> daemon_error + u16" where
  "effective_update_interval section =
     (case sec_update_interval_ms section of
        Some v \<Rightarrow> effective_interval (Some v) ''update_interval_ms''
      | None \<Rightarrow>
          and_then (effective_interval (sec_hello_interval_ms section) ''hello_interval_ms'') (\<lambda>hello.
            ok_or (CInvalidInterfaceInterval ''update_interval_ms'') (checked_mul_4 hello)))"

definition section_metric :: "interface_section \<Rightarrow> metric_config" where
  "section_metric section = case_option (for_link_type (sec_link_type section)) id (sec_metric section)"

section \<open>Export\<close>

definition rule_priority :: "export \<Rightarrow> export_view \<Rightarrow> u32" where
  "rule_priority ex view =
     (case vw_rule_priority view of
        Some p \<Rightarrow> p
      | None \<Rightarrow> sat_add (ex_source_rule_priority ex)
                  (ucast (128 - (case vw_source view of None \<Rightarrow> 0 | Some s \<Rightarrow> prefix_len s))))"

definition automatic_sources :: "export \<Rightarrow> bool" where
  "automatic_sources ex = (ex_automatic_sources ex \<and> ex_manage_rules ex)"

definition prefixes_overlap :: "ipnet_sets \<Rightarrow> ip_net \<Rightarrow> ip_net \<Rightarrow> bool" where
  "prefixes_overlap M l r =
     (is_ipv4 (net_addr l) = is_ipv4 (net_addr r)
      \<and> (net_contains_addr M l (network M r) \<or> net_contains_addr M r (network M l)))"

definition origin_key :: "ipnet_sets \<Rightarrow> origin_section \<Rightarrow> daemon_error + route_key" where
  "origin_key M origin =
     ok_or CMixedAddressFamilies (route_key_new (ipnet.truncate M) (or_destination origin) (or_source origin))"

section \<open>Validation\<close>

fun insert_patterns :: "string list \<Rightarrow> string list \<Rightarrow> daemon_error + string list" where
  "insert_patterns [] seen = Inr seen"
| "insert_patterns (p # ps) seen =
     (if p = [] then Inl CEmptyInterfacePattern
      else if p \<in> set seen then Inl (CDuplicateInterfacePattern p)
      else insert_patterns ps (p # seen))"

definition validate_patterns :: "string list \<Rightarrow> string list \<Rightarrow> daemon_error + string list" where
  "validate_patterns patterns seen =
     (if patterns = [] then Inl CEmptyInterfacePattern else insert_patterns patterns seen)"

definition validate_section ::
    "'f f64_ops \<Rightarrow> 'f \<Rightarrow> interface_section \<Rightarrow> string list \<Rightarrow> daemon_error + string list" where
  "validate_section F alpha section seen =
     and_then (validate_patterns (sec_patterns section) seen) (\<lambda>seen'.
     and_then (effective_interval (sec_hello_interval_ms section) ''hello_interval_ms'') (\<lambda>_.
     and_then (effective_update_interval section) (\<lambda>_.
     and_then (metric_build F alpha (section_metric section)) (\<lambda>_. Inr seen'))))"

definition validate_filters :: "daemon_config \<Rightarrow> daemon_error + unit" where
  "validate_filters c =
     and_then (map_err (\<lambda>(n, e). CPolicy (Inl ''policy.import'') n e) (filter_validate Import (pol_import (dc_policy c)))) (\<lambda>_.
     and_then (map_err (\<lambda>(n, e). CPolicy (Inl ''policy.announce'') n e) (filter_validate Announce (pol_announce (dc_policy c)))) (\<lambda>_.
     try_for_each (\<lambda>view. map_err (\<lambda>(n, e). CPolicy (Inr (vw_table view)) n e) (filter_validate Install (vw_filter view)))
       (ex_views (dc_export c))))"

definition automatic_priority :: "export \<Rightarrow> export_view \<Rightarrow> bool" where
  "automatic_priority ex view =
     (case vw_rule_priority view of
        None \<Rightarrow> True
      | Some p \<Rightarrow> p = rule_priority ex (view\<lparr>vw_rule_priority := None, vw_filter := filter_default\<rparr>))"

definition validate_export :: "export \<Rightarrow> daemon_error + unit" where
  "validate_export ex =
     (if ex_protocol ex = 0 then Inl CInvalidProtocol
      else if ex_views ex = [] then Inl CNoExportViews
      else if automatic_sources ex
              \<and> (\<not> (256 \<le> ex_source_table_base ex \<and> ex_source_table_base ex \<le> 0x7fffffff)
                 \<or> list_ex (\<lambda>v. \<not> automatic_priority ex v) (ex_views ex))
      then Inl CAutomaticSourceConfig
      else if ex_source_rule_priority ex = 0 \<or> ex_source_rule_priority ex > 32638
              \<or> list_ex (\<lambda>v. vw_rule_priority v = Some 0) (ex_views ex)
      then Inl CSourcePriorityRange
      else Inr ())"

type_synonym view_sets = "(u32 \<times> ip_net option) list \<times> (u32 \<times> bool) list"

definition validate_view :: "export_view \<Rightarrow> view_sets \<Rightarrow> daemon_error + view_sets" where
  "validate_view view = (\<lambda>(views, source_tables).
     if vw_table view = 0 \<or> 253 \<le> vw_table view \<and> vw_table view \<le> 255 then Inl (CInvalidTable (vw_table view))
     else if vw_source view = None \<and> vw_rule_priority view \<noteq> None then Inl COrdinaryRulePriority
     else if (vw_table view, vw_source view) \<in> set views
     then Inl (CDuplicateView (Some (vw_table view)) (vw_source view))
     else case vw_source view of
       None \<Rightarrow> Inr ((vw_table view, vw_source view) # views, source_tables)
     | Some s \<Rightarrow>
         if (vw_table view, is_ipv4 (net_addr s)) \<in> set source_tables then Inl CSharedSourceTable
         else Inr ((vw_table view, vw_source view) # views, (vw_table view, is_ipv4 (net_addr s)) # source_tables))"

definition validate_view_pair :: "ipnet_sets \<Rightarrow> export \<Rightarrow> export_view \<Rightarrow> export_view \<Rightarrow> daemon_error + unit" where
  "validate_view_pair M ex left right =
     (if vw_table left = vw_table right \<and> (vw_source left = None \<or> vw_source right = None) then Inl CSharedSourceTable
      else case (vw_source left, vw_source right) of
        (Some l, Some r) \<Rightarrow>
          if l = r then Inl (CDuplicateView None (Some l))
          else if prefixes_overlap M l r
                  \<and> (prefix_len l > prefix_len r \<and> rule_priority ex left \<ge> rule_priority ex right
                     \<or> prefix_len r > prefix_len l \<and> rule_priority ex right \<ge> rule_priority ex left)
          then Inl (CSourceRuleOrder l r)
          else Inr ()
      | _ \<Rightarrow> Inr ())"

fun validate_view_pairs :: "ipnet_sets \<Rightarrow> export \<Rightarrow> export_view list \<Rightarrow> daemon_error + unit" where
  "validate_view_pairs M ex [] = Inr ()"
| "validate_view_pairs M ex (left # rest) =
     and_then (try_for_each (validate_view_pair M ex left) rest) (\<lambda>_. validate_view_pairs M ex rest)"

definition validate_daemon_origin ::
    "ipnet_sets \<Rightarrow> origin_section \<Rightarrow> route_key list \<Rightarrow> daemon_error + route_key list" where
  "validate_daemon_origin M origin origins =
     and_then (origin_key M origin) (\<lambda>key.
       if or_metric origin = INFINITY then Inl CInvalidOriginMetric
       else if key \<in> set origins then Inl (CDuplicateOrigin key)
       else Inr (key # origins))"

definition config_validate :: "ipnet_sets \<Rightarrow> 'f f64_ops \<Rightarrow> 'f \<Rightarrow> daemon_config \<Rightarrow> daemon_error + unit" where
  "config_validate M F alpha c =
     and_then (validate_filters c) (\<lambda>_.
     if dc_restart_recovery_seconds c > 86400 then Inl CInvalidRecoveryWindow
     else if dc_shutdown_timeout_ms c = 0 then Inl CInvalidShutdownTimeout
     else if dc_interfaces c = [] then Inl CNoInterfaces
     else
       and_then (try_fold (validate_section F alpha) (dc_interfaces c) []) (\<lambda>_.
       and_then (validate_export (dc_export c)) (\<lambda>_.
       and_then (try_fold validate_view (ex_views (dc_export c)) ([], [])) (\<lambda>_.
       and_then (validate_view_pairs M (dc_export c) (ex_views (dc_export c))) (\<lambda>_.
       and_then (try_fold (validate_daemon_origin M) (dc_origins c) []) (\<lambda>_.
       map_err CInvalidRouteSelection (validate_route_selection (dc_route_selection c))))))))"

section \<open>Normalisation\<close>

definition resolve_section :: "(string \<Rightarrow> string option) \<Rightarrow> interface_section \<Rightarrow> daemon_error + interface_section" where
  "resolve_section read section =
     (case sec_mac section of
        None \<Rightarrow> Inr section
      | Some m \<Rightarrow> and_then (mac_resolve read m) (\<lambda>m'. Inr (section\<lparr>sec_mac := Some m'\<rparr>)))"

definition normalize_origin :: "origin_section \<Rightarrow> origin_section" where
  "normalize_origin origin =
     origin\<lparr>or_source := (case or_source origin of
        None \<Rightarrow> None | Some s \<Rightarrow> if prefix_len s \<noteq> 0 then Some s else None)\<rparr>"

definition normalize_view :: "ipnet_sets \<Rightarrow> export_view \<Rightarrow> export_view" where
  "normalize_view M view =
     view\<lparr>vw_source := (case vw_source view of
            None \<Rightarrow> None | Some s \<Rightarrow> if prefix_len s \<noteq> 0 then Some (trunc M s) else None),
          vw_filter := filter_normalize M (vw_filter view)\<rparr>"

text \<open>\<open>Config::parse\<close> from the value the TOML package has read.\<close>

definition config_parse ::
    "ipnet_sets \<Rightarrow> 'f f64_ops \<Rightarrow> 'f \<Rightarrow> (string \<Rightarrow> string option) \<Rightarrow> daemon_config \<Rightarrow> daemon_error + daemon_config" where
  "config_parse M F alpha read v =
     and_then (try_fold (\<lambda>section done. and_then (resolve_section read section) (\<lambda>s. Inr (done @ [s])))
                 (dc_interfaces v) []) (\<lambda>sections.
       let c = v\<lparr>dc_interfaces := sections,
                 dc_origins := map normalize_origin (dc_origins v),
                 dc_export := (dc_export v)\<lparr>ex_views := map (normalize_view M) (ex_views (dc_export v))\<rparr>,
                 dc_policy := \<lparr>pol_import = filter_normalize M (pol_import (dc_policy v)),
                               pol_announce = filter_normalize M (pol_announce (dc_policy v))\<rparr>\<rparr>
       in and_then (config_validate M F alpha c) (\<lambda>_. Inr c))"

section \<open>Interfaces\<close>

text \<open>The settings of the first section that matches. The two \<open>expect\<close> calls panic on the error
  that is the result here.\<close>

definition section_settings :: "nat \<Rightarrow> interface_section \<Rightarrow> daemon_error + effective_interface" where
  "section_settings index section =
     and_then (effective_interval (sec_hello_interval_ms section) ''hello_interval_ms'') (\<lambda>hello.
     and_then (effective_update_interval section) (\<lambda>update.
       Inr \<lparr>ei_mac = Option.bind (sec_mac section) mx_resolved, ei_section = index,
            ei_control_transport = sec_control_transport section, ei_link_type = sec_link_type section,
            ei_metric = section_metric section, ei_hello_interval_cs = hello, ei_update_interval_cs = update,
            ei_split_horizon = case_option (sec_link_type section \<noteq> Wireless) id (sec_split_horizon section),
            ei_ipv4_next_hop = sec_ipv4_next_hop section\<rparr>))"

definition effective_interface_of :: "daemon_config \<Rightarrow> string \<Rightarrow> (daemon_error + effective_interface) option" where
  "effective_interface_of c name =
     find_map (\<lambda>(index, section).
       if list_ex (\<lambda>pattern. wildcard_match pattern name) (sec_patterns section)
       then Some (section_settings index section) else None)
       (enumerate 0 (dc_interfaces c))"

definition build_policy ::
    "'f f64_ops \<Rightarrow> 'f \<Rightarrow> effective_interface \<Rightarrow> daemon_error + 'f neighbor_metric interface_policy" where
  "build_policy F alpha i =
     and_then (metric_build F alpha (ei_metric i)) (\<lambda>metric.
       Inr \<lparr>ip_control_transport = ei_control_transport i, ip_ipv4_next_hop = ei_ipv4_next_hop i, ip_metric = metric,
            ip_hello_interval_cs = ei_hello_interval_cs i, ip_update_interval_cs = ei_update_interval_cs i,
            ip_split_horizon = ei_split_horizon i\<rparr>)"

definition reload_identity_matches :: "daemon_config \<Rightarrow> daemon_config \<Rightarrow> bool" where
  "reload_identity_matches c candidate =
     (dc_restart_recovery_seconds c = dc_restart_recovery_seconds candidate
      \<and> dc_router_id c = dc_router_id candidate \<and> dc_state_file c = dc_state_file candidate
      \<and> dc_route_selection c = dc_route_selection candidate
      \<and> limits_effective (dc_limits c) = limits_effective (dc_limits candidate)
      \<and> ex_protocol (dc_export c) = ex_protocol (dc_export candidate))"

section \<open>What validation ensures\<close>

lemma map_err_Inr [simp]: "map_err f r = Inr x \<longleftrightarrow> r = Inr x"
  by (cases r) auto


lemma try_fold_member:
  "try_fold f xs s = Inr s' \<Longrightarrow> x \<in> set xs \<Longrightarrow> \<exists>t t'. f x t = Inr t'"
  by (induction xs arbitrary: s) (auto simp: and_then_Inr)

lemma config_validate_parts:
  assumes "config_validate M F alpha c = Inr u"
  shows "\<And>section. section \<in> set (dc_interfaces c) \<Longrightarrow> \<exists>seen seen'. validate_section F alpha section seen = Inr seen'"
    "validate_export (dc_export c) = Inr ()"
    "validate_view_pairs M (dc_export c) (ex_views (dc_export c)) = Inr ()"
    "\<exists>keys. try_fold (validate_daemon_origin M) (dc_origins c) [] = Inr keys"
    "validate_route_selection (dc_route_selection c) = Inr ()"
    "validate_filters c = Inr ()"
  using assms try_fold_member [of "validate_section F alpha" "dc_interfaces c" "[]"]
  by (auto simp: config_validate_def and_then_Inr split: if_splits)

lemma effective_interval_Inr:
  assumes "effective_interval v field = Inr cs"
  shows "cs \<noteq> 0" "unat (case_option (400 * 10 :: u64) id v) = unat cs * 10"
proof -
  define ms where "ms = case_option (400 * 10 :: u64) id v"
  have ms: "ms \<noteq> 0" "\<not> ms > 65535 * 10" "ms mod 10 = 0" and cs: "cs = ucast (ms div 10)"
    using assms by (auto simp: effective_interval_def Let_def ms_def [symmetric] split: if_splits)
  have "unat ms mod 10 = unat (ms mod 10)" by (simp add: unat_mod)
  then have m0: "unat ms mod 10 = 0" using ms(3) by simp
  have "unat (ms div 10) = unat ms div 10" by (simp add: unat_div)
  moreover have "unat ms \<le> 655350" using ms(2) by (simp add: word_less_nat_alt)
  ultimately have u: "unat cs = unat ms div 10" by (simp add: cs unsigned_ucast_eq take_bit_nat_eq_self)
  show "unat (case_option (400 * 10 :: u64) id v) = unat cs * 10"
    unfolding ms_def [symmetric] u using m0 by presburger
  have "unat ms \<noteq> 0" using ms(1) by (simp add: unat_eq_0)
  then have "unat cs \<noteq> 0" using u m0 by presburger
  then show "cs \<noteq> 0" by auto
qed

lemma effective_update_interval_Inr:
  assumes "effective_update_interval section = Inr cs"
  shows "cs \<noteq> 0"
proof (cases "sec_update_interval_ms section")
  case None
  then obtain hello where h: "effective_interval (sec_hello_interval_ms section) ''hello_interval_ms'' = Inr hello"
    and cs: "checked_mul_4 hello = Some cs"
    using assms by (auto simp: effective_update_interval_def and_then_Inr)
  have "unat cs = unat hello * 4"
    using cs by (auto simp: checked_mul_4_def unat_word_ariths split: if_splits)
  moreover have "unat hello \<noteq> 0" using effective_interval_Inr(1) [OF h] by (simp add: unat_eq_0)
  ultimately show ?thesis by auto
next
  case (Some v)
  then show ?thesis using assms effective_interval_Inr(1) by (auto simp: effective_update_interval_def)
qed


section \<open>Guarantees\<close>

text \<open>An example: one tunnel, one ordinary view, automatic source views.\<close>

definition sample_f64 :: "unit f64_ops" where
  "sample_f64 =
     \<lparr>f64_of_u16 = \<lambda>_. (), f64_of_u32 = \<lambda>_. (), f64_of_u64 = \<lambda>_. (), f64_add = \<lambda>_ _. (), f64_sub = \<lambda>_ _. (),
      f64_mul = \<lambda>_ _. (), f64_div = \<lambda>_ _. (), f64_neg = \<lambda>_. (), f64_powf = \<lambda>_ _. (), f64_le = \<lambda>_ _. True,
      f64_lt = \<lambda>_ _. True, f64_is_finite = \<lambda>_. True, f64_round_u16 = \<lambda>_. 0, f64_round_u32 = \<lambda>_. 0\<rparr>"

definition sample_interface :: interface_section where
  "sample_interface =
     \<lparr>sec_patterns = [''wg*''], sec_link_type = Tunnel, sec_split_horizon = None, sec_ipv4_next_hop = NextHopAuto,
      sec_control_transport = TransportIpv6, sec_hello_interval_ms = Some 4000, sec_update_interval_ms = None,
      sec_metric = None, sec_mac = None\<rparr>"

definition sample_export :: export where
  "sample_export =
     \<lparr>ex_protocol = 203, ex_device_only = False, ex_manage_rules = True, ex_automatic_sources = True,
      ex_source_table_base = 1000, ex_source_rule_priority = 10000,
      ex_views = [\<lparr>vw_table = 201, vw_source = None, vw_rule_priority = None, vw_filter = filter_default\<rparr>]\<rparr>"

definition sample_daemon_config :: daemon_config where
  "sample_daemon_config =
     \<lparr>dc_router_id = None, dc_state_file = ''state'', dc_shutdown_timeout_ms = 5000, dc_shutdown_policy = Clear,
      dc_restart_recovery_seconds = 240, dc_interfaces = [sample_interface],
      dc_route_selection = route_selection_config_default,
      dc_limits = \<lparr>ls_max_neighbors = None, ls_max_candidates = None, ls_max_candidates_per_neighbor = None\<rparr>,
      dc_origins = [], dc_policy = \<lparr>pol_import = filter_default, pol_announce = filter_default\<rparr>,
      dc_export = sample_export\<rparr>"

lemma sample_config_valid: "config_validate ipnet_sets_ref sample_f64 () sample_daemon_config = Inr ()"
  by code_simp



text \<open>
  C15. A validated configuration gives every interface usable settings: looking up an interface
  never runs into the panics that guard its intervals, its metric can be built, and the engine
  accepts the policy built from it.
\<close>

theorem valid_config_interfaces:
  assumes "config_validate M F alpha c = Inr ()" "effective_interface_of c name = Some r"
  shows "\<exists>i p. r = Inr i \<and> build_policy F alpha i = Inr p \<and> validate_interface_policy p = Inr ()"
proof -
  obtain x where x: "x \<in> set (enumerate 0 (dc_interfaces c))"
    "(\<lambda>(index, section). if list_ex (\<lambda>pattern. wildcard_match pattern name) (sec_patterns section)
       then Some (section_settings index section) else None) x = Some r"
    using find_map_SomeD [OF assms(2) [unfolded effective_interface_of_def]] by blast
  obtain index entry where e: "x = (index, entry)" by (rule prod.exhaust)
  have r: "r = section_settings index entry" using x(2) e by (simp split: if_splits)
  have "entry \<in> set (dc_interfaces c)" using x(1) e by (auto simp: in_set_enumerate_eq)
  then obtain seen seen' where "validate_section F alpha entry seen = Inr seen'"
    using config_validate_parts(1) [OF assms(1)] by blast
  then obtain hello update metric where
    v: "effective_interval (sec_hello_interval_ms entry) ''hello_interval_ms'' = Inr hello"
      "effective_update_interval entry = Inr update" "metric_build F alpha (section_metric entry) = Inr metric"
    by (auto simp: validate_section_def and_then_Inr)
  then show ?thesis
    using r effective_interval_Inr(1) [OF v(1)] effective_update_interval_Inr [OF v(2)]
    by (simp add: section_settings_def build_policy_def validate_interface_policy_def validate_intervals_def)
qed

theorem valid_config_interfaces_witness:
  "\<exists>i p. effective_interface_of sample_daemon_config ''wg0'' = Some (Inr i)
     \<and> build_policy sample_f64 () i = Inr p \<and> validate_interface_policy p = Inr ()"
proof -
  have "effective_interface_of sample_daemon_config ''wg0'' \<noteq> None" by code_simp
  then obtain r where r: "effective_interface_of sample_daemon_config ''wg0'' = Some r" by blast
  show ?thesis using valid_config_interfaces [OF sample_config_valid r] r by blast
qed



end
