(* ===== verification/Babel_Projection.thy ===== *)
theory Babel_Projection
  imports Babel_Config
begin

text \<open>
  \<open>crates/babel-rs/src/linux/projection.rs\<close>: how the daemon spreads a snapshot of the selected
  routes over the routing tables of the kernel, one table for each source prefix, and the route
  policy it gives the engine (\<open>DaemonPolicy\<close> of \<open>policy.rs\<close>).

  A lookup in the kernel first picks the table of the most specific source prefix that contains the
  source of a packet, then the longest destination prefix in it. The projection makes this the
  choice of RFC 9079, which compares destinations first: the table of a source prefix holds the
  routes of all source prefixes around it.
\<close>

section \<open>Projection\<close>

record snapshot =
  sn_generation :: u64
  sn_routes :: "selected_route list"
  sn_unreachable :: "route_key list"

record projected_route =
  pr_table :: u32
  pr_key :: route_key
  pr_selected :: "selected_route option"
  pr_source_specific :: bool

definition route_matches_view :: "ipnet_sets \<Rightarrow> export_view \<Rightarrow> route_key \<Rightarrow> bool" where
  "route_matches_view M view key =
     (case (vw_source view, source key) of
        (None, None) \<Rightarrow> True
      | (Some view_source, None) \<Rightarrow> is_ipv4 (net_addr view_source) = is_ipv4 (net_addr (destination key))
      | (Some view_source, Some route_source) \<Rightarrow> net_contains M route_source view_source
      | (None, Some _) \<Rightarrow> False)"

definition specificity :: "route_key \<Rightarrow> u8" where
  "specificity key = (case source key of None \<Rightarrow> 0 | Some s \<Rightarrow> prefix_len s)"

type_synonym projection = "(u32 \<times> ip_net, projected_route) table"

definition project_route :: "ipnet_sets \<Rightarrow> export_view \<Rightarrow> selected_route \<Rightarrow> projection \<Rightarrow> projection" where
  "project_route M view route projected =
     (if \<not> route_matches_view M view (sel_key route) \<or> \<not> allows_key M (vw_filter view) (sel_key route) then projected
      else let key = (vw_table view, destination (sel_key route))
           in if (case map_of projected key of
                    None \<Rightarrow> True
                  | Some current \<Rightarrow> specificity (sel_key route) > specificity (pr_key current))
              then AList.update key
                     \<lparr>pr_table = vw_table view, pr_key = sel_key route, pr_selected = Some route,
                      pr_source_specific = (source (sel_key route) \<noteq> None)\<rparr> projected
              else projected)"

definition project_unreachable :: "ipnet_sets \<Rightarrow> export_view \<Rightarrow> route_key \<Rightarrow> projection \<Rightarrow> projection" where
  "project_unreachable M view key projected =
     (if \<not> route_matches_view M view key then projected
      else if (case map_of projected (vw_table view, destination key) of
                 None \<Rightarrow> False
               | Some current \<Rightarrow> specificity (pr_key current) > specificity key)
      then projected
      else AList.update (vw_table view, destination key)
             \<lparr>pr_table = vw_table view, pr_key = key, pr_selected = None,
              pr_source_specific = (source key \<noteq> None)\<rparr> projected)"

definition project_view :: "ipnet_sets \<Rightarrow> snapshot \<Rightarrow> export_view \<Rightarrow> projection \<Rightarrow> projection" where
  "project_view M sn view projected =
     fold (project_unreachable M view) (sn_unreachable sn)
       (fold (project_route M view) (sn_routes sn) projected)"

definition project_routes :: "ipnet_sets \<Rightarrow> export_view list \<Rightarrow> snapshot \<Rightarrow> projected_route list" where
  "project_routes M views sn =
     sort_key (\<lambda>route. (pr_table route, destination (pr_key route)))
       (table_values (fold (project_view M sn) views []))"

section \<open>Source tables\<close>

text \<open>The least identifier from \<open>start\<close> on that is not in use, unless they run out.\<close>

function free_table :: "u32 list \<Rightarrow> u32 \<Rightarrow> u32 option" where
  "free_table used start =
     (if start \<notin> set used then Some start
      else if start = 0xffffffff then None
      else free_table used (start + 1))"
  by pat_completeness auto
termination
proof (relation "measure (\<lambda>(used, start). 2 ^ 32 - unat start)")
  fix used :: "u32 list" and start :: u32
  assume "\<not> start \<notin> set used" "start \<noteq> 0xffffffff"
  then have "unat (start + 1) = Suc (unat start)" by (simp add: u32_succ)
  moreover have "unat start < 2 ^ 32" using unsigned_less [of start] by simp
  ultimately show "((used, start + 1), used, start) \<in> measure (\<lambda>(used, start). 2 ^ 32 - unat start)" by simp
qed simp

declare free_table.simps [simp del]

definition source_view :: "u32 \<Rightarrow> ip_net \<Rightarrow> export_view" where
  "source_view t s = \<lparr>vw_table = t, vw_source = Some s, vw_rule_priority = None, vw_filter = filter_default\<rparr>"

text \<open>The loop over the sources; the error is that the identifiers have run out.\<close>

fun allocate_views ::
    "ip_net list \<Rightarrow> (ip_net, u32) table \<Rightarrow> u32 list \<Rightarrow> u32 \<Rightarrow> export_view list
      \<Rightarrow> (string + export_view list) \<times> (ip_net, u32) table" where
  "allocate_views [] allocated used start views = (Inr views, allocated)"
| "allocate_views (s # sources) allocated used start views =
     (case map_of allocated s of
        Some t \<Rightarrow> allocate_views sources allocated used start (views @ [source_view t s])
      | None \<Rightarrow>
          (case free_table used start of
             None \<Rightarrow> (Inl ''source table IDs exhausted'', allocated)
           | Some t \<Rightarrow> allocate_views sources (bt_insert s t allocated) (t # used) t (views @ [source_view t s])))"

definition active_sources :: "export \<Rightarrow> snapshot \<Rightarrow> (ip_net, u32) table \<Rightarrow> ip_net list" where
  "active_sources ex sn held =
     (let explicit = List.map_filter vw_source (ex_views ex)
      in sort (remdups (filter (\<lambda>s. s \<notin> set explicit)
           (List.map_filter source (map sel_key (sn_routes sn) @ sn_unreachable sn) @ table_keys held))))"

definition source_views_with_recovery ::
    "export \<Rightarrow> snapshot \<Rightarrow> (ip_net, u32) table \<Rightarrow> (ip_net, u32) table
      \<Rightarrow> (string + export_view list) \<times> (ip_net, u32) table" where
  "source_views_with_recovery ex sn held allocated =
     (let allocated1 = fold (\<lambda>(s, t). bt_insert s t) held allocated
      in if \<not> automatic_sources ex then (Inr (ex_views ex), [])
         else
           let sources = active_sources ex sn held;
               used = map vw_table (ex_views ex);
               allocated2 = filter (\<lambda>(s, t). s \<in> set sources \<and> t \<ge> ex_source_table_base ex \<and> t \<notin> set used) allocated1
           in allocate_views sources allocated2 (table_values allocated2 @ used) (ex_source_table_base ex) (ex_views ex))"

section \<open>The policy of the daemon\<close>

definition source_supported :: "export \<Rightarrow> route_key \<Rightarrow> bool" where
  "source_supported ex key =
     (case source key of
        None \<Rightarrow> True
      | Some s \<Rightarrow> automatic_sources ex \<or> list_ex (\<lambda>view. vw_source view = Some s) (ex_views ex))"

definition source_policy :: "export \<Rightarrow> route_policy" where
  "source_policy ex =
     \<lparr>accept = (\<lambda>route. source_supported ex (ic_key route)),
      announce = (\<lambda>route. source_supported ex (ec_key route))\<rparr>"

definition daemon_policy :: "ipnet_sets \<Rightarrow> daemon_config \<Rightarrow> route_policy" where
  "daemon_policy M c =
     \<lparr>accept = (\<lambda>route. accept (source_policy (dc_export c)) route
         \<and> filter_allows M (pol_import (dc_policy c)) (ic_key route)
              (Some (ic_interface route)) (Some (ic_neighbor route)) None),
      announce = (\<lambda>route. announce (source_policy (dc_export c)) route
         \<and> filter_allows M (pol_announce (dc_policy c)) (ec_key route)
              (Some (ec_interface route)) None (Some (ec_locally_originated route)))\<rparr>"

section \<open>What a table holds\<close>

text \<open>The entry \<open>r\<close> is a route or a held withdrawal of the snapshot that the view \<open>v\<close> takes.\<close>

definition from_view :: "ipnet_sets \<Rightarrow> snapshot \<Rightarrow> export_view \<Rightarrow> projected_route \<Rightarrow> bool" where
  "from_view M sn v r \<longleftrightarrow>
     pr_table r = vw_table v \<and> route_matches_view M v (pr_key r)
     \<and> (case pr_selected r of
          Some route \<Rightarrow> route \<in> set (sn_routes sn) \<and> sel_key route = pr_key r \<and> allows_key M (vw_filter v) (pr_key r)
        | None \<Rightarrow> pr_key r \<in> set (sn_unreachable sn))"

definition projection_ok :: "ipnet_sets \<Rightarrow> snapshot \<Rightarrow> export_view set \<Rightarrow> projection \<Rightarrow> bool" where
  "projection_ok M sn V p \<longleftrightarrow>
     distinct (table_keys p)
     \<and> (\<forall>(key, r) \<in> set p. key = (pr_table r, destination (pr_key r)) \<and> (\<exists>v \<in> V. from_view M sn v r))"

text \<open>The table has an entry for the destination of the key that is no less specific.\<close>

definition holds_key :: "projection \<Rightarrow> u32 \<Rightarrow> route_key \<Rightarrow> bool" where
  "holds_key p t key \<longleftrightarrow>
     (\<exists>r. map_of p (t, destination key) = Some r \<and> specificity key \<le> specificity (pr_key r))"

definition higher :: "projection \<Rightarrow> projection \<Rightarrow> bool" where
  "higher p p' \<longleftrightarrow>
     (\<forall>key r. map_of p key = Some r \<longrightarrow>
        (\<exists>r'. map_of p' key = Some r' \<and> specificity (pr_key r) \<le> specificity (pr_key r')))"

lemma higher_refl [simp]: "higher p p"
  by (auto simp: higher_def)

lemma higher_trans: "higher p q \<Longrightarrow> higher q r \<Longrightarrow> higher p r"
  unfolding higher_def by (meson order_trans)

lemma holds_key_higher: "holds_key p t key \<Longrightarrow> higher p p' \<Longrightarrow> holds_key p' t key"
  unfolding holds_key_def higher_def by (meson order_trans)

lemma project_insert:
  assumes ok: "projection_ok M sn V p" and v: "v \<in> V" and r: "from_view M sn v r"
    and up: "\<And>current. map_of p (pr_table r, destination (pr_key r)) = Some current \<Longrightarrow>
      specificity (pr_key current) \<le> specificity (pr_key r)"
  shows "projection_ok M sn V (AList.update (pr_table r, destination (pr_key r)) r p)"
    "higher p (AList.update (pr_table r, destination (pr_key r)) r p)"
    "holds_key (AList.update (pr_table r, destination (pr_key r)) r p) (pr_table r) (pr_key r)"
proof -
  have d: "distinct (table_keys p)" using ok by (simp add: projection_ok_def)
  show "projection_ok M sn V (AList.update (pr_table r, destination (pr_key r)) r p)"
    using ok v r unfolding projection_ok_def hash_table.set_ins [OF d] by (auto simp: distinct_update)
  show "higher p (AList.update (pr_table r, destination (pr_key r)) r p)"
    using up by (auto simp: higher_def update_conv')
  show "holds_key (AList.update (pr_table r, destination (pr_key r)) r p) (pr_table r) (pr_key r)"
    by (simp add: holds_key_def update_conv')
qed

lemma project_route_step:
  assumes "projection_ok M sn V p" "v \<in> V" "route \<in> set (sn_routes sn)"
  shows "projection_ok M sn V (project_route M v route p)" "higher p (project_route M v route p)"
    "route_matches_view M v (sel_key route) \<Longrightarrow> allows_key M (vw_filter v) (sel_key route) \<Longrightarrow>
       holds_key (project_route M v route p) (vw_table v) (sel_key route)"
proof -
  let ?r = "\<lparr>pr_table = vw_table v, pr_key = sel_key route, pr_selected = Some route,
    pr_source_specific = (source (sel_key route) \<noteq> None)\<rparr>"
  have "projection_ok M sn V (project_route M v route p) \<and> higher p (project_route M v route p)
    \<and> (route_matches_view M v (sel_key route) \<longrightarrow> allows_key M (vw_filter v) (sel_key route) \<longrightarrow>
       holds_key (project_route M v route p) (vw_table v) (sel_key route))"
  proof (cases "route_matches_view M v (sel_key route) \<and> allows_key M (vw_filter v) (sel_key route)")
    case True
    have f: "from_view M sn v ?r" using True assms(3) by (simp add: from_view_def)
    show ?thesis
    proof (cases "\<exists>current. map_of p (vw_table v, destination (sel_key route)) = Some current
        \<and> specificity (sel_key route) \<le> specificity (pr_key current)")
      case True
      then have "project_route M v route p = p" "holds_key p (vw_table v) (sel_key route)"
        by (auto simp: project_route_def holds_key_def Let_def)
      then show ?thesis using assms(1) by simp
    next
      case False
      then have e: "project_route M v route p = AList.update (vw_table v, destination (sel_key route)) ?r p"
        using True by (auto simp: project_route_def Let_def not_le split: option.splits)
      have "specificity (pr_key current) \<le> specificity (sel_key route)"
        if "map_of p (vw_table v, destination (sel_key route)) = Some current" for current
        using False that by (auto simp: not_le)
      then show ?thesis using project_insert [OF assms(1,2) f] by (simp add: e)
    qed
  next
    case False
    then have "project_route M v route p = p" by (simp add: project_route_def)
    then show ?thesis using assms(1) False by simp
  qed
  then show "projection_ok M sn V (project_route M v route p)" "higher p (project_route M v route p)"
    "route_matches_view M v (sel_key route) \<Longrightarrow> allows_key M (vw_filter v) (sel_key route) \<Longrightarrow>
       holds_key (project_route M v route p) (vw_table v) (sel_key route)" by blast+
qed

lemma project_unreachable_step:
  assumes "projection_ok M sn V p" "v \<in> V" "key \<in> set (sn_unreachable sn)"
  shows "projection_ok M sn V (project_unreachable M v key p)" "higher p (project_unreachable M v key p)"
    "route_matches_view M v key \<Longrightarrow> holds_key (project_unreachable M v key p) (vw_table v) key"
proof -
  let ?r = "\<lparr>pr_table = vw_table v, pr_key = key, pr_selected = None, pr_source_specific = (source key \<noteq> None)\<rparr>"
  have "projection_ok M sn V (project_unreachable M v key p) \<and> higher p (project_unreachable M v key p)
    \<and> (route_matches_view M v key \<longrightarrow> holds_key (project_unreachable M v key p) (vw_table v) key)"
  proof (cases "route_matches_view M v key")
    case True
    have f: "from_view M sn v ?r" using True assms(3) by (simp add: from_view_def)
    show ?thesis
    proof (cases "\<exists>current. map_of p (vw_table v, destination key) = Some current
        \<and> specificity key < specificity (pr_key current)")
      case True
      then have "project_unreachable M v key p = p" "holds_key p (vw_table v) key"
        by (auto simp: project_unreachable_def holds_key_def)
      then show ?thesis using assms(1) by simp
    next
      case False
      then have e: "project_unreachable M v key p = AList.update (vw_table v, destination key) ?r p"
        using True by (auto simp: project_unreachable_def split: option.splits)
      have "specificity (pr_key current) \<le> specificity key"
        if "map_of p (vw_table v, destination key) = Some current" for current
        using False that by (auto simp: not_less)
      then show ?thesis using project_insert [OF assms(1,2) f] by (simp add: e)
    qed
  next
    case False
    then have "project_unreachable M v key p = p" by (simp add: project_unreachable_def)
    then show ?thesis using assms(1) False by simp
  qed
  then show "projection_ok M sn V (project_unreachable M v key p)" "higher p (project_unreachable M v key p)"
    "route_matches_view M v key \<Longrightarrow> holds_key (project_unreachable M v key p) (vw_table v) key" by blast+
qed

text \<open>A loop of such steps.\<close>

lemma fold_projection:
  assumes step: "\<And>x p. x \<in> set xs \<Longrightarrow> projection_ok M sn V p \<Longrightarrow>
      projection_ok M sn V (f x p) \<and> higher p (f x p) \<and> (Q x \<longrightarrow> holds_key (f x p) t (k x))"
    and ok: "projection_ok M sn V p"
  shows "projection_ok M sn V (fold f xs p) \<and> higher p (fold f xs p)
    \<and> (\<forall>x \<in> set xs. Q x \<longrightarrow> holds_key (fold f xs p) t (k x))"
  using step ok
proof (induction xs arbitrary: p)
  case (Cons x xs)
  have x: "projection_ok M sn V (f x p)" "higher p (f x p)" "Q x \<Longrightarrow> holds_key (f x p) t (k x)"
    using Cons.prems(1) [OF _ Cons.prems(2), of x] by auto
  have IH: "projection_ok M sn V (fold f xs (f x p)) \<and> higher (f x p) (fold f xs (f x p))
      \<and> (\<forall>y \<in> set xs. Q y \<longrightarrow> holds_key (fold f xs (f x p)) t (k y))"
    using Cons.IH [OF Cons.prems(1) x(1)] by simp
  then show ?case using x higher_trans holds_key_higher by fastforce
qed simp

lemma project_view_step:
  assumes ok: "projection_ok M sn V p" and v: "v \<in> V"
  shows "projection_ok M sn V (project_view M sn v p)" "higher p (project_view M sn v p)"
    "route \<in> set (sn_routes sn) \<Longrightarrow> route_matches_view M v (sel_key route) \<Longrightarrow>
       allows_key M (vw_filter v) (sel_key route) \<Longrightarrow> holds_key (project_view M sn v p) (vw_table v) (sel_key route)"
    "key \<in> set (sn_unreachable sn) \<Longrightarrow> route_matches_view M v key \<Longrightarrow> holds_key (project_view M sn v p) (vw_table v) key"
proof -
  let ?p1 = "fold (project_route M v) (sn_routes sn) p"
  have 1: "projection_ok M sn V ?p1 \<and> higher p ?p1 \<and> (\<forall>route \<in> set (sn_routes sn).
      route_matches_view M v (sel_key route) \<and> allows_key M (vw_filter v) (sel_key route) \<longrightarrow>
        holds_key ?p1 (vw_table v) (sel_key route))"
    by (rule fold_projection [OF _ ok]) (use project_route_step [OF _ v] in blast)
  have 2: "projection_ok M sn V (project_view M sn v p) \<and> higher ?p1 (project_view M sn v p)
      \<and> (\<forall>key \<in> set (sn_unreachable sn). route_matches_view M v key \<longrightarrow> holds_key (project_view M sn v p) (vw_table v) key)"
    unfolding project_view_def
    by (rule fold_projection [OF _ conjunct1 [OF 1]]) (use project_unreachable_step [OF _ v] in blast)
  show "projection_ok M sn V (project_view M sn v p)" "higher p (project_view M sn v p)"
    using 1 2 higher_trans by blast+
  show "route \<in> set (sn_routes sn) \<Longrightarrow> route_matches_view M v (sel_key route) \<Longrightarrow>
       allows_key M (vw_filter v) (sel_key route) \<Longrightarrow> holds_key (project_view M sn v p) (vw_table v) (sel_key route)"
    using 1 2 holds_key_higher by blast
  show "key \<in> set (sn_unreachable sn) \<Longrightarrow> route_matches_view M v key \<Longrightarrow> holds_key (project_view M sn v p) (vw_table v) key"
    using 2 by blast
qed

definition offered :: "ipnet_sets \<Rightarrow> snapshot \<Rightarrow> export_view \<Rightarrow> route_key \<Rightarrow> bool" where
  "offered M sn v key \<longleftrightarrow>
     key \<in> set (sn_unreachable sn) \<or> key \<in> set (map sel_key (sn_routes sn)) \<and> allows_key M (vw_filter v) key"

lemma project_views:
  "projection_ok M sn (set views) (fold (project_view M sn) views [])"
  "v \<in> set views \<Longrightarrow> offered M sn v key \<Longrightarrow> route_matches_view M v key \<Longrightarrow>
     holds_key (fold (project_view M sn) views []) (vw_table v) key"
proof -
  have empty: "projection_ok M sn (set views) []" by (simp add: projection_ok_def)
  have step: "projection_ok M sn (set views) (project_view M sn x p) \<and> higher p (project_view M sn x p)
      \<and> (x = v \<and> offered M sn v key \<and> route_matches_view M v key \<longrightarrow>
           holds_key (project_view M sn x p) (vw_table v) key)"
    if "x \<in> set views" "projection_ok M sn (set views) p" for x p v key
    using project_view_step [OF that(2,1)] by (auto simp: offered_def)
  have all: "projection_ok M sn (set views) (fold (project_view M sn) views [])
      \<and> higher [] (fold (project_view M sn) views [])
      \<and> (\<forall>x \<in> set views. x = v \<and> offered M sn v key \<and> route_matches_view M v key \<longrightarrow>
           holds_key (fold (project_view M sn) views []) (vw_table v) key)" for v key
    by (rule fold_projection [where k = "\<lambda>_. key", OF _ empty]) (rule step)
  show "projection_ok M sn (set views) (fold (project_view M sn) views [])"
    using all by blast
  show "v \<in> set views \<Longrightarrow> offered M sn v key \<Longrightarrow> route_matches_view M v key \<Longrightarrow>
     holds_key (fold (project_view M sn) views []) (vw_table v) key"
    using all by blast
qed

definition table_slot :: "projected_route \<Rightarrow> u32 \<times> ip_net" where
  "table_slot r = (pr_table r, destination (pr_key r))"

lemma projection_slots:
  assumes "projection_ok M sn V p"
  shows "map table_slot (table_values p) = table_keys p"
  using assms by (auto simp: projection_ok_def table_slot_def)

lemma project_routes_slots: "sorted_wrt (<) (map table_slot (project_routes M views sn))"
proof -
  let ?p = "fold (project_view M sn) views []"
  have d: "distinct (map table_slot (table_values ?p))"
    unfolding projection_slots [OF project_views(1)] using project_views(1) by (simp add: projection_ok_def)
  have e: "project_routes M views sn = sort_key table_slot (table_values ?p)"
    unfolding project_routes_def table_slot_def by simp
  have "distinct (map table_slot (sort_key table_slot (table_values ?p)))"
    using d by (metis distinct_map distinct_sort set_sort)
  then show ?thesis
    unfolding e strict_sorted_iff using sorted_sort_key by blast
qed

lemma project_routes_from:
  "r \<in> set (project_routes M views sn) \<Longrightarrow> \<exists>v \<in> set views. from_view M sn v r"
  using project_views(1) [of M sn views] by (fastforce simp: project_routes_def projection_ok_def)

lemma project_routes_holds:
  assumes "v \<in> set views" "offered M sn v key" "route_matches_view M v key"
  shows "\<exists>r \<in> set (project_routes M views sn). pr_table r = vw_table v
    \<and> destination (pr_key r) = destination key \<and> specificity key \<le> specificity (pr_key r)"
proof -
  let ?p = "fold (project_view M sn) views []"
  obtain r where r: "map_of ?p (vw_table v, destination key) = Some r" "specificity key \<le> specificity (pr_key r)"
    using project_views(2) [OF assms] by (auto simp: holds_key_def)
  then have m: "((vw_table v, destination key), r) \<in> set ?p" by (simp add: map_of_SomeD)
  then have "(vw_table v, destination key) = (pr_table r, destination (pr_key r))"
    using project_views(1) [of M sn views] by (auto simp: projection_ok_def)
  then show ?thesis using m r(2) by (force simp: project_routes_def)
qed

lemma project_routes_unique:
  assumes "r \<in> set (project_routes M views sn)" "r' \<in> set (project_routes M views sn)" "table_slot r = table_slot r'"
  shows "r = r'"
  using project_routes_slots [of M views sn] assms
  by (metis (no_types, lifting) strict_sorted_iff distinct_map inj_onD)

section \<open>Prefixes\<close>

lemma mask_coarser: "j \<le> i \<Longrightarrow> (w AND NOT (mask j)) AND NOT (mask i) = w AND NOT (mask i)" for w :: "'a::len word"
  by (rule bit_word_eqI) (auto simp: bit_simps)

lemma mask_coarser_eq:
  "j \<le> i \<Longrightarrow> w AND NOT (mask j) = x AND NOT (mask j) \<Longrightarrow> w AND NOT (mask i) = x AND NOT (mask i)" for w x :: "'a::len word"
  using mask_coarser [of j i w] mask_coarser [of j i x] by simp

lemma covers_family: "covers n x \<Longrightarrow> is_ipv4 x = is_ipv4 (net_addr n)"
  by (cases n; cases x) (simp_all add: covers_def)

lemma covers_coarser: "covers n x \<Longrightarrow> prefix_len s \<le> prefix_len n \<Longrightarrow> covers s x \<longleftrightarrow> covers s (net_addr n)"
proof (cases n)
  case (V4Net a p)
  assume c: "covers n x" and l: "prefix_len s \<le> prefix_len n"
  obtain b where x: "x = V4 b" "a AND NOT (mask (32 - unat p)) = b AND NOT (mask (32 - unat p))"
    using c V4Net by (cases x) (auto simp: covers_def)
  show ?thesis
  proof (cases s)
    case (V4Net a' p')
    then have "32 - unat p \<le> 32 - unat p'" using l \<open>n = V4Net a p\<close> by (simp add: word_le_nat_alt)
    then show ?thesis using mask_coarser_eq [OF _ x(2)] x(1) V4Net \<open>n = V4Net a p\<close> by (simp add: covers_def)
  qed (simp add: covers_def x(1) V4Net)
next
  case (V6Net a p)
  assume c: "covers n x" and l: "prefix_len s \<le> prefix_len n"
  obtain b where x: "x = V6 b" "a AND NOT (mask (128 - unat p)) = b AND NOT (mask (128 - unat p))"
    using c V6Net by (cases x) (auto simp: covers_def)
  show ?thesis
  proof (cases s)
    case (V6Net a' p')
    then have "128 - unat p \<le> 128 - unat p'" using l \<open>n = V6Net a p\<close> by (simp add: word_le_nat_alt)
    then show ?thesis using mask_coarser_eq [OF _ x(2)] x(1) V6Net \<open>n = V6Net a p\<close> by (simp add: covers_def)
  qed (simp add: covers_def x(1) V6Net)
qed

context ipnet_package
begin

lemma covers_unique:
  assumes "covers m x" "covers n x" "prefix_len m = prefix_len n" "trunc N m = m" "trunc N n = n"
  shows "m = n"
  using assms by (cases m; cases n; cases x) (auto simp: covers_def trunc_v4 trunc_v6)

end

end
