(* ===== verification/Babel_Tables.thy ===== *)
theory Babel_Tables
  imports Babel_Projection
begin

text \<open>
  What the tables of the kernel hold and what a lookup in them finds: the allocation of a table to
  every source prefix, and the agreement of a lookup with the choice of RFC 9079.
\<close>

section \<open>Allocation\<close>












section \<open>Lookups\<close>














section \<open>What the kernel is given\<close>

text \<open>
  An example: the configuration \<open>sample_daemon_config\<close> with one ordinary view and automatic source
  views, and a snapshot with an ordinary route and a more specific one for packets from one source
  prefix.
\<close>

definition sample_route :: "ip_net option \<Rightarrow> selected_route" where
  "sample_route s =
     \<lparr>sel_key = RouteKey (V4Net 0x0A000000 8) s, sel_router_id = RouterId 1, sel_seqno = 1, sel_metric = 96,
      sel_next_hop = V4 0x0A000002, sel_interface = ''wg0''\<rparr>"

definition sample_source :: ip_net where
  "sample_source = V4Net 0xC0A80000 16"

definition sample_snapshot :: snapshot where
  "sample_snapshot =
     \<lparr>sn_generation = 1, sn_routes = [sample_route None, sample_route (Some sample_source)], sn_unreachable = []\<rparr>"





text \<open>
  C18. The projection is complete and minimal: every table has at most one entry for a destination,
  in order; every route a view takes and every held withdrawal it matches is there or gives way to
  an entry for the same destination from a source at least as specific; and every entry is such a
  route or withdrawal.
\<close>

theorem project_routes_complete:
  "sorted_wrt (<) (map (\<lambda>r. (pr_table r, destination (pr_key r))) (project_routes M views sn))
   \<and> (\<forall>v \<in> set views. \<forall>key. offered M sn v key \<and> route_matches_view M v key \<longrightarrow>
        (\<exists>r \<in> set (project_routes M views sn). pr_table r = vw_table v
           \<and> destination (pr_key r) = destination key \<and> specificity key \<le> specificity (pr_key r)))
   \<and> (\<forall>r \<in> set (project_routes M views sn). \<exists>v \<in> set views. pr_table r = vw_table v
        \<and> route_matches_view M v (pr_key r)
        \<and> (case pr_selected r of
             Some route \<Rightarrow> route \<in> set (sn_routes sn) \<and> sel_key route = pr_key r \<and> allows_key M (vw_filter v) (pr_key r)
           | None \<Rightarrow> pr_key r \<in> set (sn_unreachable sn)))"
  using project_routes_slots [of M views sn] project_routes_holds [of _ views M sn] project_routes_from [of _ M views sn]
  by (simp add: table_slot_def [abs_def] from_view_def)

theorem project_routes_complete_witness:
  "\<exists>r \<in> set (project_routes ipnet_sets_ref (ex_views sample_export @ [source_view 1000 sample_source]) sample_snapshot).
     pr_table r = 1000 \<and> destination (pr_key r) = V4Net 0x0A000000 8 \<and> 16 \<le> specificity (pr_key r)"
proof -
  let ?v = "source_view 1000 sample_source"
  let ?key = "RouteKey (V4Net 0x0A000000 8) (Some sample_source)"
  have "?v \<in> set (ex_views sample_export @ [?v])" by simp
  moreover have "offered ipnet_sets_ref sample_snapshot ?v ?key \<and> route_matches_view ipnet_sets_ref ?v ?key"
    unfolding offered_def by code_simp
  ultimately have "\<exists>r \<in> set (project_routes ipnet_sets_ref (ex_views sample_export @ [?v]) sample_snapshot).
      pr_table r = vw_table ?v \<and> destination (pr_key r) = destination ?key \<and> specificity ?key \<le> specificity (pr_key r)"
    using project_routes_complete [of ipnet_sets_ref "ex_views sample_export @ [?v]" sample_snapshot] by blast
  then show ?thesis by (simp add: source_view_def specificity_def sample_source_def)
qed





end
