(* ===== verification/Babel_Recovery.thy ===== *)
theory Babel_Recovery
  imports Babel_Tables
begin

text \<open>
  \<open>crates/babel-rs/src/linux/recovery.rs\<close> and the planning part of \<open>linux/netlink.rs\<close>: which routes
  the daemon installs in the kernel and which it removes, and how long routes it finds there after
  a restart stay. The exchange with the kernel, the journal file and its encoding are outside the
  model: what they yield (the routes and rules found, the boot identifier, the journal read back,
  the index of an interface, whether a message can be built) are arguments.
\<close>

section \<open>Identities\<close>

record route_identity =
  ri_table :: u32
  ri_destination :: ip_net
  ri_priority :: u32
  ri_output_interface :: u32
  ri_gateway :: "ip_addr option"
  ri_unreachable :: bool

record rule_identity =
  rid_table :: u32
  rid_priority :: u32
  rid_source :: ip_net


abbreviation (input) DYNAMIC_PRIORITY_BASE :: u32 where "DYNAMIC_PRIORITY_BASE \<equiv> 65535"

section \<open>The journal\<close>

record pending_route =
  pe_route :: route_identity
  pe_deadline_ms :: u64

record journal =
  jn_version :: u8
  jn_boot :: string
  jn_namespace :: string
  jn_protocol :: u8
  jn_export_scope :: string
  jn_pending :: "pending_route list"

record recovery =
  rc_journal :: journal
  rc_rules :: "rule_identity list"
  rc_revoked :: bool
  rc_dirty :: bool







definition live :: "recovery \<Rightarrow> pending_route \<Rightarrow> u64 \<Rightarrow> bool" where
  "live rc p now = (\<not> rc_revoked rc \<and> now < pe_deadline_ms p)"

definition recovery_sources :: "u64 \<Rightarrow> export \<Rightarrow> recovery \<Rightarrow> (ip_net, u32) table" where
  "recovery_sources now ex rc =
     (if \<not> automatic_sources ex then []
      else fold (\<lambda>rule. bt_insert (rid_source rule) (rid_table rule))
        (filter (\<lambda>rule. \<not> list_ex (\<lambda>view. vw_source view = Some (rid_source rule)) (ex_views ex)
            \<and> list_ex (\<lambda>p. ri_table (pe_route p) = rid_table rule \<and> live rc p now) (jn_pending (rc_journal rc)))
          (rc_rules rc)) [])"



definition saved :: "recovery \<Rightarrow> recovery" where
  "saved rc = rc\<lparr>rc_dirty := False\<rparr>"

definition remaining :: "u64 \<Rightarrow> recovery \<Rightarrow> nat \<times> u64" where
  "remaining now rc =
     (let pending = filter (\<lambda>p. live rc p now) (jn_pending (rc_journal rc))
      in (length pending,
          case map (\<lambda>p. sat_sub (pe_deadline_ms p) now) pending of [] \<Rightarrow> 0 | t # ts \<Rightarrow> foldl max t ts))"

definition eligible_rule :: "export \<Rightarrow> rule_identity \<Rightarrow> bool" where
  "eligible_rule ex rule =
     (ex_manage_rules ex
      \<and> (list_ex (\<lambda>v. vw_source v = Some (rid_source rule) \<and> vw_table v = rid_table rule
              \<and> rule_priority ex v = rid_priority rule) (ex_views ex)
         \<or> automatic_sources ex \<and> rid_table rule \<ge> ex_source_table_base ex
            \<and> \<not> list_ex (\<lambda>v. vw_table v = rid_table rule) (ex_views ex)
            \<and> rule_priority ex (source_view (rid_table rule) (rid_source rule)) = rid_priority rule))"

text \<open>The routes and rules that \<open>begin_recovery\<close> keeps of those the kernel has, and the deadlines
  \<open>recovery_interfaces\<close> withdraws after a reload.\<close>

definition recoverable :: "export \<Rightarrow> u32 list \<Rightarrow> rule_identity list \<Rightarrow> route_identity \<Rightarrow> bool" where
  "recoverable ex indices rules r =
     (\<not> ri_unreachable r \<and> ri_priority r \<ge> DYNAMIC_PRIORITY_BASE
      \<and> ri_priority r < DYNAMIC_PRIORITY_BASE + ucast INFINITY
      \<and> ri_output_interface r \<in> set indices
      \<and> (list_ex (\<lambda>v. vw_table v = ri_table r) (ex_views ex) \<or> list_ex (\<lambda>v. rid_table v = ri_table r) rules))"


section \<open>The plan\<close>






definition desired_rules :: "export \<Rightarrow> bool \<Rightarrow> rule_identity list" where
  "desired_rules ex retain =
     (if retain \<and> ex_manage_rules ex
      then List.map_filter (\<lambda>view. map_option (\<lambda>s. \<lparr>rid_table = vw_table view, rid_priority = rule_priority ex view,
             rid_source = s\<rparr>) (vw_source view)) (ex_views ex)
      else [])"

section \<open>Deadlines\<close>











section \<open>What the kernel keeps\<close>













end
