(* ===== verification/Babel_Daemon.thy ===== *)
theory Babel_Daemon
  imports Babel_Recovery Babel_Sample
begin

text \<open>
  The daemon and the engine together: what the engine selects under the daemon's route policy, and
  that the engine accepts what a validated configuration originates.
\<close>

section \<open>Routes\<close>






section \<open>Origins\<close>

context ipnet_package
begin

lemma route_key_new_canonical:
  assumes "route_key_new N dst src = Some key"
  shows "route_key_new N (destination key) (source key) = Some key"
  using assms
  by (auto simp: route_key_new_def Let_def trunc_idem trunc_prefix_len trunc_family split: if_splits option.splits)

end

lemma try_fold_origins:
  "try_fold (validate_daemon_origin M) origins seen = Inr keys \<Longrightarrow> origin \<in> set origins \<Longrightarrow>
     \<exists>key. origin_key M origin = Inr key \<and> or_metric origin \<noteq> INFINITY"
  by (induction origins arbitrary: seen) (auto simp: validate_daemon_origin_def and_then_Inr split: if_splits)

text \<open>
  C17. The engine accepts what a validated configuration originates: every configured origin has a
  route key, and the engine's own check of an origin passes for it.
\<close>

theorem valid_config_origins:
  assumes "ipnet_sets_package M" "config_validate M F alpha c = Inr ()" "origin \<in> set (dc_origins c)"
  shows "\<exists>key. origin_key M origin = Inr key \<and> validate_origin (ipnet.truncate M) key (or_metric origin) = Inr ()"
proof -
  obtain keys where "try_fold (validate_daemon_origin M) (dc_origins c) [] = Inr keys"
    using config_validate_parts(4) [OF assms(2)] by blast
  from try_fold_origins [OF this assms(3)] obtain key where
    k: "origin_key M origin = Inr key" "or_metric origin \<noteq> INFINITY" by blast
  have "route_key_new (ipnet.truncate M) (or_destination origin) (or_source origin) = Some key"
    using k(1) by (simp add: origin_key_def)
  from ipnet_package.route_key_new_canonical [OF ipnet_sets_package.axioms(1) [OF assms(1)] this]
  show ?thesis using k by (simp add: validate_origin_def validate_route_key_def)
qed

definition sample_origin :: origin_section where
  "sample_origin = \<lparr>or_destination = V4Net 0x0A010000 16, or_source = None, or_metric = 0\<rparr>"

theorem valid_config_origins_witness:
  "config_validate ipnet_sets_ref sample_f64 () (sample_daemon_config\<lparr>dc_origins := [sample_origin]\<rparr>) = Inr ()
   \<and> (\<exists>key. origin_key ipnet_sets_ref sample_origin = Inr key)"
proof -
  have v: "config_validate ipnet_sets_ref sample_f64 () (sample_daemon_config\<lparr>dc_origins := [sample_origin]\<rparr>) = Inr ()"
    by code_simp
  then show ?thesis
    using valid_config_origins [OF sets_reference.ipnet_sets_package_axioms v, of sample_origin] by auto
qed

end
