(* ===== verification/Spec2Isabelle.thy ===== *)
theory Spec2Isabelle
  imports Babel_Guarantees Babel_Timestamps Babel_Sessions Babel_Daemon
begin

text \<open>
  A verification library for babel-rs, an implementation of the Babel routing protocol
  (RFC 8966, with RFC 9079 source-specific routing, RFC 9616 RTT timestamps and RFC 8967 MAC
  authentication). File names below are relative to \<open>src/crates/babel-protocol/src\<close> unless they
  name another crate.

  \<^bold>\<open>The program.\<close> The protocol crate is a library without I/O. Its engine (\<open>engine.rs\<close>,
  \<open>engine/\<close>) is a state machine: an embedding program hands it events (a datagram that was decoded,
  a timer, an interface, a change of policy) and executes the actions it returns (packets to send,
  a snapshot of the routes for the host). \<open>wire/\<close> turns octets into packets and back, \<open>metric.rs\<close>
  gives a link its cost, \<open>mac.rs\<close> authenticates datagrams. The router crate drives the engine over
  sockets and timers. The daemon crate (\<open>babel-rs\<close>) reads a configuration, turns its filters into
  the engine's route policy, and projects each snapshot of routes into tables of the Linux kernel,
  one per source prefix; after a restart it keeps the routes it finds there for a limited time.

  \<^bold>\<open>Conventions.\<close> A struct is a record, an enum a datatype, \<open>u8\<close> to \<open>u64\<close> are words of their
  width with saturating and wrapping arithmetic written as in the source, a count of elements
  (\<open>usize\<close>) is a \<open>nat\<close>. A \<open>HashMap\<close> is an association list with distinct keys; where the order of
  its iteration can show, the order is a parameter of the model (\<open>hash_iter\<close>, record \<open>env\<close>). A
  \<open>BTreeMap\<close> is an association list sorted by its keys. Both satisfy the locale \<open>table_ops\<close>.
  A \<open>Result\<close> is a sum with the error on the left. A method that changes its object takes the object
  last and returns it next to its result, also when it fails half way. Loops are recursive
  functions with termination proofs or folds; no definition needs fuel.

  \<^bold>\<open>Theories and sources.\<close>
  \<^item> \<open>Babel_Prelude\<close>: saturating arithmetic, octet strings of words, tables, iterator adaptors.
  \<^item> \<open>Babel_Model\<close> (\<open>model.rs\<close>): addresses, prefixes, router identities, route keys, sequence
    numbers, feasibility. The \<open>ipnet\<close> package is a parameter with the laws of \<open>ipnet_package\<close>.
  \<^item> \<open>Babel_Hello\<close>, \<open>Babel_Metric\<close> (\<open>metric.rs\<close>): Hello histories, the additive algebra, the
    wired, ETX and RTT metrics against the trait as the locale \<open>link_metric\<close>. Floating-point
    arithmetic is a parameter.
  \<^item> \<open>Babel_Wire\<close>, \<open>Babel_Decode\<close>, \<open>Babel_Encode\<close> (\<open>wire.rs\<close>, \<open>wire/\<close>): TLVs, the decoder, the
    encoder and the packetizer. \<open>Babel_Roundtrip\<close> and \<open>Babel_Packets\<close> show that what is encoded
    decodes to what was meant and fits its budget; \<open>Babel_Timestamps\<close> that stamping a datagram
    changes nothing but the timestamps.
  \<^item> \<open>Babel_State\<close> (\<open>engine/api.rs\<close>, \<open>limits.rs\<close>, \<open>policy.rs\<close>, \<open>validation.rs\<close>): configuration,
    events, actions, the engine record, validation. \<open>Babel_Clock\<close>: the scheduling functions.
  \<^item> \<open>Babel_Output\<close>, \<open>Babel_Sources\<close>, \<open>Babel_Rib\<close>, \<open>Babel_Neighbors\<close>, \<open>Babel_Timers\<close> (the files
    of \<open>engine/\<close> with these names) and \<open>Babel_Engine\<close> (\<open>engine.rs\<close>, \<open>engine/interfaces.rs\<close>,
    \<open>engine/policy.rs\<close>): every handler, up to \<open>try_new\<close> and \<open>try_handle\<close>.
  \<^item> \<open>Babel_Frame\<close>, \<open>Babel_Selection\<close>, \<open>Babel_Invariants\<close>, \<open>Babel_Safety\<close>: what each handler
    keeps, what \<open>reselect\<close> computes, the invariant of the engine and what its actions announce.
    \<open>Babel_Reachable\<close> puts them together: the relation \<open>reachable\<close> holds of an engine and the
    actions it has returned, and \<open>reachable_ok\<close> gives the invariant for each. \<open>Babel_Sample\<close> is a
    concrete run and \<open>Babel_Guarantees\<close> the theorems on reachable engines.
  \<^item> \<open>Babel_Mac\<close> (\<open>mac.rs\<close>): keys, signing, verification, challenges. The digests, the
    constant-time comparison and the random source are parameters. \<open>Babel_Authentic\<close> and
    \<open>Babel_Sessions\<close> show what a session accepts, that it cannot be made to accept a packet twice
    and that two sessions come to know each other.
  \<^item> \<open>Babel_Filter\<close> (\<open>babel-rs/src/policy.rs\<close>, \<open>wildcard_match\<close> of \<open>config.rs\<close>): first-match filters.
    The containment of prefixes is a parameter with the laws of \<open>ipnet_sets_package\<close>.
  \<^item> \<open>Babel_Config\<close> (\<open>babel-rs/src/config.rs\<close>): the configuration, its normalisation and validation,
    MAC keys from their files, the settings of an interface.
  \<^item> \<open>Babel_Projection\<close> (\<open>babel-rs/src/linux/projection.rs\<close>, \<open>DaemonPolicy\<close>): a snapshot as kernel
    routes, tables for source prefixes. \<open>Babel_Tables\<close> shows that the tables and their rules
    forward as source-specific routing requires.
  \<^item> \<open>Babel_Recovery\<close> (\<open>babel-rs/src/linux/recovery.rs\<close>, \<open>apply_locked\<close> and \<open>reconcile_rules\<close> of
    \<open>netlink.rs\<close>): the journal of routes found after a restart, the routes to install and to delete,
    the rules to have. \<open>Babel_Daemon\<close> joins the daemon's configuration to the engine.

  \<^bold>\<open>What is shown of the engine.\<close> In every reachable engine the selected routes are backed by
  current finite candidates, a host that executes the actions holds exactly the engine's routes and
  unreachable keys, the admission limits hold and the counters are exact, every candidate passed
  the import policy now in force and every finite update the export policy, and requests,
  repetitions and hop counts stay bounded. An event is refused exactly if its validation fails, and
  then nothing changes.

  \<^bold>\<open>What is shown of the daemon.\<close> A validated configuration gives every interface settings the engine
  accepts, origins the engine accepts and rules in the order of specificity. Under the daemon's
  policy every selected route passed the import filter. Looking a packet up in the projected tables
  finds the best route by destination and then source; an active source keeps its table; the plan
  for the kernel leaves exactly the projected routes and those still recovering, and no sequence of
  restarts prolongs a recovery. A restart reads back the journal as last held in memory: that
  writes of the journal file succeed is not part of the model.

  \<^bold>\<open>Not modelled.\<close> The router crate is asynchronous I/O over the Tokio runtime (tasks, channels,
  sockets, wall-clock timers), of which only the snapshot it hands over is a type here; the
  daemon's process control, interface watching, control socket, state file and netlink exchange are
  system calls, and so are the reading of the configuration and journal files; their decoding is
  derived code of the serde packages. Formatting for logs and \<open>Debug\<close>, the panicking wrappers \<open>new\<close> and
  \<open>handle\<close> around \<open>try_new\<close> and \<open>try_handle\<close>, and the zeroisation of keys are left out.
\<close>

end
